(* ===== verification/Go_Prelude.thy ===== *)
theory Go_Prelude
  imports Main "HOL-Library.Word"
begin

text \<open>
  The common ground of the development: the machine integers and byte slices of Go, errors and
  panics as values, and the parts of the Go standard library on which every wire format of
  goeip is built, that is \<open>encoding/binary\<close> in little-endian order, \<open>bytes.Reader\<close> and
  \<open>io.ReadFull\<close>.  The interface of a wire format is the locale \<open>codec\<close>, its fixed-width
  refinement is \<open>fixed_codec\<close>; both are interpreted here on the integer formats and, in the
  theories of the components, on the records that goeip writes and reads.
\<close>

unbundle bit_operations_syntax

section \<open>Integers, bytes, errors\<close>

type_synonym byte = "8 word"
type_synonym u8 = "8 word"
type_synonym u16 = "16 word"
type_synonym u32 = "32 word"
type_synonym u64 = "64 word"
type_synonym bytes = "byte list"

text \<open>
  The \<open>error\<close> values of the code.  \<open>EOF\<close> and \<open>UnexpectedEOF\<close> are those of package \<open>io\<close>;
  \<open>CipError\<close> is the struct \<open>cip.Error\<close> (status, extended status); \<open>Errorf\<close> is an error made by
  \<open>fmt.Errorf\<close> or \<open>errors.New\<close> from a format and numeric arguments; \<open>Wrapf\<close> is \<open>fmt.Errorf\<close> with a
  wrapped error (\<open>%w\<close>); \<open>NetError\<close> is any error of package \<open>net\<close>.
\<close>

datatype go_error =
    EOF
  | UnexpectedEOF
  | CipError u8 "u16 list"
  | Errorf string "nat list"
  | Wrapf string go_error
  | NetError string

text \<open>A Go function that may panic returns a value or the panic.\<close>

datatype 'a go = Return 'a | Panic string

named_theorems go_defs \<open>definitions of the reader combinators and the integer formats\<close>
named_theorems codec_simps \<open>reading back what was written\<close>

section \<open>Little-endian integers\<close>

text \<open>\<open>binary.LittleEndian.PutUint16\<close>, \<open>PutUint32\<close>, \<open>PutUint64\<close>: the bytes written.\<close>

definition le8 :: "u8 \<Rightarrow> bytes" where
  "le8 w = [w]"

definition le16 :: "u16 \<Rightarrow> bytes" where
  "le16 w = [ucast w, ucast (drop_bit 8 w)]"

definition le32 :: "u32 \<Rightarrow> bytes" where
  "le32 w = [ucast w, ucast (drop_bit 8 w), ucast (drop_bit 16 w), ucast (drop_bit 24 w)]"

definition le64 :: "u64 \<Rightarrow> bytes" where
  "le64 w = [ucast w, ucast (drop_bit 8 w), ucast (drop_bit 16 w), ucast (drop_bit 24 w),
             ucast (drop_bit 32 w), ucast (drop_bit 40 w), ucast (drop_bit 48 w),
             ucast (drop_bit 56 w)]"

text \<open>\<open>binary.LittleEndian.Uint16\<close>, \<open>Uint32\<close>, \<open>Uint64\<close> of the first bytes of a slice.\<close>

fun get_u16 :: "bytes \<Rightarrow> u16" where
  "get_u16 (a # b # _) = ucast a OR push_bit 8 (ucast b)"
| "get_u16 _ = 0"

fun get_u32 :: "bytes \<Rightarrow> u32" where
  "get_u32 (a # b # c # d # _) =
     ucast a OR push_bit 8 (ucast b) OR push_bit 16 (ucast c) OR push_bit 24 (ucast d)"
| "get_u32 _ = 0"

fun get_u64 :: "bytes \<Rightarrow> u64" where
  "get_u64 (a # b # c # d # e # f # g # h # _) =
     ucast a OR push_bit 8 (ucast b) OR push_bit 16 (ucast c) OR push_bit 24 (ucast d) OR
     push_bit 32 (ucast e) OR push_bit 40 (ucast f) OR push_bit 48 (ucast g) OR
     push_bit 56 (ucast h)"
| "get_u64 _ = 0"

lemma length_le [simp]:
  "length (le8 a) = 1" "length (le16 b) = 2" "length (le32 c) = 4" "length (le64 d) = 8"
  by (simp_all add: le8_def le16_def le32_def le64_def)

lemma le_not_Nil [simp]:
  "le8 a \<noteq> []" "le16 b \<noteq> []" "le32 c \<noteq> []" "le64 d \<noteq> []"
  by (simp_all add: le8_def le16_def le32_def le64_def)

lemma byte_at:
  "bit (push_bit k (ucast (ucast (drop_bit k w) :: 8 word)) :: 'a::len word) n
   \<longleftrightarrow> n < LENGTH('a) \<and> k \<le> n \<and> n < k + 8 \<and> bit (w :: 'a word) n"
  by (auto simp: bit_simps dest: bit_imp_le_length)

lemma byte_at_0:
  "bit (ucast (ucast w :: 8 word) :: 'a::len word) n
   \<longleftrightarrow> n < LENGTH('a) \<and> n < 8 \<and> bit (w :: 'a word) n"
  by (auto simp: bit_simps)

lemma get_u16_le16 [simp]: "get_u16 (le16 w @ r) = w"
  by (simp add: le16_def) (rule bit_word_eqI, auto simp: bit_or_iff byte_at byte_at_0)

lemma get_u32_le32 [simp]: "get_u32 (le32 w @ r) = w"
  by (simp add: le32_def) (rule bit_word_eqI, auto simp: bit_or_iff byte_at byte_at_0)

lemma get_u64_le64 [simp]: "get_u64 (le64 w @ r) = w"
  by (simp add: le64_def) (rule bit_word_eqI, auto simp: bit_or_iff byte_at byte_at_0)

lemma get_le_exact [simp]:
  "get_u16 (le16 a) = a" "get_u32 (le32 b) = b" "get_u64 (le64 c) = c"
  using get_u16_le16 [of a "[]"] get_u32_le32 [of b "[]"] get_u64_le64 [of c "[]"] by simp_all

text \<open>In the other direction, the two bytes of a 16-bit value are recovered.\<close>

lemma no_high_bit [simp]: "\<not> bit (a :: byte) (8 + n)"
  using bit_imp_le_length [of a "8 + n"] by auto

lemma le16_get_u16: "le16 (get_u16 [a, b]) = [a, b]"
  by (auto simp: le16_def bit_simps intro!: bit_word_eqI)

lemma le16_join [simp]: "le16 (ucast a OR push_bit 8 (ucast b)) = [a, b]"
  using le16_get_u16 [of a b] by simp

section \<open>Readers\<close>

text \<open>
  A reader consumes a prefix of the unread bytes of a \<open>bytes.Reader\<close> or a connection, or fails.
  Sequencing stops at the first error, as \<open>if err != nil { return nil, err }\<close> does.
\<close>

type_synonym 'a reader = "bytes \<Rightarrow> go_error + ('a \<times> bytes)"

definition rd_return :: "'a \<Rightarrow> 'a reader" where
  "rd_return x bs = Inr (x, bs)"

definition rd_fail :: "go_error \<Rightarrow> 'a reader" where
  "rd_fail e bs = Inl e"

definition rd_bind :: "'a reader \<Rightarrow> ('a \<Rightarrow> 'b reader) \<Rightarrow> 'b reader" where
  "rd_bind m f bs = (case m bs of Inl e \<Rightarrow> Inl e | Inr (x, r) \<Rightarrow> f x r)"

text \<open>\<open>io.ReadFull\<close> into a buffer of length n.\<close>

definition read_full :: "nat \<Rightarrow> bytes reader" where
  "read_full n bs =
     (if n \<le> length bs then Inr (take n bs, drop n bs)
      else if bs = [] then Inl EOF else Inl UnexpectedEOF)"

text \<open>
  \<open>bytes.Reader.Read\<close> into a zeroed buffer of length n: at the end of the data it fails with EOF,
  even for n = 0; otherwise it copies what there is and never reports a short read, so the rest
  of the buffer keeps its zeros.
\<close>

definition read_some :: "nat \<Rightarrow> bytes reader" where
  "read_some n bs =
     (if bs = [] then Inl EOF
      else Inr (take n bs @ replicate (n - length bs) 0, drop n bs))"

text \<open>\<open>binary.Read\<close> in little-endian order of the unsigned integers.\<close>

definition read_u8 :: "u8 reader" where
  "read_u8 = rd_bind (read_full 1) (\<lambda>b. rd_return (hd b))"

definition read_u16 :: "u16 reader" where
  "read_u16 = rd_bind (read_full 2) (\<lambda>b. rd_return (get_u16 b))"

definition read_u32 :: "u32 reader" where
  "read_u32 = rd_bind (read_full 4) (\<lambda>b. rd_return (get_u32 b))"

definition read_u64 :: "u64 reader" where
  "read_u64 = rd_bind (read_full 8) (\<lambda>b. rd_return (get_u64 b))"

text \<open>A counted loop: \<open>for i := 0; i < n; i++\<close> around one read whose results are appended.\<close>

fun read_many :: "nat \<Rightarrow> 'a reader \<Rightarrow> 'a list reader" where
  "read_many 0 m = rd_return []"
| "read_many (Suc n) m = rd_bind m (\<lambda>x. rd_bind (read_many n m) (\<lambda>xs. rd_return (x # xs)))"

declare rd_return_def [go_defs] rd_fail_def [go_defs] rd_bind_def [go_defs]
  read_u8_def [go_defs] read_u16_def [go_defs] read_u32_def [go_defs] read_u64_def [go_defs]
  read_full_def [go_defs]

text \<open>The value of a reader, dropping what is left unread.\<close>

definition rd_value :: "go_error + ('a \<times> bytes) \<Rightarrow> go_error + 'a" where
  "rd_value r = (case r of Inl e \<Rightarrow> Inl e | Inr (x, _) \<Rightarrow> Inr x)"

lemma rd_value_simps [simp]:
  "rd_value (Inl e) = Inl e" "rd_value (Inr (x, r)) = Inr x"
  by (simp_all add: rd_value_def)

lemma rd_bind_Inr: "m bs = Inr (x, r) \<Longrightarrow> rd_bind m f bs = f x r"
  by (simp add: rd_bind_def)

lemma rd_bind_Inl: "m bs = Inl e \<Longrightarrow> rd_bind m f bs = Inl e"
  by (simp add: rd_bind_def)

lemma rd_bind_InrE:
  assumes "rd_bind m f bs = Inr (y, s)"
  obtains x r where "m bs = Inr (x, r)" and "f x r = Inr (y, s)"
  using assms by (auto simp: rd_bind_def split: sum.splits prod.splits)

lemma rd_return_apply [simp]: "rd_return x bs = Inr (x, bs)"
  by (simp add: rd_return_def)

lemma read_full_append [codec_simps]: "length a = n \<Longrightarrow> read_full n (a @ r) = Inr (a, r)"
  by (simp add: read_full_def)

lemma read_full_0 [simp]: "read_full 0 bs = Inr ([], bs)"
  by (simp add: read_full_def)

lemma read_full_Nil [simp]: "0 < n \<Longrightarrow> read_full n [] = Inl EOF"
  by (simp add: read_full_def)

lemma read_full_InrD: "read_full n bs = Inr (x, r) \<Longrightarrow> bs = x @ r \<and> length x = n"
  by (auto simp: read_full_def split: if_splits)

lemma read_full_short:
  "length bs < n \<Longrightarrow> read_full n bs = Inl (if bs = [] then EOF else UnexpectedEOF)"
  by (simp add: read_full_def)

lemma read_some_full: "bs \<noteq> [] \<Longrightarrow> n \<le> length bs \<Longrightarrow> read_some n bs = Inr (take n bs, drop n bs)"
  by (simp add: read_some_def)

lemma read_some_length: "read_some n bs = Inr (x, r) \<Longrightarrow> length x = n"
  by (auto simp: read_some_def split: if_splits)

lemma read_int_append [codec_simps]:
  "read_u8 (le8 a @ r) = Inr (a, r)"
  "read_u16 (le16 b @ r) = Inr (b, r)"
  "read_u32 (le32 c @ r) = Inr (c, r)"
  "read_u64 (le64 d @ r) = Inr (d, r)"
  by (simp_all add: read_u8_def read_u16_def read_u32_def read_u64_def rd_bind_def
      read_full_append) (simp add: le8_def)

lemma read_u8_Cons [codec_simps]: "read_u8 (a # r) = Inr (a, r)"
  using read_int_append(1) [of a r] by (simp add: le8_def)

lemma read_int_exact [codec_simps]:
  "read_u8 (le8 a) = Inr (a, [])" "read_u16 (le16 b) = Inr (b, [])"
  "read_u32 (le32 c) = Inr (c, [])" "read_u64 (le64 d) = Inr (d, [])"
  using read_int_append(1) [of a "[]"] read_int_append(2) [of b "[]"]
    read_int_append(3) [of c "[]"] read_int_append(4) [of d "[]"] by simp_all

lemma read_int_short:
  "length bs < 1 \<Longrightarrow> read_u8 bs = Inl (if bs = [] then EOF else UnexpectedEOF)"
  "length bs < 2 \<Longrightarrow> read_u16 bs = Inl (if bs = [] then EOF else UnexpectedEOF)"
  "length bs < 4 \<Longrightarrow> read_u32 bs = Inl (if bs = [] then EOF else UnexpectedEOF)"
  "length bs < 8 \<Longrightarrow> read_u64 bs = Inl (if bs = [] then EOF else UnexpectedEOF)"
  unfolding read_u8_def read_u16_def read_u32_def read_u64_def
  by (rule rd_bind_Inl, erule read_full_short)+

lemma read_int_Nil [simp]:
  "read_u8 [] = Inl EOF" "read_u16 [] = Inl EOF" "read_u32 [] = Inl EOF" "read_u64 [] = Inl EOF"
  by (simp_all add: read_int_short)

text \<open>The errors of the readers: the end of the data, before or within a field.\<close>

lemma reader_errors:
  "read_u8 bs = Inl e \<Longrightarrow> e \<in> {EOF, UnexpectedEOF}"
  "read_u16 bs = Inl e \<Longrightarrow> e \<in> {EOF, UnexpectedEOF}"
  "read_u32 bs = Inl e \<Longrightarrow> e \<in> {EOF, UnexpectedEOF}"
  "read_full n bs = Inl e \<Longrightarrow> e \<in> {EOF, UnexpectedEOF}"
  "read_some n bs = Inl e \<Longrightarrow> e \<in> {EOF, UnexpectedEOF}"
  by (auto simp: go_defs read_some_def split: if_splits)

definition io_error :: "go_error + 'a \<Rightarrow> bool" where
  "io_error r \<longleftrightarrow> (case r of Inl e \<Rightarrow> e \<in> {EOF, UnexpectedEOF} | Inr _ \<Rightarrow> True)"

lemma io_error_bind:
  assumes "io_error (m bs)" and "\<And>x r. io_error (f x r)"
  shows "io_error (rd_bind m f bs)"
proof (cases "m bs")
  case (Inl e)
  then show ?thesis using assms(1) by (simp add: io_error_def rd_bind_def)
next
  case (Inr q)
  obtain x r where "q = (x, r)" by (cases q)
  then show ?thesis using Inr assms(2) by (simp add: rd_bind_Inr)
qed

lemma io_error_basic:
  "io_error (read_u8 bs)" "io_error (read_u16 bs)" "io_error (read_u32 bs)"
  "io_error (read_full n bs)" "io_error (read_some n bs)" "io_error (rd_return x bs)"
  unfolding io_error_def
  by (auto split: sum.split dest!: reader_errors)

section \<open>The interface of a wire format\<close>

text \<open>
  A wire format is a writer \<open>enc\<close> and a reader \<open>dec\<close> of the values that satisfy \<open>wf\<close>.  Its law is
  that the reader recovers the value and stops exactly behind it, whatever follows.
\<close>

locale codec =
  fixes enc :: "'a \<Rightarrow> bytes"
    and dec :: "'a reader"
    and wf :: "'a \<Rightarrow> bool"
  assumes dec_enc: "wf x \<Longrightarrow> dec (enc x @ r) = Inr (x, r)"
begin

lemma dec_exact: "wf x \<Longrightarrow> dec (enc x) = Inr (x, [])"
  using dec_enc [of x "[]"] by simp

lemma self_delimiting:
  assumes "wf x" "wf y" and eq: "enc x @ r = enc y @ s"
  shows "x = y \<and> r = s"
proof -
  have "dec (enc x @ r) = Inr (x, r)"
    by (rule dec_enc [OF assms(1)])
  moreover have "dec (enc x @ r) = Inr (y, s)"
    unfolding eq by (rule dec_enc [OF assms(2)])
  ultimately show ?thesis by simp
qed

lemma enc_inj: "wf x \<Longrightarrow> wf y \<Longrightarrow> enc x = enc y \<Longrightarrow> x = y"
  using self_delimiting [of x y "[]" "[]"] by simp

lemma read_many_enc:
  "list_all wf xs \<Longrightarrow> read_many (length xs) dec (concat (map enc xs) @ r) = Inr (xs, r)"
  by (induction xs) (simp_all add: rd_bind_def dec_enc)

end

text \<open>A format of fixed width: a reader on fewer bytes fails, and it says how.\<close>

locale fixed_codec = codec +
  fixes width :: nat
  assumes enc_length: "wf x \<Longrightarrow> length (enc x) = width"
    and dec_short: "length bs < width \<Longrightarrow> dec bs = Inl (if bs = [] then EOF else UnexpectedEOF)"
begin

lemma concat_length: "list_all wf xs \<Longrightarrow> length (concat (map enc xs)) = width * length xs"
  by (induction xs) (simp_all add: enc_length)

lemma read_many_short:
  "length bs < width * n \<Longrightarrow> (\<And>b x r. dec b = Inr (x, r) \<Longrightarrow> length b = width + length r)
   \<Longrightarrow> \<exists>e. read_many n dec bs = Inl e"
proof (induction n arbitrary: bs)
  case 0
  then show ?case by simp
next
  case (Suc n)
  show ?case
  proof (cases "dec bs")
    case (Inl e)
    then show ?thesis by (simp add: rd_bind_Inl)
  next
    case (Inr p)
    obtain x r where p: "dec bs = Inr (x, r)" using Inr by (cases p) simp
    then have "length r < width * n" using Suc.prems by fastforce
    then obtain e where "read_many n dec r = Inl e" using Suc by blast
    then show ?thesis using p by (simp add: rd_bind_def)
  qed
qed

end

interpretation u8_fmt: fixed_codec le8 read_u8 "\<lambda>_. True" 1
  by unfold_locales (rule read_int_append read_int_short length_le, assumption?)+

interpretation u16_fmt: fixed_codec le16 read_u16 "\<lambda>_. True" 2
  by unfold_locales (rule read_int_append read_int_short length_le, assumption?)+

interpretation u32_fmt: fixed_codec le32 read_u32 "\<lambda>_. True" 4
  by unfold_locales (rule read_int_append read_int_short length_le, assumption?)+

interpretation u64_fmt: fixed_codec le64 read_u64 "\<lambda>_. True" 8
  by unfold_locales (rule read_int_append read_int_short length_le, assumption?)+

text \<open>
  A format that is also exact: the reader accepts only what the writer produces.  Then no proper
  prefix of an encoding is accepted, so a truncated message is always an error.
\<close>

locale exact_codec = codec +
  assumes dec_sound: "dec bs = Inr (x, r) \<Longrightarrow> wf x \<and> bs = enc x @ r"
begin

lemma prefix_fails:
  assumes wf: "wf x" and k: "k < length (enc x)"
  shows "\<exists>e. dec (take k (enc x)) = Inl e"
proof (cases "dec (take k (enc x))")
  case (Inr p)
  obtain y r where "dec (take k (enc x)) = Inr (y, r)" using Inr by (cases p) simp
  then have y: "wf y" and eq: "take k (enc x) = enc y @ r" by (auto dest: dec_sound)
  have "enc x @ [] = take k (enc x) @ drop k (enc x)" by simp
  then have "enc x @ [] = enc y @ (r @ drop k (enc x))" by (simp only: eq append_assoc)
  then have "[] = r @ drop k (enc x)" using self_delimiting [OF wf y] by blast
  then show ?thesis using k by simp
qed simp

lemma read_many_sound:
  "read_many n dec bs = Inr (xs, r) \<Longrightarrow>
     length xs = n \<and> list_all wf xs \<and> bs = concat (map enc xs) @ r"
proof (induction n arbitrary: bs xs)
  case 0
  then show ?case by simp
next
  case (Suc n)
  then obtain x s where x: "dec bs = Inr (x, s)"
    and s: "rd_bind (read_many n dec) (\<lambda>xs. rd_return (x # xs)) s = Inr (xs, r)"
    by (auto elim: rd_bind_InrE)
  from s obtain ys where "read_many n dec s = Inr (ys, r)" and "xs = x # ys"
    by (auto elim: rd_bind_InrE)
  with Suc.IH dec_sound [OF x] show ?case by simp
qed

end

lemma u8_exact: "read_u8 bs = Inr (x, r) \<Longrightarrow> bs = le8 x @ r"
  by (cases bs) (auto simp: codec_simps le8_def)

lemma u16_exact: "read_u16 bs = Inr (x, r) \<Longrightarrow> bs = le16 x @ r"
  by (auto simp: read_u16_def length_Suc_conv numeral_2_eq_2
      elim!: rd_bind_InrE dest!: read_full_InrD)

interpretation u8_exact: exact_codec le8 read_u8 "\<lambda>_. True"
  by unfold_locales (auto dest: u8_exact)

interpretation u16_exact: exact_codec le16 read_u16 "\<lambda>_. True"
  by unfold_locales (auto dest: u16_exact)

section \<open>Slices with a capacity\<close>

text \<open>
  The slice expression \<open>s[lo:hi]\<close> of Go checks its bounds against the capacity of \<open>s\<close>, not its
  length: bytes of the underlying array beyond the length can be reached.  A slice is given
  here by the bytes of its array up to its capacity.
\<close>

definition go_slice :: "bytes \<Rightarrow> nat \<Rightarrow> nat \<Rightarrow> bytes go" where
  "go_slice arr lo hi =
     (if lo \<le> hi \<and> hi \<le> length arr then Return (take (hi - lo) (drop lo arr))
      else Panic ''slice bounds out of range'')"

definition go_bind :: "'a go \<Rightarrow> ('a \<Rightarrow> 'b go) \<Rightarrow> 'b go" where
  "go_bind m f = (case m of Panic s \<Rightarrow> Panic s | Return x \<Rightarrow> f x)"

lemma go_bind_simps [simp]:
  "go_bind (Return x) f = f x" "go_bind (Panic s) f = Panic s"
  by (simp_all add: go_bind_def)

lemma go_slice_ok [simp]:
  "lo \<le> hi \<Longrightarrow> hi \<le> length arr \<Longrightarrow> go_slice arr lo hi = Return (take (hi - lo) (drop lo arr))"
  by (simp add: go_slice_def)

section \<open>Lengths as machine integers\<close>

text \<open>\<open>uint16(len(x))\<close> and \<open>byte(n)\<close> keep the low bits of a length.\<close>

lemma unat_of_nat_u16 [simp]: "n < 65536 \<Longrightarrow> unat (word_of_nat n :: u16) = n"
  by (simp add: unat_of_nat)

lemma unat_of_nat_u8 [simp]: "n < 256 \<Longrightarrow> unat (word_of_nat n :: u8) = n"
  by (simp add: unat_of_nat)

lemma unat_u16_less: "unat (w :: u16) < 65536"
  using unsigned_less [of w] by simp

lemma unat_u8_less: "unat (w :: u8) < 256"
  using unsigned_less [of w] by simp

lemma of_nat_u16_eq_0: "n < 65536 \<Longrightarrow> (word_of_nat n :: u16) = 0 \<longleftrightarrow> n = 0"
  by (simp add: unat_eq_zero [symmetric])

section \<open>Hexadecimal output\<close>

text \<open>\<open>fmt.Sprintf\<close> with the verb \<open>%04X\<close> of a 16-bit value: four upper-case hexadecimal digits.\<close>

definition hex_digit :: "nat \<Rightarrow> char" where
  "hex_digit d = ''0123456789ABCDEF'' ! d"

definition hex4 :: "u16 \<Rightarrow> string" where
  "hex4 w = map (\<lambda>k. hex_digit (unat (drop_bit k w) mod 16)) [12, 8, 4, 0]"

text \<open>The verbs \<open>%02X\<close> of a byte and \<open>%X\<close> of a byte slice.\<close>

definition hex2 :: "byte \<Rightarrow> string" where
  "hex2 b = [hex_digit (unat b div 16), hex_digit (unat b mod 16)]"

end
