(* ===== verification/Net_Conn.thy ===== *)
theory Net_Conn
  imports Go_Prelude
begin

text \<open>
  The TCP connection of package \<open>net\<close> as the code uses it: reading a number of bytes in full,
  writing, closing.  A connection holds the bytes that its peer will have sent by the time it
  closes its side, the bytes written so far, and how many more can be written before the
  connection breaks (none when it never breaks).  A write that breaks the connection has sent
  what there was room for.
\<close>

record tcp_conn =
  tc_in :: bytes
  tc_out :: bytes
  tc_room :: "nat option"
  tc_closed :: bool

definition conn_read_full :: "nat \<Rightarrow> tcp_conn \<Rightarrow> (go_error + bytes) \<times> tcp_conn" where
  "conn_read_full n c =
     (case read_full n (tc_in c) of
        Inl e \<Rightarrow> (Inl e, c\<lparr>tc_in := []\<rparr>)
      | Inr (x, r) \<Rightarrow> (Inr x, c\<lparr>tc_in := r\<rparr>))"

definition conn_write :: "tcp_conn \<Rightarrow> bytes \<Rightarrow> go_error option \<times> tcp_conn" where
  "conn_write c b =
     (case tc_room c of
        None \<Rightarrow> (None, c\<lparr>tc_out := tc_out c @ b\<rparr>)
      | Some k \<Rightarrow>
          if length b \<le> k then (None, c\<lparr>tc_out := tc_out c @ b, tc_room := Some (k - length b)\<rparr>)
          else (Some (NetError ''write''), c\<lparr>tc_out := tc_out c @ take k b, tc_room := Some 0\<rparr>))"

definition conn_close :: "tcp_conn \<Rightarrow> tcp_conn" where
  "conn_close c = c\<lparr>tc_closed := True\<rparr>"

text \<open>
  The methods of the interface \<open>net.Conn\<close> that the client calls, over any state of the network
  (\<open>io.ReadFull\<close> stands for the calls of Read it makes).
\<close>

record 'c net_conn =
  nc_write :: "'c \<Rightarrow> bytes \<Rightarrow> go_error option \<times> 'c"
  nc_read_full :: "nat \<Rightarrow> 'c \<Rightarrow> (go_error + bytes) \<times> 'c"
  nc_close :: "'c \<Rightarrow> go_error option \<times> 'c"

lemma conn_read_full_cases:
  assumes "conn_read_full n c = (res, c')"
  obtains (short) e where "res = Inl e" "length (tc_in c) < n" "c' = c\<lparr>tc_in := []\<rparr>"
  | (full) x r where "res = Inr x" "tc_in c = x @ r" "length x = n" "c' = c\<lparr>tc_in := r\<rparr>"
proof (cases "n \<le> length (tc_in c)")
  case True
  then show thesis
    using assms full [of "take n (tc_in c)" "drop n (tc_in c)"]
    by (simp add: conn_read_full_def read_full_def)
next
  case False
  then show thesis
    using assms short by (auto simp: conn_read_full_def read_full_def split: if_splits)
qed

lemma conn_read_full_append [simp]:
  "length x = n \<Longrightarrow>
   conn_read_full n \<lparr>tc_in = x @ r, tc_out = out, tc_room = room, tc_closed = cl\<rparr> =
     (Inr x, \<lparr>tc_in = r, tc_out = out, tc_room = room, tc_closed = cl\<rparr>)"
  by (simp add: conn_read_full_def read_full_append)

lemma conn_read_full_Nil [simp]:
  "0 < n \<Longrightarrow> conn_read_full n \<lparr>tc_in = [], tc_out = out, tc_room = room, tc_closed = cl\<rparr> =
     (Inl EOF, \<lparr>tc_in = [], tc_out = out, tc_room = room, tc_closed = cl\<rparr>)"
  by (simp add: conn_read_full_def)

lemma conn_write_free [simp]:
  "conn_write \<lparr>tc_in = i, tc_out = out, tc_room = None, tc_closed = cl\<rparr> b =
     (None, \<lparr>tc_in = i, tc_out = out @ b, tc_room = None, tc_closed = cl\<rparr>)"
  by (simp add: conn_write_def)

lemma conn_write_in: "conn_write c b = (e, c') \<Longrightarrow> tc_in c' = tc_in c"
  by (auto simp: conn_write_def split: option.splits if_splits)

lemma conn_read_out:
  "conn_read_full n c = (res, c') \<Longrightarrow>
     tc_out c' = tc_out c \<and> tc_room c' = tc_room c \<and> tc_closed c' = tc_closed c"
  by (auto elim!: conn_read_full_cases)

lemma conn_read_length: "conn_read_full n c = (Inr x, c') \<Longrightarrow>
   length x = n \<and> length (tc_in c) = n + length (tc_in c')"
  by (auto elim!: conn_read_full_cases)

end
