(* ===== verification/Eip_Encap.thy ===== *)
theory Eip_Encap
  imports Go_Prelude
begin

text \<open>
  The EtherNet/IP encapsulation layer, \<open>pkg/eip/header.go\<close> and \<open>pkg/eip/commands.go\<close>: the
  24-byte header in front of every TCP message, the command and status codes, and the data of
  the RegisterSession command.
\<close>

section \<open>Commands and status codes\<close>

definition CommandNop :: u16 where [simp]: "CommandNop = 0x0000"
definition CommandListServices :: u16 where [simp]: "CommandListServices = 0x0004"
definition CommandListIdentity :: u16 where [simp]: "CommandListIdentity = 0x0063"
definition CommandListInterfaces :: u16 where [simp]: "CommandListInterfaces = 0x0064"
definition CommandRegisterSession :: u16 where [simp]: "CommandRegisterSession = 0x0065"
definition CommandUnregisterSession :: u16 where [simp]: "CommandUnregisterSession = 0x0066"
definition CommandSendRRData :: u16 where [simp]: "CommandSendRRData = 0x006F"
definition CommandSendUnitData :: u16 where [simp]: "CommandSendUnitData = 0x0070"
definition CommandIndicateStatus :: u16 where [simp]: "CommandIndicateStatus = 0x0072"
definition CommandCancel :: u16 where [simp]: "CommandCancel = 0x0073"

definition EipStatusSuccess :: u32 where [simp]: "EipStatusSuccess = 0"

definition command_string :: "u16 \<Rightarrow> string" where
  "command_string c =
     (if c = CommandNop then ''Nop''
      else if c = CommandListServices then ''ListServices''
      else if c = CommandListIdentity then ''ListIdentity''
      else if c = CommandListInterfaces then ''ListInterfaces''
      else if c = CommandRegisterSession then ''RegisterSession''
      else if c = CommandUnregisterSession then ''UnregisterSession''
      else if c = CommandSendRRData then ''SendRRData''
      else if c = CommandSendUnitData then ''SendUnitData''
      else if c = CommandIndicateStatus then ''IndicateStatus''
      else if c = CommandCancel then ''Cancel''
      else ''UnknownCommand(0x'' @ hex4 c @ '')'')"

section \<open>The header\<close>

definition HeaderSize :: nat where [simp]: "HeaderSize = 24"

record encap_header =
  eh_command :: u16
  eh_length :: u16
  eh_session :: u32
  eh_status :: u32
  eh_context :: bytes
  eh_options :: u32

text \<open>The field \<open>SenderContext\<close> is an array of eight bytes.\<close>

definition wf_header :: "encap_header \<Rightarrow> bool" where
  "wf_header h \<longleftrightarrow> length (eh_context h) = 8"

text \<open>\<open>Encode\<close> and \<open>Bytes\<close>: \<open>binary.Write\<close> of the struct, field by field.\<close>

definition header_encode :: "encap_header \<Rightarrow> bytes" where
  "header_encode h =
     le16 (eh_command h) @ le16 (eh_length h) @ le32 (eh_session h) @ le32 (eh_status h) @
     eh_context h @ le32 (eh_options h)"

text \<open>
  \<open>Decode\<close>: \<open>binary.Read\<close> of a struct reads its 24 bytes in one go and then sets the fields.
\<close>

definition header_decode :: "encap_header reader" where
  "header_decode =
     rd_bind (read_full HeaderSize) (\<lambda>b. rd_return
       \<lparr>eh_command = get_u16 b,
        eh_length = get_u16 (drop 2 b),
        eh_session = get_u32 (drop 4 b),
        eh_status = get_u32 (drop 8 b),
        eh_context = take 8 (drop 12 b),
        eh_options = get_u32 (drop 20 b)\<rparr>)"

section \<open>RegisterSession\<close>

record register_session_data =
  rs_protocol_version :: u16
  rs_options_flags :: u16

definition new_register_session_data :: register_session_data where
  "new_register_session_data = \<lparr>rs_protocol_version = 1, rs_options_flags = 0\<rparr>"

definition register_session_encode :: "register_session_data \<Rightarrow> bytes" where
  "register_session_encode d = le16 (rs_protocol_version d) @ le16 (rs_options_flags d)"

section \<open>The header is a fixed-width format\<close>

lemma header_encode_length [simp]: "wf_header h \<Longrightarrow> length (header_encode h) = 24"
  by (simp add: header_encode_def wf_header_def)

lemma take_drop_parts:
  "length a = n \<Longrightarrow> take n (a @ r) = a" "length a = n \<Longrightarrow> drop n (a @ r) = r"
  by simp_all

lemma header_fields:
  assumes "wf_header h"
  shows "get_u16 (header_encode h) = eh_command h"
    and "get_u16 (drop 2 (header_encode h)) = eh_length h"
    and "get_u32 (drop 4 (header_encode h)) = eh_session h"
    and "get_u32 (drop 8 (header_encode h)) = eh_status h"
    and "take 8 (drop 12 (header_encode h)) = eh_context h"
    and "get_u32 (drop 20 (header_encode h)) = eh_options h"
  using assms by (simp_all add: header_encode_def wf_header_def)

lemma header_decode_encode:
  assumes "wf_header h"
  shows "header_decode (header_encode h @ r) = Inr (h, r)"
proof -
  have "read_full HeaderSize (header_encode h @ r) = Inr (header_encode h, r)"
    by (rule read_full_append) (simp add: assms)
  then show ?thesis
    by (simp add: header_decode_def rd_bind_def header_fields [OF assms])
qed

lemma header_decode_short:
  "length bs < 24 \<Longrightarrow> header_decode bs = Inl (if bs = [] then EOF else UnexpectedEOF)"
  unfolding header_decode_def by (rule rd_bind_Inl, rule read_full_short) simp

interpretation header_fmt: fixed_codec header_encode header_decode wf_header 24
  by unfold_locales (auto simp: header_decode_encode header_decode_short)

lemma header_decode_Nil [simp]: "header_decode [] = Inl EOF"
  by (simp add: header_decode_short)

lemma header_decode_wf: "header_decode bs = Inr (h, r) \<Longrightarrow> wf_header h \<and> length bs = 24 + length r"
  by (auto simp: header_decode_def wf_header_def elim!: rd_bind_InrE dest!: read_full_InrD)

end
