(* ===== verification/Transport.thy ===== *)
theory Transport
  imports Net_Conn Eip_Encap
begin

text \<open>
  The transport of the client, \<open>pkg/transport/tcp.go\<close>: the interface \<open>Transport\<close> as a record of
  its methods over the state of the network, its implementation over a connection, and the
  address that is dialled.  The contract between a client and its peer is the locale
  \<open>request_reply\<close>.
\<close>

record 't transport =
  tr_send :: "'t \<Rightarrow> u16 \<Rightarrow> bytes \<Rightarrow> u32 \<Rightarrow> go_error option \<times> 't"
  tr_receive :: "'t \<Rightarrow> (go_error + encap_header \<times> bytes) \<times> 't"
  tr_close :: "'t \<Rightarrow> go_error option \<times> 't"

text \<open>An address without a colon is given the default port.\<close>

definition dial_address :: "string \<Rightarrow> string" where
  "dial_address address =
     (if CHR '':'' \<in> set address then address else address @ '':44818'')"

definition new_tcp_transport :: "(string \<Rightarrow> go_error + 'c) \<Rightarrow> string \<Rightarrow> go_error + 'c" where
  "new_tcp_transport dial address = dial (dial_address address)"

definition request_header :: "u16 \<Rightarrow> bytes \<Rightarrow> u32 \<Rightarrow> encap_header" where
  "request_header cmd data sessionHandle =
     \<lparr>eh_command = cmd, eh_length = word_of_nat (length data), eh_session = sessionHandle,
      eh_status = 0, eh_context = replicate 8 0, eh_options = 0\<rparr>"

definition tcp_send :: "'c net_conn \<Rightarrow> 'c \<Rightarrow> u16 \<Rightarrow> bytes \<Rightarrow> u32 \<Rightarrow> go_error option \<times> 'c" where
  "tcp_send nc c cmd data sessionHandle =
     (case nc_write nc c (header_encode (request_header cmd data sessionHandle)) of
        (Some e, c1) \<Rightarrow> (Some (Wrapf ''failed to write header'' e), c1)
      | (None, c1) \<Rightarrow>
          if length data > 0 then
            (case nc_write nc c1 data of
               (Some e, c2) \<Rightarrow> (Some (Wrapf ''failed to write data'' e), c2)
             | (None, c2) \<Rightarrow> (None, c2))
          else (None, c1))"

text \<open>\<open>header.Decode\<close> reads its 24 bytes from the connection and decodes them.\<close>

definition tcp_receive :: "'c net_conn \<Rightarrow> 'c \<Rightarrow> (go_error + encap_header \<times> bytes) \<times> 'c" where
  "tcp_receive nc c =
     (case nc_read_full nc HeaderSize c of
        (Inl e, c1) \<Rightarrow> (Inl (Wrapf ''failed to read header'' e), c1)
      | (Inr b, c1) \<Rightarrow>
          (case header_decode b of
             Inl e \<Rightarrow> (Inl (Wrapf ''failed to read header'' e), c1)
           | Inr (header, _) \<Rightarrow>
               if eh_length header > 0 then
                 (case nc_read_full nc (unat (eh_length header)) c1 of
                    (Inl e, c2) \<Rightarrow> (Inl (Wrapf ''failed to read data'' e), c2)
                  | (Inr data, c2) \<Rightarrow> (Inr (header, data), c2))
               else (Inr (header, []), c1)))"

definition tcp_close :: "'c net_conn \<Rightarrow> 'c \<Rightarrow> go_error option \<times> 'c" where
  "tcp_close nc c = nc_close nc c"

definition tcp_transport :: "'c net_conn \<Rightarrow> 'c transport" where
  "tcp_transport nc = \<lparr>tr_send = tcp_send nc, tr_receive = tcp_receive nc, tr_close = tcp_close nc\<rparr>"

lemma wf_request_header [simp]: "wf_header (request_header cmd d s)"
  by (simp add: wf_header_def request_header_def)

section \<open>The contract of client and peer\<close>

text \<open>
  The peer is a machine that answers one packet with one packet.  The contract: when client and
  peer are in step, a packet that was sent without error is followed by the peer's answer to it,
  and they are in step again.
\<close>

locale request_reply =
  fixes tr :: "'t transport"
    and answer :: "'s \<Rightarrow> encap_header \<times> bytes \<Rightarrow> (encap_header \<times> bytes) \<times> 's"
    and in_step :: "'t \<Rightarrow> 's \<Rightarrow> bool"
    and allowed :: "u16 \<Rightarrow> bool"
  assumes exchange: "in_step t s \<Longrightarrow> allowed cmd \<Longrightarrow> length d \<le> 4096 \<Longrightarrow>
    answer s (request_header cmd d handle, d) = ((hdr, d'), s') \<Longrightarrow> length d' < 65536 \<Longrightarrow>
    \<exists>t1 t2. tr_send tr t cmd d handle = (None, t1) \<and> tr_receive tr t1 = (Inr (hdr, d'), t2) \<and>
            in_step t2 s'"

section \<open>Sending and receiving over a plain connection\<close>

text \<open>The methods of \<open>tcp_conn\<close>.\<close>

definition plain_conn :: "tcp_conn net_conn" where
  "plain_conn = \<lparr>nc_write = conn_write, nc_read_full = conn_read_full,
                 nc_close = (\<lambda>c. (None, conn_close c))\<rparr>"

lemma tcp_send_plain:
  "tcp_send plain_conn \<lparr>tc_in = i, tc_out = out, tc_room = None, tc_closed = cl\<rparr> cmd d s =
     (None, \<lparr>tc_in = i, tc_out = out @ header_encode (request_header cmd d s) @ d, tc_room = None,
             tc_closed = cl\<rparr>)"
  by (simp add: tcp_send_def plain_conn_def)

lemma header_decode_exact: "wf_header h \<Longrightarrow> header_decode (header_encode h) = Inr (h, [])"
  using header_decode_encode [of h "[]"] by simp

lemma tcp_receive_plain:
  assumes "wf_header hdr" and "unat (eh_length hdr) = length d"
  shows "tcp_receive plain_conn
      \<lparr>tc_in = header_encode hdr @ d @ r, tc_out = out, tc_room = room, tc_closed = cl\<rparr> =
    (Inr (hdr, d), \<lparr>tc_in = r, tc_out = out, tc_room = room, tc_closed = cl\<rparr>)"
  using assms
  by (auto simp: tcp_receive_def plain_conn_def header_decode_exact word_gt_0)

section \<open>Properties\<close>

text \<open>
  C31: what one transport sends the transport at the other end receives: command, session handle
  and data of up to 65535 bytes, with nothing of the following bytes taken.
\<close>

theorem transport_roundtrip:
  assumes "length d < 65536"
    and "tcp_send plain_conn \<lparr>tc_in = [], tc_out = [], tc_room = None, tc_closed = False\<rparr>
           cmd d handle = (None, c)"
  shows "tcp_receive plain_conn
      \<lparr>tc_in = tc_out c @ rest, tc_out = [], tc_room = None, tc_closed = False\<rparr> =
    (Inr (\<lparr>eh_command = cmd, eh_length = word_of_nat (length d), eh_session = handle,
           eh_status = 0, eh_context = replicate 8 0, eh_options = 0\<rparr>, d),
     \<lparr>tc_in = rest, tc_out = [], tc_room = None, tc_closed = False\<rparr>)"
proof -
  have "tc_out c = header_encode (request_header cmd d handle) @ d"
    using assms(2) by (auto simp: tcp_send_plain)
  then show ?thesis
    using assms(1) tcp_receive_plain [of "request_header cmd d handle" d rest]
    by (simp add: request_header_def wf_header_def)
qed

theorem transport_roundtrip_witness:
  "\<exists>c. tcp_send plain_conn \<lparr>tc_in = [], tc_out = [], tc_room = None, tc_closed = False\<rparr>
         CommandSendRRData [1, 2, 3] 7 = (None, c) \<and>
       fst (tcp_receive plain_conn
         \<lparr>tc_in = tc_out c @ [9], tc_out = [], tc_room = None, tc_closed = False\<rparr>) =
       Inr (\<lparr>eh_command = CommandSendRRData, eh_length = 3, eh_session = 7, eh_status = 0,
             eh_context = replicate 8 0, eh_options = 0\<rparr>, [1, 2, 3])"
proof -
  obtain c where c: "tcp_send plain_conn
      \<lparr>tc_in = [], tc_out = [], tc_room = None, tc_closed = False\<rparr> CommandSendRRData [1, 2, 3] 7 =
      (None, c)" by (simp add: tcp_send_plain)
  have "length ([1, 2, 3] :: bytes) < 65536" by simp
  from transport_roundtrip [OF this c, of "[9]"] c show ?thesis by auto
qed

text \<open>
  A packet that ends early, within its header or its data, is an error of the receiver,
  which says where; the header is never returned without all of its data.
\<close>

theorem transport_truncated:
  assumes "wf_header hdr" and "unat (eh_length hdr) = length d"
    and "k < 24 + length d"
  shows "fst (tcp_receive plain_conn
      \<lparr>tc_in = take k (header_encode hdr @ d), tc_out = out, tc_room = room, tc_closed = cl\<rparr>) =
    Inl (if k < 24 then Wrapf ''failed to read header'' (if k = 0 then EOF else UnexpectedEOF)
         else Wrapf ''failed to read data'' (if k = 24 then EOF else UnexpectedEOF))"
proof (cases "k < 24")
  case True
  have ne: "header_encode hdr \<noteq> []" using header_encode_length [OF assms(1)] by auto
  show ?thesis
    using True assms(1) ne
    by (simp add: tcp_receive_def plain_conn_def conn_read_full_def read_full_def)
next
  case False
  have "take k (header_encode hdr @ d) = header_encode hdr @ take (k - 24) d"
    using False assms(1) by simp
  moreover have "d \<noteq> []" "eh_length hdr > 0"
    using False assms(2, 3) by (auto simp: word_gt_0)
  ultimately show ?thesis
    using False assms
    by (auto simp: tcp_receive_def plain_conn_def header_decode_exact conn_read_full_def
        read_full_def)
qed

theorem transport_truncated_witness:
  "fst (tcp_receive plain_conn
      \<lparr>tc_in = take 25 (header_encode (request_header 1 [5, 6] 7) @ [5, 6]), tc_out = [],
       tc_room = None, tc_closed = False\<rparr>) =
   Inl (Wrapf ''failed to read data'' UnexpectedEOF)"
  using transport_truncated [of "request_header 1 [5, 6] 7" "[5, 6]" 25 "[]" None False]
  by (simp add: wf_header_def request_header_def)

end
