(* ===== verification/Eip_Cpf.thy ===== *)
theory Eip_Cpf
  imports Go_Prelude
begin

text \<open>
  The Common Packet Format, \<open>pkg/eip/cpf.go\<close>: a counted list of typed items that carries every
  explicit message.  The items are an \<open>exact_codec\<close>, from which the properties of whole packets
  follow.
\<close>

definition ItemIDNullAddress :: u16 where [simp]: "ItemIDNullAddress = 0x0000"
definition ItemIDConnectedAddress :: u16 where [simp]: "ItemIDConnectedAddress = 0x00A1"
definition ItemIDConnectedData :: u16 where [simp]: "ItemIDConnectedData = 0x00B1"
definition ItemIDUnconnectedMessage :: u16 where [simp]: "ItemIDUnconnectedMessage = 0x00B2"

record cpf_item =
  ci_type :: u16
  ci_length :: u16
  ci_data :: bytes

definition new_cpf_item :: "u16 \<Rightarrow> bytes \<Rightarrow> cpf_item" where
  "new_cpf_item t d = \<lparr>ci_type = t, ci_length = word_of_nat (length d), ci_data = d\<rparr>"

definition cpf_item_encode :: "cpf_item \<Rightarrow> bytes" where
  "cpf_item_encode i =
     le16 (ci_type i) @ le16 (ci_length i) @ (if ci_length i > 0 then ci_data i else [])"

record cpf =
  cpf_count :: u16
  cpf_items :: "cpf_item list"

definition new_cpf :: "cpf_item list \<Rightarrow> cpf" where
  "new_cpf items = \<lparr>cpf_count = word_of_nat (length items), cpf_items = items\<rparr>"

definition cpf_encode :: "cpf \<Rightarrow> bytes" where
  "cpf_encode c = le16 (cpf_count c) @ concat (map cpf_item_encode (cpf_items c))"

text \<open>The body of the decoding loop.\<close>

definition cpf_item_decode :: "cpf_item reader" where
  "cpf_item_decode =
     rd_bind read_u16 (\<lambda>typeID.
     rd_bind read_u16 (\<lambda>len.
     rd_bind (read_full (unat len)) (\<lambda>itemData.
     rd_return \<lparr>ci_type = typeID, ci_length = len, ci_data = itemData\<rparr>)))"

definition cpf_read :: "cpf reader" where
  "cpf_read =
     rd_bind read_u16 (\<lambda>count.
     rd_bind (read_many (unat count) cpf_item_decode) (\<lambda>items.
     rd_return \<lparr>cpf_count = count, cpf_items = items\<rparr>))"

definition cpf_decode :: "bytes \<Rightarrow> go_error + cpf" where
  "cpf_decode data = rd_value (cpf_read data)"

definition find_item_by_type :: "cpf \<Rightarrow> u16 \<Rightarrow> cpf_item option" where
  "find_item_by_type c t = find (\<lambda>i. ci_type i = t) (cpf_items c)"

section \<open>Items\<close>

text \<open>An item whose length field says how long its data is.\<close>

definition wf_cpf_item :: "cpf_item \<Rightarrow> bool" where
  "wf_cpf_item i \<longleftrightarrow> unat (ci_length i) = length (ci_data i)"

lemma wf_new_cpf_item [simp]: "length d < 65536 \<Longrightarrow> wf_cpf_item (new_cpf_item t d)"
  by (simp add: wf_cpf_item_def new_cpf_item_def)

lemma new_cpf_item_sel [simp]:
  "ci_type (new_cpf_item t d) = t" "ci_data (new_cpf_item t d) = d"
  by (simp_all add: new_cpf_item_def)

lemma cpf_item_encode_wf:
  "wf_cpf_item i \<Longrightarrow> cpf_item_encode i = le16 (ci_type i) @ le16 (ci_length i) @ ci_data i"
  by (auto simp: cpf_item_encode_def wf_cpf_item_def word_gt_0)

lemma cpf_item_decode_bytes:
  "unat n = length d \<Longrightarrow> cpf_item_decode (le16 t @ le16 n @ d @ r) =
     Inr (\<lparr>ci_type = t, ci_length = n, ci_data = d\<rparr>, r)"
  by (simp add: cpf_item_decode_def rd_bind_def codec_simps)

lemma cpf_item_decode_sound:
  assumes "cpf_item_decode bs = Inr (i, r)"
  shows "wf_cpf_item i \<and> bs = cpf_item_encode i @ r"
proof -
  from assms have "wf_cpf_item i \<and> bs = le16 (ci_type i) @ le16 (ci_length i) @ ci_data i @ r"
    by (auto simp: cpf_item_decode_def wf_cpf_item_def
        elim!: rd_bind_InrE dest!: u16_exact read_full_InrD)
  then show ?thesis by (simp add: cpf_item_encode_wf)
qed

interpretation cpf_item_fmt: exact_codec cpf_item_encode cpf_item_decode wf_cpf_item
proof unfold_locales
  fix x r assume "wf_cpf_item x"
  then show "cpf_item_decode (cpf_item_encode x @ r) = Inr (x, r)"
    by (simp add: cpf_item_encode_wf cpf_item_decode_bytes wf_cpf_item_def)
qed (rule cpf_item_decode_sound)

section \<open>Packets\<close>

definition wf_cpf :: "cpf \<Rightarrow> bool" where
  "wf_cpf c \<longleftrightarrow> unat (cpf_count c) = length (cpf_items c) \<and> list_all wf_cpf_item (cpf_items c)"

lemma wf_new_cpf [simp]:
  "length items < 65536 \<Longrightarrow> list_all wf_cpf_item items \<Longrightarrow> wf_cpf (new_cpf items)"
  by (simp add: wf_cpf_def new_cpf_def)

lemma cpf_items_new [simp]: "cpf_items (new_cpf items) = items"
  by (simp add: new_cpf_def)

lemma cpf_read_sound:
  assumes "cpf_read bs = Inr (c, r)"
  shows "wf_cpf c \<and> bs = cpf_encode c @ r"
proof -
  from assms obtain s where 1: "read_u16 bs = Inr (cpf_count c, s)"
    and 2: "read_many (unat (cpf_count c)) cpf_item_decode s = Inr (cpf_items c, r)"
    by (auto simp: cpf_read_def elim!: rd_bind_InrE)
  show ?thesis
    using u16_exact [OF 1] cpf_item_fmt.read_many_sound [OF 2]
    by (simp add: wf_cpf_def cpf_encode_def)
qed

interpretation cpf_fmt: exact_codec cpf_encode cpf_read wf_cpf
proof unfold_locales
  fix x r assume "wf_cpf x"
  then show "cpf_read (cpf_encode x @ r) = Inr (x, r)"
    by (simp add: cpf_read_def cpf_encode_def wf_cpf_def rd_bind_def codec_simps
        cpf_item_fmt.read_many_enc)
qed (rule cpf_read_sound)

lemma cpf_decode_encode_append: "wf_cpf c \<Longrightarrow> cpf_decode (cpf_encode c @ r) = Inr c"
  by (simp add: cpf_decode_def cpf_fmt.dec_enc)

lemma cpf_decode_encode: "wf_cpf c \<Longrightarrow> cpf_decode (cpf_encode c) = Inr c"
  using cpf_decode_encode_append [of c "[]"] by simp

lemma cpf_decode_InrE:
  assumes "cpf_decode bs = Inr c"
  obtains r where "wf_cpf c" and "bs = cpf_encode c @ r"
  using assms by (auto simp: cpf_decode_def rd_value_def split: sum.splits dest: cpf_read_sound)

lemma cpf_encode_length:
  "wf_cpf c \<Longrightarrow> length (cpf_encode c) = 2 + (\<Sum>i\<leftarrow>cpf_items c. 4 + length (ci_data i))"
proof -
  have "list_all wf_cpf_item xs \<Longrightarrow>
      length (concat (map cpf_item_encode xs)) = (\<Sum>i\<leftarrow>xs. 4 + length (ci_data i))" for xs
    by (induction xs) (simp_all add: cpf_item_encode_wf)
  then show "wf_cpf c \<Longrightarrow> ?thesis"
    by (simp add: wf_cpf_def cpf_encode_def)
qed

text \<open>Concrete packets of the protocol: a null or connected address and one data item.\<close>

lemma find_item_two:
  "find_item_by_type (new_cpf [i, j]) t =
     (if ci_type i = t then Some i else if ci_type j = t then Some j else None)"
  by (simp add: find_item_by_type_def)

text \<open>
  The data of a SendRRData packet in either direction: interface handle and timeout zero, then
  a packet with a null address and the message.
\<close>

definition rr_data :: "bytes \<Rightarrow> bytes" where
  "rr_data m = replicate 6 0 @ cpf_encode (new_cpf
     [new_cpf_item ItemIDNullAddress [], new_cpf_item ItemIDUnconnectedMessage m])"

lemma rr_data_cpf:
  "length m < 65536 \<Longrightarrow> cpf_decode (drop 6 (rr_data m)) = Inr (new_cpf
     [new_cpf_item ItemIDNullAddress [], new_cpf_item ItemIDUnconnectedMessage m])"
  by (simp add: rr_data_def cpf_decode_encode)

lemma rr_data_length: "length m < 65536 \<Longrightarrow> length (rr_data m) = 16 + length m"
  by (simp add: rr_data_def cpf_encode_length)

section \<open>Properties\<close>

text \<open>
  C30: a packet whose counts fit survives encoding and decoding, whatever bytes follow it.
\<close>

theorem cpf_roundtrip:
  assumes "length tds < 65536" and "\<forall>(t, d) \<in> set tds. length d < 65536"
  shows "cpf_decode (cpf_encode (new_cpf (map (\<lambda>(t, d). new_cpf_item t d) tds)) @ trailing) =
           Inr (new_cpf (map (\<lambda>(t, d). new_cpf_item t d) tds))"
  using assms by (intro cpf_decode_encode_append wf_new_cpf) (auto simp: list_all_iff)

theorem cpf_roundtrip_witness:
  "cpf_decode (cpf_encode (new_cpf [new_cpf_item 0 [], new_cpf_item 0xB2 [1, 2, 3]]) @ [9]) =
     Inr (new_cpf [new_cpf_item 0 [], new_cpf_item 0xB2 [1, 2, 3]])"
  using cpf_roundtrip [of "[(0, []), (0xB2, [1, 2, 3])]" "[9]"] by simp

text \<open>
  A packet that was cut short anywhere is an error of the decoder, never a shorter packet.
\<close>

theorem cpf_truncated:
  assumes "wf_cpf c" and "k < length (cpf_encode c)"
  shows "\<exists>e. cpf_decode (take k (cpf_encode c)) = Inl e"
  using cpf_fmt.prefix_fails [OF assms] by (auto simp: cpf_decode_def)

theorem cpf_truncated_witness:
  "\<exists>e. cpf_decode (take 7 (cpf_encode (new_cpf [new_cpf_item 0 [], new_cpf_item 0xB2 [1, 2]]))) = Inl e"
  by (rule cpf_truncated)
    (simp_all add: new_cpf_def wf_cpf_def cpf_encode_def cpf_item_encode_def new_cpf_item_def
      wf_cpf_item_def)

text \<open>
  C29: the decoder is exact: it accepts only bytes that start with the encoding of the packet it
  returns, and the length field of every item it returns is the length of the item's data.
\<close>

theorem cpf_decode_exact:
  assumes "cpf_decode data = Inr c"
  shows "(\<exists>trailing. data = cpf_encode c @ trailing) \<and>
         unat (cpf_count c) = length (cpf_items c) \<and>
         (\<forall>i \<in> set (cpf_items c). unat (ci_length i) = length (ci_data i))"
  using assms
  by (auto simp: wf_cpf_def wf_cpf_item_def list_all_iff elim!: cpf_decode_InrE)

theorem cpf_decode_exact_witness:
  "(\<exists>trailing. le16 0 @ [7] =
      cpf_encode \<lparr>cpf_count = 0, cpf_items = []\<rparr> @ trailing) \<and>
   unat (0 :: u16) = length ([] :: cpf_item list)"
proof -
  have "cpf_decode (le16 0 @ [7]) = Inr \<lparr>cpf_count = 0, cpf_items = []\<rparr>"
    by (simp add: cpf_decode_def cpf_read_def rd_bind_def codec_simps)
  from cpf_decode_exact [OF this] show ?thesis by simp
qed

text \<open>
  The length of an item is kept modulo 65536 while all of its data is written.  Decoding
  what was encoded therefore returns only the first \<open>length d mod 65536\<close> bytes, and the other
  bytes are left in the stream, where the next item is expected (or are not written at all when
  the length is a multiple of 65536).
\<close>

theorem cpf_item_length_wraps:
  "cpf_item_decode (cpf_item_encode (new_cpf_item t d)) =
     Inr (\<lparr>ci_type = t, ci_length = word_of_nat (length d),
           ci_data = take (length d mod 65536) d\<rparr>,
          (if length d mod 65536 = 0 then [] else drop (length d mod 65536) d))"
proof -
  let ?n = "length d mod 65536"
  have n: "unat (word_of_nat (length d) :: u16) = ?n" by (simp add: unat_of_nat)
  have gt: "(word_of_nat (length d) :: u16) > 0 \<longleftrightarrow> ?n \<noteq> 0"
    unfolding n [symmetric] by (auto simp: word_gt_0 unat_eq_zero)
  have d: "d = take ?n d @ drop ?n d" by simp
  have len: "length (take ?n d) = ?n" by simp
  show ?thesis
  proof (cases "?n = 0")
    case True
    then show ?thesis
      using cpf_item_decode_bytes [of "word_of_nat (length d)" "[]" t "[]"] n gt
      by (simp add: cpf_item_encode_def new_cpf_item_def)
  next
    case False
    have "cpf_item_encode (new_cpf_item t d) =
        le16 t @ le16 (word_of_nat (length d)) @ take ?n d @ drop ?n d"
      using False gt by (simp add: cpf_item_encode_def new_cpf_item_def)
    then show ?thesis
      using cpf_item_decode_bytes [of "word_of_nat (length d)" "take ?n d" t "drop ?n d"] n len False
      by simp
  qed
qed

end
