(* ===== verification/Eip_Discovery.thy ===== *)
theory Eip_Discovery
  imports Go_Prelude
begin

text \<open>
  The responses of ListIdentity and ListServices, \<open>pkg/eip/discovery.go\<close>: counted lists of items
  of a common packet format.  An identity item is a struct read field by field with a
  length-prefixed name; a service item has a name padded with zeros to 16 bytes; items of other
  types in a ListIdentity response are skipped by their length field.
\<close>

record list_identity_item =
  li_type :: u16
  li_length :: u16
  li_encaps_version :: u16
  li_socket_addr :: bytes
  li_vendor_id :: u16
  li_device_type :: u16
  li_product_code :: u16
  li_revision :: bytes
  li_status :: u16
  li_serial_number :: u32
  li_product_name :: bytes
  li_state :: u8

record list_services_item =
  ls_type :: u16
  ls_length :: u16
  ls_version :: u16
  ls_capability_flags :: u16
  ls_name :: bytes

text \<open>\<open>bytes.TrimRight(b, "\x00")\<close>.\<close>

definition trim_right_zeros :: "bytes \<Rightarrow> bytes" where
  "trim_right_zeros b = rev (dropWhile (\<lambda>x. x = 0) (rev b))"

definition decode_list_services_item :: "list_services_item reader" where
  "decode_list_services_item =
     rd_bind read_u16 (\<lambda>typeID.
     rd_bind read_u16 (\<lambda>len.
     rd_bind read_u16 (\<lambda>version.
     rd_bind read_u16 (\<lambda>flags.
     rd_bind (read_full 16) (\<lambda>nameBytes.
     rd_return \<lparr>ls_type = typeID, ls_length = len, ls_version = version,
                ls_capability_flags = flags, ls_name = trim_right_zeros nameBytes\<rparr>)))))"

definition decode_list_services_response :: "bytes \<Rightarrow> go_error + list_services_item list" where
  "decode_list_services_response data = rd_value (
     rd_bind read_u16 (\<lambda>count. read_many (unat count) decode_list_services_item) data)"

text \<open>The fields of an identity item behind type and length.\<close>

definition identity_fields :: "u16 \<Rightarrow> u16 \<Rightarrow> list_identity_item reader" where
  "identity_fields typeID len =
     rd_bind read_u16 (\<lambda>version.
     rd_bind (read_full 16) (\<lambda>addr.
     rd_bind read_u16 (\<lambda>vendor.
     rd_bind read_u16 (\<lambda>device.
     rd_bind read_u16 (\<lambda>product.
     rd_bind (read_full 2) (\<lambda>revision.
     rd_bind read_u16 (\<lambda>status.
     rd_bind read_u32 (\<lambda>serial.
     rd_bind read_u8 (\<lambda>nameLen.
     rd_bind (read_full (unat nameLen)) (\<lambda>name.
     rd_bind read_u8 (\<lambda>state.
     rd_return \<lparr>li_type = typeID, li_length = len, li_encaps_version = version,
                li_socket_addr = addr, li_vendor_id = vendor, li_device_type = device,
                li_product_code = product, li_revision = revision, li_status = status,
                li_serial_number = serial, li_product_name = name, li_state = state\<rparr>)))))))))))"

text \<open>The body of the loop: an identity item, or nothing for an item that was skipped.\<close>

definition identity_item :: "list_identity_item option reader" where
  "identity_item =
     rd_bind read_u16 (\<lambda>typeID.
     rd_bind read_u16 (\<lambda>len.
       if typeID = 0x0C then
         rd_bind (identity_fields typeID len) (\<lambda>item. rd_return (Some item))
       else rd_bind (read_full (unat len)) (\<lambda>skip. rd_return None)))"

definition decode_list_identity_response :: "bytes \<Rightarrow> go_error + list_identity_item list" where
  "decode_list_identity_response data = rd_value (
     rd_bind read_u16 (\<lambda>count.
     rd_bind (read_many (unat count) identity_item) (\<lambda>items.
     rd_return (List.map_filter (\<lambda>x. x) items))) data)"

section \<open>Items as a device writes them\<close>

text \<open>
  An item of a ListIdentity response: an identity, with its declared length, or an item of
  another type.
\<close>

datatype identity_entry = Identity list_identity_item | OtherItem u16 bytes

fun identity_entry_bytes :: "identity_entry \<Rightarrow> bytes" where
  "identity_entry_bytes (Identity i) =
     le16 0x0C @ le16 (li_length i) @ le16 (li_encaps_version i) @ li_socket_addr i @
     le16 (li_vendor_id i) @ le16 (li_device_type i) @ le16 (li_product_code i) @
     li_revision i @ le16 (li_status i) @ le32 (li_serial_number i) @
     le8 (word_of_nat (length (li_product_name i))) @ li_product_name i @ le8 (li_state i)"
| "identity_entry_bytes (OtherItem t d) = le16 t @ le16 (word_of_nat (length d)) @ d"

fun identity_entry_ok :: "identity_entry \<Rightarrow> bool" where
  "identity_entry_ok (Identity i) \<longleftrightarrow>
     li_type i = 0x0C \<and> length (li_socket_addr i) = 16 \<and> length (li_revision i) = 2 \<and>
     length (li_product_name i) < 256"
| "identity_entry_ok (OtherItem t d) \<longleftrightarrow> t \<noteq> 0x0C \<and> length d < 65536"

fun entry_identity :: "identity_entry \<Rightarrow> list_identity_item option" where
  "entry_identity (Identity i) = Some i"
| "entry_identity (OtherItem t d) = None"

lemma identity_item_entry:
  "identity_entry_ok e \<Longrightarrow> identity_item (identity_entry_bytes e @ r) = Inr (entry_identity e, r)"
  by (cases e) (simp_all add: identity_item_def identity_fields_def rd_bind_def codec_simps)

text \<open>A counted loop whose reader forgets part of what is written.\<close>

lemma read_many_map:
  assumes "\<And>x r. x \<in> set xs \<Longrightarrow> m (enc x @ r) = Inr (f x, r)"
  shows "read_many (length xs) m (concat (map enc xs) @ r) = Inr (map f xs, r)"
  using assms by (induction xs) (simp_all add: rd_bind_def)

text \<open>A service name as it stands in the item: at most 16 bytes, zeros behind.\<close>

definition services_item_bytes :: "list_services_item \<Rightarrow> bytes" where
  "services_item_bytes i =
     le16 (ls_type i) @ le16 (ls_length i) @ le16 (ls_version i) @ le16 (ls_capability_flags i) @
     ls_name i @ replicate (16 - length (ls_name i)) 0"

definition services_item_ok :: "list_services_item \<Rightarrow> bool" where
  "services_item_ok i \<longleftrightarrow> length (ls_name i) \<le> 16 \<and> (ls_name i \<noteq> [] \<longrightarrow> last (ls_name i) \<noteq> 0)"

lemma trim_padded:
  "(b \<noteq> [] \<longrightarrow> last b \<noteq> 0) \<Longrightarrow> trim_right_zeros (b @ replicate n 0) = b"
proof -
  assume b: "b \<noteq> [] \<longrightarrow> last b \<noteq> 0"
  have "dropWhile (\<lambda>x. x = 0) (rev (b @ replicate n 0)) = dropWhile (\<lambda>x. x = 0) (rev b)"
    unfolding rev_append rev_replicate by (rule dropWhile_append2) simp
  also have "\<dots> = rev b"
    using b by (cases b rule: rev_cases) simp_all
  finally show ?thesis by (simp add: trim_right_zeros_def)
qed

interpretation services_fmt: codec services_item_bytes decode_list_services_item services_item_ok
proof unfold_locales
  fix x r assume ok: "services_item_ok x"
  have len: "length (ls_name x @ replicate (16 - length (ls_name x)) 0) = 16"
    using ok by (simp add: services_item_ok_def)
  have trim: "trim_right_zeros (ls_name x @ replicate (16 - length (ls_name x)) 0) = ls_name x"
    using ok by (intro trim_padded) (simp add: services_item_ok_def)
  show "decode_list_services_item (services_item_bytes x @ r) = Inr (x, r)"
    using read_full_append [OF len, of r]
    by (simp add: decode_list_services_item_def services_item_bytes_def rd_bind_def codec_simps trim)
qed

section \<open>Properties\<close>

text \<open>
  The decoder of ListIdentity returns, in order, exactly the identities of a response whose
  items may be mixed with items of other types, which are skipped by their length.
\<close>

theorem list_identity_decoded:
  assumes "\<forall>e \<in> set es. identity_entry_ok e" and "length es < 65536"
  shows "decode_list_identity_response
      (le16 (word_of_nat (length es)) @ concat (map identity_entry_bytes es) @ trailing) =
      Inr (List.map_filter entry_identity es)"
proof -
  have "read_many (length es) identity_item (concat (map identity_entry_bytes es) @ trailing) =
      Inr (map entry_identity es, trailing)"
    using assms(1) by (intro read_many_map identity_item_entry) simp
  moreover have "List.map_filter (\<lambda>x. x) (map entry_identity es) = List.map_filter entry_identity es"
    by (simp add: List.map_filter_def filter_map comp_def)
  ultimately show ?thesis
    using assms(2) by (simp add: decode_list_identity_response_def rd_bind_def codec_simps)
qed

theorem list_identity_decoded_witness:
  fixes i :: list_identity_item
  defines "i \<equiv> \<lparr>li_type = 0x0C, li_length = 35, li_encaps_version = 1,
    li_socket_addr = replicate 16 0, li_vendor_id = 1, li_device_type = 0x0E,
    li_product_code = 55, li_revision = [20, 11], li_status = 0x60, li_serial_number = 7,
    li_product_name = [0x50, 0x4C], li_state = 3\<rparr>"
  shows "decode_list_identity_response
    (le16 2 @ identity_entry_bytes (OtherItem 0x86 [1, 2, 3]) @ identity_entry_bytes (Identity i))
    = Inr [i]"
  using list_identity_decoded [of "[OtherItem 0x86 [1, 2, 3], Identity i]" "[]"]
  by (simp add: i_def List.map_filter_def del: identity_entry_bytes.simps)

text \<open>
  The decoder of ListServices returns the services of a response in order, each with its
  name freed of the padding.
\<close>

theorem list_services_decoded:
  assumes "\<forall>i \<in> set is. services_item_ok i" and "length is < 65536"
  shows "decode_list_services_response
      (le16 (word_of_nat (length is)) @ concat (map services_item_bytes is) @ trailing) = Inr is"
  using assms services_fmt.read_many_enc [of "is" trailing]
  by (simp add: decode_list_services_response_def rd_bind_def codec_simps list_all_iff)

theorem list_services_decoded_witness:
  "decode_list_services_response
     (le16 1 @ services_item_bytes
        \<lparr>ls_type = 0x100, ls_length = 20, ls_version = 1, ls_capability_flags = 0x120,
         ls_name = [0x43, 0x6F, 0x6D, 0x6D]\<rparr>) =
   Inr [\<lparr>ls_type = 0x100, ls_length = 20, ls_version = 1, ls_capability_flags = 0x120,
         ls_name = [0x43, 0x6F, 0x6D, 0x6D]\<rparr>]"
  using list_services_decoded
    [of "[\<lparr>ls_type = 0x100, ls_length = 20, ls_version = 1, ls_capability_flags = 0x120,
           ls_name = [0x43, 0x6F, 0x6D, 0x6D]\<rparr>]" "[]"]
  by (simp add: services_item_ok_def)

end
