(* ===== verification/Cip_Types.thy ===== *)
theory Cip_Types
  imports Go_Prelude
begin

text \<open>
  The codes of the Common Industrial Protocol, \<open>pkg/cip/types.go\<close>: services, object classes,
  general status and data types, with the predicates and the printer of data types.
\<close>

section \<open>Elementary types\<close>

text \<open>Signed integers are the two's complement words, floats the IEEE bits.\<close>

type_synonym USINT = u8
type_synonym UINT = u16
type_synonym UDINT = u32
type_synonym ULINT = u64
type_synonym SINT = u8
type_synonym INT = u16
type_synonym DINT = u32
type_synonym LINT = u64
type_synonym REAL = u32
type_synonym LREAL = u64
type_synonym BYTE = u8
type_synonym WORD = u16
type_synonym DWORD = u32
type_synonym LWORD = u64

section \<open>Services, classes, status\<close>

definition ServiceGetAttributeList :: u8 where [simp]: "ServiceGetAttributeList = 0x03"
definition ServiceGetAttributeSingle :: u8 where [simp]: "ServiceGetAttributeSingle = 0x0E"
definition ServiceSetAttributeSingle :: u8 where [simp]: "ServiceSetAttributeSingle = 0x10"

definition ClassAssembly :: u16 where [simp]: "ClassAssembly = 0x04"
definition ClassConnectionMgr :: u16 where [simp]: "ClassConnectionMgr = 0x06"

definition StatusSuccess :: u8 where [simp]: "StatusSuccess = 0x00"
definition StatusPathSegmentError :: u8 where [simp]: "StatusPathSegmentError = 0x04"
definition StatusPathDestinationUnknown :: u8 where [simp]: "StatusPathDestinationUnknown = 0x05"
definition StatusServiceNotSupported :: u8 where [simp]: "StatusServiceNotSupported = 0x08"
definition StatusInvalidAttributeValue :: u8 where [simp]: "StatusInvalidAttributeValue = 0x09"
definition StatusAttributeNotSupported :: u8 where [simp]: "StatusAttributeNotSupported = 0x14"
definition StatusObjectDoesNotExist :: u8 where [simp]: "StatusObjectDoesNotExist = 0x16"

text \<open>A \<open>cip.Error\<close> with a status and no extended status.\<close>

definition cip_error :: "u8 \<Rightarrow> go_error" where
  "cip_error st = CipError st []"

section \<open>Data types\<close>

type_synonym data_type = u16

definition TypeBOOL :: data_type where [simp]: "TypeBOOL = 0x00C1"
definition TypeSINT :: data_type where [simp]: "TypeSINT = 0x00C2"
definition TypeINT :: data_type where [simp]: "TypeINT = 0x00C3"
definition TypeDINT :: data_type where [simp]: "TypeDINT = 0x00C4"
definition TypeLINT :: data_type where [simp]: "TypeLINT = 0x00C5"
definition TypeUSINT :: data_type where [simp]: "TypeUSINT = 0x00C6"
definition TypeUINT :: data_type where [simp]: "TypeUINT = 0x00C7"
definition TypeUDINT :: data_type where [simp]: "TypeUDINT = 0x00C8"
definition TypeULINT :: data_type where [simp]: "TypeULINT = 0x00C9"
definition TypeREAL :: data_type where [simp]: "TypeREAL = 0x00CA"
definition TypeLREAL :: data_type where [simp]: "TypeLREAL = 0x00CB"
definition TypeSTRING :: data_type where [simp]: "TypeSTRING = 0x00D0"

definition type_is_array :: "data_type \<Rightarrow> bool" where
  "type_is_array d \<longleftrightarrow> d AND 0x8000 \<noteq> 0"

definition type_base :: "data_type \<Rightarrow> data_type" where
  "type_base d = d AND 0x7FFF"

text \<open>The map \<open>typeNames\<close>, with the codes of the constants it uses as keys.\<close>

definition type_names :: "(data_type \<times> string) list" where
  "type_names =
    [(0xC1, ''BOOL''), (0xC2, ''SINT''), (0xC3, ''INT''), (0xC4, ''DINT''), (0xC5, ''LINT''),
     (0xC6, ''USINT''), (0xC7, ''UINT''), (0xC8, ''UDINT''), (0xC9, ''ULINT''),
     (0xCA, ''REAL''), (0xCB, ''LREAL''), (0xCC, ''STIME''), (0xCD, ''DATE''),
     (0xCE, ''TIME_OF_DAY''), (0xCF, ''DATE_AND_TIME''), (0xD0, ''STRING''),
     (0xD1, ''BYTE''), (0xD2, ''WORD''), (0xD3, ''DWORD''), (0xD4, ''LWORD''),
     (0xD5, ''STRING2''), (0xD6, ''FTIME''), (0xD7, ''LTIME''), (0xD8, ''ITIME''),
     (0xD9, ''STRINGN''), (0xDA, ''SHORT_STRING''), (0xDB, ''TIME''), (0xDC, ''EPATH''),
     (0xDD, ''ENGUNIT''), (0xDE, ''STRINGI''), (0x2A0, ''STRUCT'')]"

definition data_type_string :: "data_type \<Rightarrow> string" where
  "data_type_string d =
     (case map_of type_names (type_base d) of
        None \<Rightarrow> (if type_is_array d then ''UNKNOWN(0x'' @ hex4 (type_base d) @ '')[]''
                 else ''UNKNOWN(0x'' @ hex4 d @ '')'')
      | Some name \<Rightarrow> (if type_is_array d then name @ ''[]'' else name))"

text \<open>The array flag and the base code determine the code.\<close>

lemma type_array_bit: "type_is_array d \<longleftrightarrow> bit d 15"
  using and_exp_eq_0_iff_not_bit [of d 15] by (simp add: type_is_array_def)

lemma type_base_take: "type_base d = take_bit 15 d"
  using take_bit_eq_mask [of 15 d] by (simp add: type_base_def mask_eq_exp_minus_1)

lemma type_base_bit: "bit (type_base d) n \<longleftrightarrow> n < 15 \<and> bit d n"
  by (simp add: type_base_take bit_simps)

lemma type_flags_inj: "type_base c = type_base d \<Longrightarrow> type_is_array c = type_is_array d \<Longrightarrow> c = d"
proof (rule bit_word_eqI)
  fix n assume eq: "type_base c = type_base d" "type_is_array c = type_is_array d"
    and n: "n < LENGTH(16)"
  then show "bit c n \<longleftrightarrow> bit d n"
    using type_base_bit [of c n] type_base_bit [of d n]
    by (cases "n < 15") (auto simp: type_array_bit not_less dest: le_antisym)
qed

end
