(* ===== verification/Cip_Path.thy ===== *)
theory Cip_Path
  imports Cip_Types
begin

text \<open>
  Encoded paths (EPATH), \<open>pkg/cip/path.go\<close>: the builders of logical, symbolic and port segments
  and the length in words.  A path is its bytes; each builder appends to it.
\<close>

type_synonym cip_path = bytes

definition SegmentTypePort :: byte where [simp]: "SegmentTypePort = 0x00"
definition SegmentTypeLogical :: byte where [simp]: "SegmentTypeLogical = 0x20"
definition LogicalTypeClass :: byte where [simp]: "LogicalTypeClass = 0x00"
definition LogicalTypeInstance :: byte where [simp]: "LogicalTypeInstance = 0x04"
definition LogicalTypeMember :: byte where [simp]: "LogicalTypeMember = 0x08"
definition LogicalTypeAttribute :: byte where [simp]: "LogicalTypeAttribute = 0x10"
definition LogicalFormat8Bit :: byte where [simp]: "LogicalFormat8Bit = 0x00"
definition LogicalFormat16Bit :: byte where [simp]: "LogicalFormat16Bit = 0x01"
definition LogicalFormat32Bit :: byte where [simp]: "LogicalFormat32Bit = 0x02"

definition new_path :: cip_path where
  "new_path = []"

definition add_class :: "cip_path \<Rightarrow> u16 \<Rightarrow> cip_path" where
  "add_class p classID =
     (if classID \<le> 0xFF
      then p @ [SegmentTypeLogical OR LogicalTypeClass OR LogicalFormat8Bit] @ [ucast classID]
      else p @ [SegmentTypeLogical OR LogicalTypeClass OR LogicalFormat16Bit] @ [0x00]
             @ le16 classID)"

definition add_instance :: "cip_path \<Rightarrow> u16 \<Rightarrow> cip_path" where
  "add_instance p instanceID =
     (if instanceID \<le> 0xFF
      then p @ [SegmentTypeLogical OR LogicalTypeInstance OR LogicalFormat8Bit]
             @ [ucast instanceID]
      else p @ [SegmentTypeLogical OR LogicalTypeInstance OR LogicalFormat16Bit] @ [0x00]
             @ le16 instanceID)"

definition add_instance32 :: "cip_path \<Rightarrow> u32 \<Rightarrow> cip_path" where
  "add_instance32 p instanceID =
     (if instanceID \<le> 0xFF
      then p @ [SegmentTypeLogical OR LogicalTypeInstance OR LogicalFormat8Bit]
             @ [ucast instanceID]
      else if instanceID \<le> 0xFFFF
      then p @ [SegmentTypeLogical OR LogicalTypeInstance OR LogicalFormat16Bit] @ [0x00]
             @ le16 (ucast instanceID)
      else p @ [SegmentTypeLogical OR LogicalTypeInstance OR LogicalFormat32Bit] @ [0x00]
             @ le32 instanceID)"

definition add_attribute :: "cip_path \<Rightarrow> u16 \<Rightarrow> cip_path" where
  "add_attribute p attributeID =
     (if attributeID \<le> 0xFF
      then p @ [SegmentTypeLogical OR LogicalTypeAttribute OR LogicalFormat8Bit]
             @ [ucast attributeID]
      else p @ [SegmentTypeLogical OR LogicalTypeAttribute OR LogicalFormat16Bit] @ [0x00]
             @ le16 attributeID)"

definition add_member :: "cip_path \<Rightarrow> u16 \<Rightarrow> cip_path" where
  "add_member p memberID =
     (if memberID \<le> 0xFF
      then p @ [SegmentTypeLogical OR LogicalTypeMember OR LogicalFormat8Bit] @ [ucast memberID]
      else p @ [SegmentTypeLogical OR LogicalTypeMember OR LogicalFormat16Bit] @ [0x00]
             @ le16 memberID)"

text \<open>A Go string is its bytes; \<open>byte(l)\<close> keeps the low byte of the length.\<close>

definition add_symbolic_segment :: "cip_path \<Rightarrow> bytes \<Rightarrow> cip_path" where
  "add_symbolic_segment p symbol =
     p @ [0x91] @ [word_of_nat (length symbol)] @ symbol
       @ (if length symbol mod 2 \<noteq> 0 then [0x00] else [])"

definition add_port_segment :: "cip_path \<Rightarrow> u16 \<Rightarrow> bytes \<Rightarrow> cip_path go" where
  "add_port_segment p port linkAddress =
     (if port < 15
      then Return (p @ [(SegmentTypePort OR ucast port)
                          OR (if length linkAddress > 1 then 0x10 else 0)] @ linkAddress)
      else Panic ''Extended port segments not implemented'')"

definition len_words :: "cip_path \<Rightarrow> byte" where
  "len_words p = word_of_nat ((length p + 1) div 2)"

definition path_string :: "cip_path \<Rightarrow> string" where
  "path_string p = concat (map hex2 p)"

definition build_path :: "u16 \<Rightarrow> u16 \<Rightarrow> u16 \<Rightarrow> cip_path" where
  "build_path classID instanceID attributeID =
     (let p = add_instance (add_class new_path classID) instanceID
      in if attributeID \<noteq> 0 then add_attribute p attributeID else p)"

section \<open>Shape of the built paths\<close>

text \<open>
  The segment of a logical identifier with the 8-bit code k: two bytes for a small identifier,
  four for a large one.
\<close>

definition segment :: "byte \<Rightarrow> u16 \<Rightarrow> bytes" where
  "segment k n = (if n \<le> 0xFF then [k, ucast n] else (k + 1) # 0 # le16 n)"

lemma add_segments:
  "add_class p n = p @ segment 0x20 n"
  "add_instance p n = p @ segment 0x24 n"
  "add_member p n = p @ segment 0x28 n"
  "add_attribute p n = p @ segment 0x30 n"
  by (simp_all add: add_class_def add_instance_def add_member_def add_attribute_def segment_def)

lemma build_path_segments:
  "build_path c i a = segment 0x20 c @ segment 0x24 i @ (if a \<noteq> 0 then segment 0x30 a else [])"
  by (simp add: build_path_def new_path_def add_segments)

lemma segment_small: "n \<le> 0xFF \<Longrightarrow> segment k n = [k, ucast n]"
  by (simp add: segment_def)

lemma segment_large: "\<not> n \<le> 0xFF \<Longrightarrow> segment k n = (k + 1) # 0 # le16 n"
  by (simp add: segment_def)

lemma segment_length: "length (segment k n) = (if n \<le> 0xFF then 2 else 4)"
  by (simp add: segment_def)

lemma even_segment [simp]: "even (length (segment k n))"
  by (simp add: segment_def)

lemma segment_not_Nil [simp]: "segment k n \<noteq> []"
  by (simp add: segment_def)

text \<open>The small identifiers fit their byte: nothing is lost by the two-byte segment.\<close>

lemma ucast_u8_small:
  assumes "(n :: u16) \<le> 0xFF"
  shows "(ucast (ucast n :: u8) :: u16) = n" "(ucast (ucast n :: u8) :: u32) = ucast n"
proof -
  have n: "unat n < 256" using assms by (simp add: word_le_nat_alt)
  then show "(ucast (ucast n :: u8) :: u16) = n"
    by (intro word_unat_eq_iff [THEN iffD2]) (simp add: unsigned_ucast_eq take_bit_eq_mod unat_mod)
  show "(ucast (ucast n :: u8) :: u32) = ucast n"
    using n by (intro word_unat_eq_iff [THEN iffD2]) (simp add: unsigned_ucast_eq take_bit_eq_mod unat_mod)
qed

lemma even_build_path: "even (length (build_path c i a))"
  by (simp add: build_path_segments)

lemma build_path_length: "length (build_path c i a) \<le> 12"
  by (simp add: build_path_segments segment_length)

lemma unat_len_words: "length p < 511 \<Longrightarrow> unat (len_words p) = (length p + 1) div 2"
  by (simp add: len_words_def unat_of_nat)

lemma unat_len_words_even: "even (length p) \<Longrightarrow> length p < 511 \<Longrightarrow> 2 * unat (len_words p) = length p"
  by (simp add: unat_len_words)

lemma add_symbolic_length:
  "length (add_symbolic_segment [] s) = 2 * ((length s + 3) div 2)"
proof -
  have "length s mod 2 = 0 \<or> length s mod 2 = 1" by auto
  then show ?thesis by (auto simp: add_symbolic_segment_def) presburger+
qed

end
