(* ===== verification/Cip_Message.thy ===== *)
theory Cip_Message
  imports Cip_Path
begin

text \<open>
  Message Router requests and responses, \<open>pkg/cip/message.go\<close>, and the request constructors of
  \<open>pkg/cip/services.go\<close>.  The server decodes requests and encodes responses with code of its
  own, modelled in theory \<open>Eip_Server\<close>.
\<close>

section \<open>Requests\<close>

record mr_request =
  rq_service :: u8
  rq_path :: cip_path
  rq_data :: bytes

definition request_encode :: "mr_request \<Rightarrow> bytes" where
  "request_encode r =
     le8 (rq_service r) @ le8 (len_words (rq_path r)) @ rq_path r @
     (if length (rq_data r) > 0 then rq_data r else [])"

definition ServiceReadTag :: u8 where [simp]: "ServiceReadTag = 0x4C"
definition ServiceWriteTag :: u8 where [simp]: "ServiceWriteTag = 0x4D"

definition new_get_attribute_single_request :: "cip_path \<Rightarrow> mr_request" where
  "new_get_attribute_single_request path =
     \<lparr>rq_service = ServiceGetAttributeSingle, rq_path = path, rq_data = []\<rparr>"

definition new_set_attribute_single_request :: "cip_path \<Rightarrow> bytes \<Rightarrow> mr_request" where
  "new_set_attribute_single_request path data =
     \<lparr>rq_service = ServiceSetAttributeSingle, rq_path = path, rq_data = data\<rparr>"

definition new_read_tag_request :: "cip_path \<Rightarrow> u16 \<Rightarrow> mr_request" where
  "new_read_tag_request tagPath elements =
     \<lparr>rq_service = ServiceReadTag, rq_path = tagPath,
      rq_data = [ucast elements, ucast (drop_bit 8 elements)]\<rparr>"

definition new_write_tag_request ::
  "cip_path \<Rightarrow> data_type \<Rightarrow> u16 \<Rightarrow> bytes \<Rightarrow> mr_request" where
  "new_write_tag_request tagPath dataType elements data =
     \<lparr>rq_service = ServiceWriteTag, rq_path = tagPath,
      rq_data = [ucast dataType, ucast (drop_bit 8 dataType),
                 ucast elements, ucast (drop_bit 8 elements)] @ data\<rparr>"

lemma request_encode_eq:
  "request_encode r = rq_service r # len_words (rq_path r) # rq_path r @ rq_data r"
  by (simp add: request_encode_def le8_def)

lemma tag_request_data:
  "rq_data (new_read_tag_request p e) = le16 e"
  "rq_data (new_write_tag_request p t e d) = le16 t @ le16 e @ d"
  by (simp_all add: new_read_tag_request_def new_write_tag_request_def le16_def)

section \<open>Responses\<close>

record mr_response =
  rp_service :: u8
  rp_reserved :: u8
  rp_status :: u8
  rp_ext_size :: u8
  rp_ext :: "u16 list"
  rp_data :: bytes

text \<open>What is left of the data after the extended status is read in one call of \<open>Read\<close>.\<close>

definition read_rest :: "bytes reader" where
  "read_rest bs = (if length bs > 0 then read_some (length bs) bs else Inr ([], bs))"

definition response_read :: "mr_response reader" where
  "response_read =
     rd_bind read_u8 (\<lambda>service.
     rd_bind read_u8 (\<lambda>reserved.
     rd_bind read_u8 (\<lambda>status.
     rd_bind read_u8 (\<lambda>extSize.
     rd_bind (if extSize > 0 then read_many (unat extSize) read_u16 else rd_return []) (\<lambda>ext.
     rd_bind read_rest (\<lambda>rest.
     rd_return \<lparr>rp_service = service, rp_reserved = reserved, rp_status = status,
                rp_ext_size = extSize, rp_ext = ext, rp_data = rest\<rparr>))))))"

definition response_decode :: "bytes \<Rightarrow> go_error + mr_response" where
  "response_decode data = rd_value (response_read data)"

definition response_is_success :: "mr_response \<Rightarrow> bool" where
  "response_is_success r \<longleftrightarrow> rp_status r = StatusSuccess"

definition response_error :: "mr_response \<Rightarrow> go_error option" where
  "response_error r =
     (if response_is_success r then None else Some (CipError (rp_status r) (rp_ext r)))"

lemma read_rest_all [simp]: "read_rest bs = Inr (bs, [])"
  by (simp add: read_rest_def read_some_def)

text \<open>The bytes of a response, in the order in which the decoder expects them.\<close>

definition response_bytes :: "mr_response \<Rightarrow> bytes" where
  "response_bytes r =
     [rp_service r, rp_reserved r, rp_status r, rp_ext_size r] @
     concat (map le16 (rp_ext r)) @ rp_data r"

lemma response_decode_bytes:
  assumes "unat (rp_ext_size r) = length (rp_ext r)"
  shows "response_decode (response_bytes r) = Inr r"
proof -
  have many: "(if rp_ext_size r > 0 then read_many (unat (rp_ext_size r)) read_u16 else rd_return [])
      (concat (map le16 (rp_ext r)) @ rp_data r) = Inr (rp_ext r, rp_data r)"
    using assms u16_fmt.read_many_enc [of "rp_ext r" "rp_data r"]
    by (auto simp: word_gt_0 list_all_iff)
  show ?thesis
    by (simp add: response_decode_def response_read_def response_bytes_def rd_bind_def
        read_u8_Cons many)
qed

lemma response_decode_short: "length bs < 4 \<Longrightarrow> \<exists>e. response_decode bs = Inl e"
proof -
  assume "length bs < 4"
  then consider "bs = []" | a where "bs = [a]" | a b where "bs = [a, b]"
    | a b c where "bs = [a, b, c]"
    by (cases bs rule: list.exhaust; cases "tl bs"; cases "tl (tl bs)"; cases "tl (tl (tl bs))")
      auto
  then show ?thesis
    by cases (simp_all add: response_decode_def response_read_def rd_bind_def read_u8_Cons)
qed

section \<open>Properties\<close>

text \<open>
  C38: a response whose size field counts its extended status words is decoded to itself, with
  everything behind the extended status as data; its error is none exactly for status zero and
  otherwise carries status and extended status.
\<close>

theorem response_roundtrip:
  assumes "unat (rp_ext_size r) = length (rp_ext r)"
  shows "response_decode
           ([rp_service r, rp_reserved r, rp_status r, rp_ext_size r] @
            concat (map le16 (rp_ext r)) @ rp_data r) = Inr r \<and>
         response_error r =
           (if rp_status r = 0 then None else Some (CipError (rp_status r) (rp_ext r)))"
  using response_decode_bytes [OF assms]
  by (simp add: response_bytes_def response_error_def response_is_success_def)

theorem response_roundtrip_witness:
  "response_decode [0x8E, 0, 1, 2, 0x00, 0x01, 0x15, 0x03, 7, 8] =
     Inr \<lparr>rp_service = 0x8E, rp_reserved = 0, rp_status = 1, rp_ext_size = 2,
          rp_ext = [0x0100, 0x0315], rp_data = [7, 8]\<rparr>"
proof -
  have low: "(0x0100 :: byte) = 0" "(0x0315 :: byte) = 0x15" by simp_all
  show ?thesis
    using response_roundtrip
      [of "\<lparr>rp_service = 0x8E, rp_reserved = 0, rp_status = 1, rp_ext_size = 2,
            rp_ext = [0x0100, 0x0315], rp_data = [7, 8]\<rparr>"]
    by (simp add: le16_def low)
qed

end
