(* ===== verification/Session.thy ===== *)
theory Session
  imports Transport Eip_Cpf Eip_Discovery Cip_Message
begin

text \<open>
  Sessions, \<open>pkg/session/session.go\<close>, over any transport: registration, SendRRData, CIP requests
  and the two discovery commands.  A session holds the state of its transport and the handle
  that the peer gave it; the log calls have no effect on it and are left out.
\<close>

record 't session =
  se_transport :: 't
  se_handle :: u32

definition new_session :: "'t \<Rightarrow> 't session" where
  "new_session t = \<lparr>se_transport = t, se_handle = 0\<rparr>"

definition session_register :: "'t transport \<Rightarrow> 't session \<Rightarrow> go_error option \<times> 't session" where
  "session_register tr s =
     (case tr_send tr (se_transport s) CommandRegisterSession
             (register_session_encode new_register_session_data) 0 of
        (Some e, t1) \<Rightarrow> (Some e, s\<lparr>se_transport := t1\<rparr>)
      | (None, t1) \<Rightarrow>
          (case tr_receive tr t1 of
             (Inl e, t2) \<Rightarrow> (Some e, s\<lparr>se_transport := t2\<rparr>)
           | (Inr (header, respData), t2) \<Rightarrow>
               if eh_status header \<noteq> EipStatusSuccess
               then (Some (Errorf ''register session failed with status'' [unat (eh_status header)]),
                     s\<lparr>se_transport := t2\<rparr>)
               else (None, \<lparr>se_transport = t2, se_handle = eh_session header\<rparr>)))"

definition session_unregister :: "'t transport \<Rightarrow> 't session \<Rightarrow> go_error option \<times> 't session" where
  "session_unregister tr s =
     (let (e, t1) = tr_send tr (se_transport s) CommandUnregisterSession [] (se_handle s)
      in (e, s\<lparr>se_transport := t1\<rparr>))"

definition session_close :: "'t transport \<Rightarrow> 't session \<Rightarrow> go_error option \<times> 't session" where
  "session_close tr s =
     (let (e, t1) = tr_close tr (se_transport s) in (e, s\<lparr>se_transport := t1\<rparr>))"

definition session_send_rr_data ::
  "'t transport \<Rightarrow> 't session \<Rightarrow> bytes \<Rightarrow> (go_error + bytes) \<times> 't session" where
  "session_send_rr_data tr s request =
     (let cpfData = cpf_encode (new_cpf [new_cpf_item ItemIDNullAddress [],
                                         new_cpf_item ItemIDUnconnectedMessage request]);
          rrData = replicate 6 0 @ cpfData
      in
        (case tr_send tr (se_transport s) CommandSendRRData rrData (se_handle s) of
           (Some e, t1) \<Rightarrow> (Inl e, s\<lparr>se_transport := t1\<rparr>)
         | (None, t1) \<Rightarrow>
             (case tr_receive tr t1 of
                (Inl e, t2) \<Rightarrow> (Inl e, s\<lparr>se_transport := t2\<rparr>)
              | (Inr (header, respData), t2) \<Rightarrow>
                  ((if eh_status header \<noteq> EipStatusSuccess
                    then Inl (Errorf ''RRData command failed with status'' [unat (eh_status header)])
                    else if length respData < 6 then Inl (Errorf ''response data too short'' [])
                    else
                      (case cpf_decode (drop 6 respData) of
                         Inl e \<Rightarrow> Inl (Wrapf ''failed to decode CPF'' e)
                       | Inr respCPF \<Rightarrow>
                           (case find_item_by_type respCPF ItemIDUnconnectedMessage of
                              None \<Rightarrow>
                                Inl (Errorf ''response CPF missing Unconnected Message item'' [])
                            | Some item \<Rightarrow> Inr (ci_data item)))),
                   s\<lparr>se_transport := t2\<rparr>))))"

definition send_cip_request ::
  "'t transport \<Rightarrow> 't session \<Rightarrow> mr_request \<Rightarrow> (go_error + mr_response) \<times> 't session" where
  "send_cip_request tr s req =
     (case session_send_rr_data tr s (request_encode req) of
        (Inl e, s') \<Rightarrow> (Inl e, s')
      | (Inr respBytes, s') \<Rightarrow> (response_decode respBytes, s'))"

definition session_list_identity ::
  "'t transport \<Rightarrow> 't session \<Rightarrow> (go_error + list_identity_item list) \<times> 't session" where
  "session_list_identity tr s =
     (case tr_send tr (se_transport s) CommandListIdentity [] 0 of
        (Some e, t1) \<Rightarrow> (Inl e, s\<lparr>se_transport := t1\<rparr>)
      | (None, t1) \<Rightarrow>
          (case tr_receive tr t1 of
             (Inl e, t2) \<Rightarrow> (Inl e, s\<lparr>se_transport := t2\<rparr>)
           | (Inr (header, respData), t2) \<Rightarrow>
               ((if eh_status header \<noteq> EipStatusSuccess
                 then Inl (Errorf ''ListIdentity command failed with status''
                             [unat (eh_status header)])
                 else decode_list_identity_response respData),
                s\<lparr>se_transport := t2\<rparr>)))"

definition session_list_services ::
  "'t transport \<Rightarrow> 't session \<Rightarrow> (go_error + list_services_item list) \<times> 't session" where
  "session_list_services tr s =
     (case tr_send tr (se_transport s) CommandListServices [] 0 of
        (Some e, t1) \<Rightarrow> (Inl e, s\<lparr>se_transport := t1\<rparr>)
      | (None, t1) \<Rightarrow>
          (case tr_receive tr t1 of
             (Inl e, t2) \<Rightarrow> (Inl e, s\<lparr>se_transport := t2\<rparr>)
           | (Inr (header, respData), t2) \<Rightarrow>
               ((if eh_status header \<noteq> EipStatusSuccess
                 then Inl (Errorf ''ListServices command failed with status''
                             [unat (eh_status header)])
                 else decode_list_services_response respData),
                s\<lparr>se_transport := t2\<rparr>)))"

section \<open>A session with a peer that keeps the contract\<close>

text \<open>The session's view of a reply to SendRRData.\<close>

lemma session_send_rr_data_reply:
  assumes "tr_send tr t CommandSendRRData (rr_data m) h = (None, t1)"
    and "tr_receive tr t1 = (Inr (header, d), t2)"
  shows "session_send_rr_data tr \<lparr>se_transport = t, se_handle = h\<rparr> m =
    ((if eh_status header \<noteq> 0
      then Inl (Errorf ''RRData command failed with status'' [unat (eh_status header)])
      else if length d < 6 then Inl (Errorf ''response data too short'' [])
      else
        (case cpf_decode (drop 6 d) of
           Inl e \<Rightarrow> Inl (Wrapf ''failed to decode CPF'' e)
         | Inr c \<Rightarrow>
             (case find_item_by_type c ItemIDUnconnectedMessage of
                None \<Rightarrow> Inl (Errorf ''response CPF missing Unconnected Message item'' [])
              | Some item \<Rightarrow> Inr (ci_data item)))),
     \<lparr>se_transport = t2, se_handle = h\<rparr>)"
  using assms unfolding session_send_rr_data_def rr_data_def Let_def by simp

context request_reply
begin

lemma send_rr_data_ok:
  assumes "in_step t s" and "allowed CommandSendRRData" and "16 + length m \<le> 4096"
    and "answer s (request_header CommandSendRRData (rr_data m) h, rr_data m) =
           ((hdr, rr_data m'), s')"
    and "eh_status hdr = 0" and "16 + length m' < 65536"
  shows "\<exists>t'. session_send_rr_data tr \<lparr>se_transport = t, se_handle = h\<rparr> m =
           (Inr m', \<lparr>se_transport = t', se_handle = h\<rparr>) \<and> in_step t' s'"
proof -
  have len: "length (rr_data m) \<le> 4096" "length (rr_data m') < 65536"
    "\<not> length (rr_data m') < 6"
    using assms(3, 6) by (simp_all add: rr_data_length)
  obtain t1 t2 where "tr_send tr t CommandSendRRData (rr_data m) h = (None, t1)"
    "tr_receive tr t1 = (Inr (hdr, rr_data m'), t2)" "in_step t2 s'"
    using exchange [OF assms(1, 2) len(1) assms(4) len(2)] by blast
  then show ?thesis
    using assms(5, 6) len(3)
    by (simp add: session_send_rr_data_reply rr_data_cpf find_item_two)
qed

lemma send_rr_data_refused:
  assumes "in_step t s" and "allowed CommandSendRRData" and "16 + length m \<le> 4096"
    and "answer s (request_header CommandSendRRData (rr_data m) h, rr_data m) = ((hdr, d), s')"
    and "eh_status hdr \<noteq> 0" and "length d < 65536"
  shows "\<exists>t'. session_send_rr_data tr \<lparr>se_transport = t, se_handle = h\<rparr> m =
           (Inl (Errorf ''RRData command failed with status'' [unat (eh_status hdr)]),
            \<lparr>se_transport = t', se_handle = h\<rparr>) \<and> in_step t' s'"
proof -
  have len: "length (rr_data m) \<le> 4096"
    using assms(3) by (simp add: rr_data_length)
  obtain t1 t2 where "tr_send tr t CommandSendRRData (rr_data m) h = (None, t1)"
    "tr_receive tr t1 = (Inr (hdr, d), t2)" "in_step t2 s'"
    using exchange [OF assms(1, 2) len assms(4) assms(6)] by blast
  then show ?thesis
    using assms(5) by (simp add: session_send_rr_data_reply)
qed

lemma register_ok:
  assumes "in_step t s" and "allowed CommandRegisterSession"
    and "answer s (request_header CommandRegisterSession [1, 0, 0, 0] 0, [1, 0, 0, 0]) =
           ((hdr, d), s')"
    and "eh_status hdr = 0" and "length d < 65536"
  shows "\<exists>t'. session_register tr (new_session t) =
           (None, \<lparr>se_transport = t', se_handle = eh_session hdr\<rparr>) \<and> in_step t' s'"
proof -
  have reg: "register_session_encode new_register_session_data = [1, 0, 0, 0]"
    by (simp add: register_session_encode_def new_register_session_data_def le16_def)
  obtain t1 t2 where
    "tr_send tr t CommandRegisterSession [1, 0, 0, 0] 0 = (None, t1)"
    "tr_receive tr t1 = (Inr (hdr, d), t2)" "in_step t2 s'"
    using exchange [OF assms(1, 2) _ assms(3) assms(5)] by fastforce
  then show ?thesis
    using assms(4) by (simp add: session_register_def new_session_def reg)
qed

end

end
