(* ===== verification/Cip_Router.thy ===== *)
theory Cip_Router
  imports Cip_Message
begin

text \<open>
  The Message Router, \<open>pkg/cip/router.go\<close>.  The interface \<open>Object\<close> is the locale \<open>cip_object\<close>: a
  handler that turns the state of the device, a service, a path and data into a result and a
  new state.  The router maps class codes to object references; \<open>dispatch\<close> takes the handler of
  the references as an argument, as the Go method calls through the interface.
\<close>

type_synonym 'w handler = "'w \<Rightarrow> u8 \<Rightarrow> cip_path \<Rightarrow> bytes \<Rightarrow> (go_error + bytes) \<times> 'w"

record 'o router =
  ro_objects :: "u16 \<rightharpoonup> 'o"

definition new_message_router :: "'o router" where
  "new_message_router = \<lparr>ro_objects = Map.empty\<rparr>"

definition register_object :: "'o router \<Rightarrow> u16 \<Rightarrow> 'o \<Rightarrow> 'o router" where
  "register_object mr classID obj = mr\<lparr>ro_objects := (ro_objects mr)(classID \<mapsto> obj)\<rparr>"

text \<open>The decoder of the first segment: class code and remaining path.\<close>

definition parse_class :: "cip_path \<Rightarrow> go_error + (u16 \<times> cip_path)" where
  "parse_class pathBytes =
     (if length pathBytes = 0 then Inl (cip_error StatusPathSegmentError)
      else if pathBytes ! 0 = 0x20 then
        (if length pathBytes < 2 then Inl (cip_error StatusPathSegmentError)
         else Inr (ucast (pathBytes ! 1), drop 2 pathBytes))
      else if pathBytes ! 0 = 0x21 then
        (if length pathBytes < 4 then Inl (cip_error StatusPathSegmentError)
         else Inr (get_u16 (take 2 (drop 2 pathBytes)), drop 4 pathBytes))
      else Inl (cip_error StatusPathSegmentError))"

definition empty_response :: "u8 \<Rightarrow> mr_response" where
  "empty_response service =
     \<lparr>rp_service = service OR 0x80, rp_reserved = 0, rp_status = 0, rp_ext_size = 0,
      rp_ext = [], rp_data = []\<rparr>"

definition dispatch ::
  "('o \<Rightarrow> 'w handler) \<Rightarrow> 'o router \<Rightarrow> 'w \<Rightarrow> mr_request \<Rightarrow> (go_error + mr_response) \<times> 'w" where
  "dispatch handle mr w req =
     (case parse_class (rq_path req) of
        Inl e \<Rightarrow> (Inl e, w)
      | Inr (classID, remainingPath) \<Rightarrow>
          (case ro_objects mr classID of
             None \<Rightarrow>
               (Inr ((empty_response (rq_service req))
                       \<lparr>rp_status := StatusObjectDoesNotExist\<rparr>), w)
           | Some obj \<Rightarrow>
               (case handle obj w (rq_service req) remainingPath (rq_data req) of
                  (Inl (CipError status ext), w') \<Rightarrow>
                    (Inr ((empty_response (rq_service req))
                            \<lparr>rp_status := status, rp_ext := ext,
                             rp_ext_size := word_of_nat (length ext)\<rparr>), w')
                | (Inl _, w') \<Rightarrow>
                    (Inr ((empty_response (rq_service req))
                            \<lparr>rp_status := StatusServiceNotSupported\<rparr>), w')
                | (Inr respData, w') \<Rightarrow>
                    (Inr ((empty_response (rq_service req))
                            \<lparr>rp_status := StatusSuccess, rp_data := respData\<rparr>), w'))))"

text \<open>
  How the router answers for an object: the response made from the result of its handler.
\<close>

definition object_response :: "u8 \<Rightarrow> go_error + bytes \<Rightarrow> mr_response" where
  "object_response service res =
     (case res of
        Inl (CipError status ext) \<Rightarrow>
          (empty_response service)\<lparr>rp_status := status, rp_ext := ext,
                                   rp_ext_size := word_of_nat (length ext)\<rparr>
      | Inl _ \<Rightarrow> (empty_response service)\<lparr>rp_status := StatusServiceNotSupported\<rparr>
      | Inr d \<Rightarrow> (empty_response service)\<lparr>rp_data := d\<rparr>)"

section \<open>Routing\<close>

lemma parse_class_segment [simp]: "parse_class (segment 0x20 c @ rest) = Inr (c, rest)"
proof (cases "c \<le> 0xFF")
  case True
  then show ?thesis by (simp add: segment_small parse_class_def ucast_u8_small)
next
  case False
  have "get_u16 (take 2 (le16 c @ rest)) = c" by simp
  then show ?thesis using False by (simp add: segment_large parse_class_def)
qed

lemma parse_class_error: "parse_class p = Inl e \<Longrightarrow> e = cip_error StatusPathSegmentError"
  by (auto simp: parse_class_def split: if_splits)

lemma dispatch_object:
  assumes "parse_class (rq_path req) = Inr (c, rest)" and "ro_objects mr c = Some obj"
  shows "dispatch handle mr w req =
    (let (res, w') = handle obj w (rq_service req) rest (rq_data req)
     in (Inr (object_response (rq_service req) res), w'))"
proof -
  obtain res w' where h: "handle obj w (rq_service req) rest (rq_data req) = (res, w')"
    by fastforce
  have z: "(empty_response s)\<lparr>rp_status := 0, rp_data := d\<rparr> = (empty_response s)\<lparr>rp_data := d\<rparr>"
    for s d by (simp add: empty_response_def)
  show ?thesis
    using assms h
    by (simp add: dispatch_def object_response_def z split: sum.split go_error.split)
qed

lemma dispatch_unknown:
  "parse_class (rq_path req) = Inr (c, rest) \<Longrightarrow> ro_objects mr c = None \<Longrightarrow>
   dispatch handle mr w req =
     (Inr ((empty_response (rq_service req))\<lparr>rp_status := StatusObjectDoesNotExist\<rparr>), w)"
  by (simp add: dispatch_def)

lemma dispatch_cases:
  obtains (path) e where "parse_class (rq_path req) = Inl e" "dispatch handle mr w req = (Inl e, w)"
  | (unknown) "dispatch handle mr w req =
      (Inr ((empty_response (rq_service req))\<lparr>rp_status := StatusObjectDoesNotExist\<rparr>), w)"
  | (object) obj rest res w' where
      "handle obj w (rq_service req) rest (rq_data req) = (res, w')"
      "dispatch handle mr w req = (Inr (object_response (rq_service req) res), w')"
proof (cases "parse_class (rq_path req)")
  case (Inl e)
  then show ?thesis using path by (simp add: dispatch_def)
next
  case (Inr p)
  obtain c rest where p: "p = (c, rest)" by (cases p)
  show ?thesis
  proof (cases "ro_objects mr c")
    case None
    then show ?thesis using unknown dispatch_unknown Inr p by metis
  next
    case (Some obj)
    obtain res w' where h: "handle obj w (rq_service req) rest (rq_data req) = (res, w')"
      by fastforce
    have d: "dispatch handle mr w req = (Inr (object_response (rq_service req) res), w')"
      using dispatch_object [where handle = handle and w = w] Inr p Some h by simp
    show ?thesis by (rule object [OF h d])
  qed
qed

lemma object_response_wf:
  assumes "\<And>st ext. res = Inl (CipError st ext) \<Longrightarrow> length ext < 256"
  shows "unat (rp_ext_size (object_response s res)) = length (rp_ext (object_response s res))"
  using assms
  by (auto simp: object_response_def empty_response_def split: sum.split go_error.split)

section \<open>The interface of an object\<close>

text \<open>
  The contract of \<open>HandleRequest\<close>: every request keeps the invariant of the device, a request that
  fails leaves the state as it was, and extended status fits its count byte.
\<close>

locale cip_object =
  fixes handle :: "'w handler"
    and inv :: "'w \<Rightarrow> bool"
  assumes handle_inv: "inv w \<Longrightarrow> inv (snd (handle w service path data))"
    and error_frame: "fst (handle w service path data) = Inl e \<Longrightarrow>
                        snd (handle w service path data) = w"
    and ext_fits: "fst (handle w service path data) = Inl (CipError st ext) \<Longrightarrow> length ext < 256"
begin

lemma handle_trace_inv:
  "inv w \<Longrightarrow> inv (fold (\<lambda>(s, p, d) w. snd (handle w s p d)) reqs w)"
  by (induction reqs arbitrary: w) (auto intro: handle_inv)

end

text \<open>A run of requests against one object: the results in order and the final state.\<close>

fun serve :: "'w handler \<Rightarrow> 'w \<Rightarrow> (u8 \<times> cip_path \<times> bytes) list \<Rightarrow> (go_error + bytes) list \<times> 'w" where
  "serve h w [] = ([], w)"
| "serve h w ((s, p, d) # reqs) =
     (let (res, w') = h w s p d; (ress, w'') = serve h w' reqs in (res # ress, w''))"

text \<open>The objects behind one router: every reference fulfils the contract.\<close>

locale cip_objects =
  fixes ohandle :: "'o \<Rightarrow> 'w handler"
    and inv :: "'w \<Rightarrow> bool"
  assumes objects: "cip_object (ohandle ob) inv"
begin

lemma obj_inv: "ohandle ob w s p d = (res, w') \<Longrightarrow> inv w \<Longrightarrow> inv w'"
  using cip_object.handle_inv [OF objects, of w ob s p d] by simp

lemma obj_frame: "ohandle ob w s p d = (Inl e, w') \<Longrightarrow> w' = w"
  using cip_object.error_frame [OF objects, of ob w s p d e] by simp

lemma obj_ext: "ohandle ob w s p d = (Inl (CipError st ext), w') \<Longrightarrow> length ext < 256"
  using cip_object.ext_fits [OF objects, of ob w s p d] by simp

lemma dispatch_inv: "dispatch ohandle mr w req = (res, w') \<Longrightarrow> inv w \<Longrightarrow> inv w'"
  by (rule dispatch_cases [of req ohandle mr w]) (auto dest: obj_inv)

lemma dispatch_error_frame: "dispatch ohandle mr w req = (Inl e, w') \<Longrightarrow> w' = w"
  by (rule dispatch_cases [of req ohandle mr w]) auto

lemma dispatch_status_frame:
  assumes "dispatch ohandle mr w req = (Inr r, w')" and "rp_status r \<noteq> 0"
  shows "w' = w"
proof (rule dispatch_cases [of req ohandle mr w])
  fix obj rest res w''
  assume h: "ohandle obj w (rq_service req) rest (rq_data req) = (res, w'')"
    and d: "dispatch ohandle mr w req = (Inr (object_response (rq_service req) res), w'')"
  show "w' = w"
  proof (cases res)
    case (Inl e)
    then show ?thesis using obj_frame h d assms(1) by simp
  next
    case (Inr b)
    then show ?thesis using d assms by (auto simp: object_response_def empty_response_def)
  qed
qed (use assms in auto)

lemma dispatch_response_wf:
  assumes "dispatch ohandle mr w req = (Inr r, w')"
  shows "unat (rp_ext_size r) = length (rp_ext r) \<and> rp_service r = rq_service req OR 0x80"
proof (rule dispatch_cases [of req ohandle mr w])
  fix obj rest res w''
  assume h: "ohandle obj w (rq_service req) rest (rq_data req) = (res, w'')"
    and d: "dispatch ohandle mr w req = (Inr (object_response (rq_service req) res), w'')"
  have r: "r = object_response (rq_service req) res"
    using d assms by simp
  have "unat (rp_ext_size r) = length (rp_ext r)"
    unfolding r by (rule object_response_wf) (use h obj_ext in blast)
  moreover have "rp_service r = rq_service req OR 0x80"
    using d assms
    by (auto simp: object_response_def empty_response_def split: sum.splits go_error.splits)
  ultimately show ?thesis by simp
qed (use assms in \<open>auto simp: empty_response_def\<close>)

end

section \<open>Properties\<close>

text \<open>
  C24: a request whose path starts with the class segment of a registered object, in the 8-bit or
  the 16-bit form, reaches the handler of exactly that object with the rest of the path; the
  result is reported with the request's service code and bit 0x80 set.
\<close>

theorem dispatch_routes:
  fixes mr :: "'o router"
  assumes "rq_path req = add_class new_path c @ rest"
  shows "dispatch handle (register_object mr c obj) w req =
    (let (res, w') = handle obj w (rq_service req) rest (rq_data req)
     in (Inr (object_response (rq_service req) res), w'))"
  using assms
  by (intro dispatch_object [where c = c])
    (simp_all add: register_object_def new_path_def add_segments)

theorem dispatch_routes_witness:
  "dispatch (\<lambda>obj w s p d. (Inr (s # p @ d), w + obj))
     (register_object new_message_router 0x300 (5 :: nat)) 2
     \<lparr>rq_service = 1, rq_path = [0x21, 0, 0, 3, 0x24, 1], rq_data = [9]\<rparr> =
   (Inr \<lparr>rp_service = 0x81, rp_reserved = 0, rp_status = 0, rp_ext_size = 0, rp_ext = [],
         rp_data = [1, 0x24, 1, 9]\<rparr>, 7)"
proof -
  have low: "(0x300 :: byte) = 0" by simp
  have path: "add_class new_path 0x300 @ [0x24, 1] = [0x21, 0, 0, 3, 0x24, 1 :: byte]"
    by (simp add: add_class_def new_path_def le16_def low)
  show ?thesis
    using dispatch_routes
      [of "\<lparr>rq_service = 1, rq_path = [0x21, 0, 0, 3, 0x24, 1], rq_data = [9]\<rparr>" "0x300"
          "[0x24, 1]" "\<lambda>obj w s p d. (Inr (s # p @ d), w + obj)" new_message_router 5 2]
    by (simp add: path object_response_def empty_response_def)
qed

end
