(* ===== verification/Eip_Server.thy ===== *)
theory Eip_Server
  imports Net_Conn Eip_Encap Eip_Cpf Cip_Router
begin

text \<open>
  The server, \<open>pkg/server/server.go\<close>: the loop over the packets of one connection, the commands,
  and the two handlers of explicit messages, with the server's own decoder of requests and
  encoder of responses.  The world is the state of the objects behind the router.
\<close>

section \<open>Explicit messages\<close>

definition server_request_read :: "mr_request reader" where
  "server_request_read =
     rd_bind read_u8 (\<lambda>service.
     rd_bind read_u8 (\<lambda>pathSizeWords.
     rd_bind (read_some (unat pathSizeWords * 2)) (\<lambda>pathBytes.
     rd_bind read_rest (\<lambda>requestData.
     rd_return \<lparr>rq_service = service, rq_path = pathBytes, rq_data = requestData\<rparr>))))"

definition server_response_encode :: "mr_response \<Rightarrow> bytes" where
  "server_response_encode r =
     le8 (rp_service r) @ le8 (rp_reserved r) @ le8 (rp_status r) @ le8 (rp_ext_size r) @
     concat (map le16 (rp_ext r)) @ rp_data r"

text \<open>Decoding, dispatching and encoding, as both handlers do it with the message bytes.\<close>

definition serve_message ::
  "('o \<Rightarrow> 'w handler) \<Rightarrow> 'o router \<Rightarrow> 'w \<Rightarrow> bytes \<Rightarrow> (go_error + bytes) \<times> 'w" where
  "serve_message h router w message =
     (case server_request_read message of
        Inl e \<Rightarrow> (Inl e, w)
      | Inr (mrReq, _) \<Rightarrow>
          (case dispatch h router w mrReq of
             (Inl e, w') \<Rightarrow> (Inl e, w')
           | (Inr mrResp, w') \<Rightarrow> (Inr (server_response_encode mrResp), w')))"

definition handle_send_rr_data ::
  "('o \<Rightarrow> 'w handler) \<Rightarrow> 'o router \<Rightarrow> 'w \<Rightarrow> bytes \<Rightarrow> (go_error + bytes) \<times> 'w" where
  "handle_send_rr_data h router w data =
     (if length data < 6 then (Inl (Errorf ''short data'' []), w)
      else
        (case cpf_decode (drop 6 data) of
           Inl e \<Rightarrow> (Inl e, w)
         | Inr cpf \<Rightarrow>
             (case find_item_by_type cpf ItemIDUnconnectedMessage of
                None \<Rightarrow> (Inl (Errorf ''no unconnected message item'' []), w)
              | Some item \<Rightarrow>
                  (case serve_message h router w (ci_data item) of
                     (Inl e, w') \<Rightarrow> (Inl e, w')
                   | (Inr resp, w') \<Rightarrow>
                       (Inr (replicate 6 0 @ cpf_encode (new_cpf
                              [new_cpf_item ItemIDNullAddress [],
                               new_cpf_item ItemIDUnconnectedMessage resp])), w')))))"

definition handle_send_unit_data ::
  "('o \<Rightarrow> 'w handler) \<Rightarrow> 'o router \<Rightarrow> 'w \<Rightarrow> bytes \<Rightarrow> (go_error + bytes) \<times> 'w" where
  "handle_send_unit_data h router w data =
     (if length data < 6 then (Inl (Errorf ''short data'' []), w)
      else
        (case cpf_decode (drop 6 data) of
           Inl e \<Rightarrow> (Inl e, w)
         | Inr cpf \<Rightarrow>
             (case find_item_by_type cpf ItemIDConnectedAddress of
                None \<Rightarrow> (Inl (Errorf ''no connected address item'' []), w)
              | Some addrItem \<Rightarrow>
                  if length (ci_data addrItem) < 4
                  then (Inl (Errorf ''short address item data'' []), w)
                  else
                    (case find_item_by_type cpf ItemIDConnectedData of
                       None \<Rightarrow> (Inl (Errorf ''no connected data item'' []), w)
                     | Some dataItem \<Rightarrow>
                         if length (ci_data dataItem) < 2
                         then (Inl (Errorf ''short data item data'' []), w)
                         else
                           (case serve_message h router w (drop 2 (ci_data dataItem)) of
                              (Inl e, w') \<Rightarrow> (Inl e, w')
                            | (Inr resp, w') \<Rightarrow>
                                (Inr (replicate 6 0 @ cpf_encode (new_cpf
                                   [new_cpf_item ItemIDConnectedAddress (ci_data addrItem),
                                    new_cpf_item ItemIDConnectedData
                                      (le16 (get_u16 (ci_data dataItem)) @ resp)])), w'))))))"

section \<open>The connection\<close>

definition MaxPacketSize :: u16 where [simp]: "MaxPacketSize = 4096"

text \<open>
  The switch over the command, UnregisterSession apart: session handle and status of the
  response, its data, and the new world.
\<close>

definition server_command ::
  "('o \<Rightarrow> 'w handler) \<Rightarrow> 'o router \<Rightarrow> 'w \<Rightarrow> u16 \<Rightarrow> u32 \<Rightarrow> bytes \<Rightarrow> u32 \<times> u32 \<times> bytes \<times> 'w" where
  "server_command h router w command session data =
     (if command = CommandRegisterSession then (0x01020304, 0, le16 1 @ le16 0, w)
      else if command = CommandSendRRData then
        (case handle_send_rr_data h router w data of
           (Inl e, w') \<Rightarrow> (session, 1, [], w')
         | (Inr respData, w') \<Rightarrow> (session, 0, respData, w'))
      else if command = CommandSendUnitData then
        (case handle_send_unit_data h router w data of
           (Inl e, w') \<Rightarrow> (session, 1, [], w')
         | (Inr respData, w') \<Rightarrow> (session, 0, respData, w'))
      else (session, 1, [], w))"

text \<open>
  The first part of an iteration of \<open>handleConnection\<close>: command, session handle, sender context
  and data of the next packet, or none when the loop returns.
\<close>

definition server_receive ::
  "tcp_conn \<Rightarrow> (u16 \<times> u32 \<times> bytes \<times> bytes) option \<times> tcp_conn" where
  "server_receive c =
     (case conn_read_full 24 c of
        (Inl e, c1) \<Rightarrow> (None, c1)
      | (Inr headerBuf, c1) \<Rightarrow>
          let command = get_u16 headerBuf;
              dataLen = get_u16 (drop 2 headerBuf);
              session = get_u32 (drop 4 headerBuf);
              senderContext = take 8 (drop 12 headerBuf)
          in
            if dataLen > MaxPacketSize then (None, c1)
            else if dataLen > 0 then
              (case conn_read_full (unat dataLen) c1 of
                 (Inl e, c2) \<Rightarrow> (None, c2)
               | (Inr data, c2) \<Rightarrow> (Some (command, session, senderContext, data), c2))
            else (Some (command, session, senderContext, []), c1))"

text \<open>The last part: the response is written in one or two calls.\<close>

definition server_respond ::
  "tcp_conn \<Rightarrow> u16 \<Rightarrow> u32 \<Rightarrow> u32 \<Rightarrow> bytes \<Rightarrow> bytes \<Rightarrow> go_error option \<times> tcp_conn" where
  "server_respond c command session status senderContext respData =
     (case conn_write c
             (le16 command @ le16 (word_of_nat (length respData)) @ le32 session @ le32 status @
              senderContext @ le32 0) of
        (Some e, c') \<Rightarrow> (Some e, c')
      | (None, c') \<Rightarrow> (if length respData > 0 then conn_write c' respData else (None, c')))"

text \<open>One iteration; the flag says whether the loop goes on.\<close>

definition server_step ::
  "('o \<Rightarrow> 'w handler) \<Rightarrow> 'o router \<Rightarrow> 'w \<Rightarrow> tcp_conn \<Rightarrow> bool \<times> 'w \<times> tcp_conn" where
  "server_step h router w c =
     (case server_receive c of
        (None, c1) \<Rightarrow> (False, w, c1)
      | (Some (command, session, senderContext, data), c1) \<Rightarrow>
          if command = CommandUnregisterSession then (False, w, c1)
          else
            (case server_command h router w command session data of
               (session', status, respData, w') \<Rightarrow>
                 (case server_respond c1 command session' status senderContext respData of
                    (Some e, c2) \<Rightarrow> (False, w', c2)
                  | (None, c2) \<Rightarrow> (True, w', c2))))"

lemma server_receive_in:
  assumes "server_receive c = (Some p, c')"
  shows "24 + length (tc_in c') \<le> length (tc_in c)"
proof (cases "conn_read_full 24 c")
  case (Pair res c1)
  then obtain hd where hd: "conn_read_full 24 c = (Inr hd, c1)"
    using assms by (cases res) (auto simp: server_receive_def)
  have "length (tc_in c') \<le> length (tc_in c1)"
    using assms hd
    by (auto simp: server_receive_def Let_def split: if_splits sum.splits prod.splits
        dest!: conn_read_length)
  then show ?thesis using conn_read_length [OF hd] by simp
qed

lemma server_respond_in: "server_respond c cmd s st ctx d = (e, c') \<Longrightarrow> tc_in c' = tc_in c"
  by (auto simp: server_respond_def split: option.splits prod.splits if_splits dest!: conn_write_in)

lemma server_step_shrinks:
  assumes "server_step h router w c = (True, w', c')"
  shows "length (tc_in c') < length (tc_in c)"
proof -
  obtain p c1 where r: "server_receive c = (Some p, c1)" and in1: "tc_in c' = tc_in c1"
    using assms
    by (auto simp: server_step_def split: option.splits prod.splits if_splits
        dest!: server_respond_in)
  show ?thesis using server_receive_in [OF r] in1 by simp
qed

function server_loop ::
  "('o \<Rightarrow> 'w handler) \<Rightarrow> 'o router \<Rightarrow> 'w \<Rightarrow> tcp_conn \<Rightarrow> 'w \<times> tcp_conn" where
  "server_loop h router w c =
     (case server_step h router w c of
        (True, w', c') \<Rightarrow> server_loop h router w' c'
      | (False, w', c') \<Rightarrow> (w', c'))"
  by pat_completeness auto
termination
  by (relation "measure (\<lambda>(h, router, w, c). length (tc_in c))")
    (auto intro: server_step_shrinks [OF sym])

declare server_loop.simps [simp del]

definition handle_connection ::
  "('o \<Rightarrow> 'w handler) \<Rightarrow> 'o router \<Rightarrow> 'w \<Rightarrow> tcp_conn \<Rightarrow> 'w \<times> tcp_conn" where
  "handle_connection h router w c =
     (let (w', c') = server_loop h router w c in (w', conn_close c'))"

section \<open>One packet\<close>

text \<open>
  A packet on the wire is a header and as many bytes as its length field says; the server takes
  at most 4096.  What the server answers to a packet is a reply in the same form.
\<close>

type_synonym packet = "encap_header \<times> bytes"

definition packet_bytes :: "packet \<Rightarrow> bytes" where
  "packet_bytes p = header_encode (fst p) @ snd p"

definition packet_ok :: "packet \<Rightarrow> bool" where
  "packet_ok p \<longleftrightarrow> wf_header (fst p) \<and> unat (eh_length (fst p)) = length (snd p) \<and>
     length (snd p) \<le> 4096"

definition server_reply ::
  "('o \<Rightarrow> 'w handler) \<Rightarrow> 'o router \<Rightarrow> 'w \<Rightarrow> packet \<Rightarrow> packet \<times> 'w" where
  "server_reply h router w p =
     (case server_command h router w (eh_command (fst p)) (eh_session (fst p)) (snd p) of
        (session, status, d, w') \<Rightarrow>
          ((\<lparr>eh_command = eh_command (fst p), eh_length = word_of_nat (length d),
             eh_session = session, eh_status = status, eh_context = eh_context (fst p),
             eh_options = 0\<rparr>, d), w'))"

lemma server_receive_packet:
  assumes "packet_ok p"
  shows "server_receive \<lparr>tc_in = packet_bytes p @ r, tc_out = out, tc_room = room, tc_closed = cl\<rparr> =
    (Some (eh_command (fst p), eh_session (fst p), eh_context (fst p), snd p),
     \<lparr>tc_in = r, tc_out = out, tc_room = room, tc_closed = cl\<rparr>)"
proof -
  have wf: "wf_header (fst p)" and len: "length (snd p) = unat (eh_length (fst p))"
    and small: "\<not> eh_length (fst p) > 4096"
    using assms by (simp_all add: packet_ok_def word_less_nat_alt)
  show ?thesis
    using small len
    by (auto simp: server_receive_def packet_bytes_def header_fields [OF wf] wf Let_def
        word_gt_0 split: if_splits)
qed

lemma server_respond_packet:
  "server_respond \<lparr>tc_in = i, tc_out = out, tc_room = None, tc_closed = cl\<rparr> cmd s st ctx d =
     (None, \<lparr>tc_in = i,
       tc_out = out @ packet_bytes (\<lparr>eh_command = cmd, eh_length = word_of_nat (length d),
         eh_session = s, eh_status = st, eh_context = ctx, eh_options = 0\<rparr>, d),
       tc_room = None, tc_closed = cl\<rparr>)"
  by (auto simp: server_respond_def packet_bytes_def header_encode_def)

lemma server_step_packet:
  assumes "packet_ok p" and "eh_command (fst p) \<noteq> CommandUnregisterSession"
  shows "server_step h router w
      \<lparr>tc_in = packet_bytes p @ r, tc_out = out, tc_room = None, tc_closed = cl\<rparr> =
    (True, snd (server_reply h router w p),
     \<lparr>tc_in = r, tc_out = out @ packet_bytes (fst (server_reply h router w p)), tc_room = None,
      tc_closed = cl\<rparr>)"
  using assms
  by (simp add: server_step_def server_receive_packet server_respond_packet server_reply_def
      split: prod.split)

section \<open>Many packets\<close>

text \<open>The replies to a list of packets, with the state of the objects threaded through.\<close>

fun server_replies ::
  "('o \<Rightarrow> 'w handler) \<Rightarrow> 'o router \<Rightarrow> 'w \<Rightarrow> packet list \<Rightarrow> packet list \<times> 'w" where
  "server_replies h router w [] = ([], w)"
| "server_replies h router w (p # ps) =
     (let (q, w1) = server_reply h router w p; (qs, w2) = server_replies h router w1 ps
      in (q # qs, w2))"

lemma server_loop_True:
  "server_step h router w c = (True, w', c') \<Longrightarrow> server_loop h router w c = server_loop h router w' c'"
  by (simp add: server_loop.simps [of h router w c])

lemma server_loop_False:
  "server_step h router w c = (False, w', c') \<Longrightarrow> server_loop h router w c = (w', c')"
  by (simp add: server_loop.simps [of h router w c])

lemma server_loop_packets:
  assumes "\<forall>p \<in> set ps. packet_ok p \<and> eh_command (fst p) \<noteq> CommandUnregisterSession"
  shows "server_loop h router w
      \<lparr>tc_in = concat (map packet_bytes ps) @ r, tc_out = out, tc_room = None, tc_closed = cl\<rparr> =
    server_loop h router (snd (server_replies h router w ps))
      \<lparr>tc_in = r, tc_out = out @ concat (map packet_bytes (fst (server_replies h router w ps))),
       tc_room = None, tc_closed = cl\<rparr>"
  using assms
proof (induction ps arbitrary: w out)
  case Nil
  then show ?case by simp
next
  case (Cons p ps)
  have "server_step h router w
      \<lparr>tc_in = packet_bytes p @ (concat (map packet_bytes ps) @ r), tc_out = out, tc_room = None,
       tc_closed = cl\<rparr> =
    (True, snd (server_reply h router w p),
     \<lparr>tc_in = concat (map packet_bytes ps) @ r,
      tc_out = out @ packet_bytes (fst (server_reply h router w p)), tc_room = None,
      tc_closed = cl\<rparr>)"
    using Cons.prems by (intro server_step_packet) simp_all
  from server_loop_True [OF this] Cons show ?case
    by (simp add: Let_def split: prod.split)
qed

text \<open>Induction over the iterations for fixed objects.\<close>

lemma server_loop_step_induct:
  assumes step: "\<And>w c. (\<And>w' c'. server_step h router w c = (True, w', c') \<Longrightarrow> P w' c') \<Longrightarrow> P w c"
  shows "P w c"
proof (induction "length (tc_in c)" arbitrary: w c rule: less_induct)
  case less
  show ?case by (rule step, rule less, erule server_step_shrinks)
qed

text \<open>How a connection ends: the peer closes it, asks for it, or sends too long a packet.\<close>

lemma server_receive_None: "server_receive c = (None, c') \<Longrightarrow> server_loop h router w c = (w, c')"
  by (rule server_loop_False) (simp add: server_step_def)

lemma server_receive_short:
  "length i < 24 \<Longrightarrow> server_receive \<lparr>tc_in = i, tc_out = out, tc_room = room, tc_closed = cl\<rparr> =
     (None, \<lparr>tc_in = [], tc_out = out, tc_room = room, tc_closed = cl\<rparr>)"
  by (simp add: server_receive_def conn_read_full_def read_full_short)

lemma server_receive_long:
  "wf_header hdr \<Longrightarrow> eh_length hdr > 4096 \<Longrightarrow>
   server_receive \<lparr>tc_in = header_encode hdr @ r, tc_out = out, tc_room = room, tc_closed = cl\<rparr> =
     (None, \<lparr>tc_in = r, tc_out = out, tc_room = room, tc_closed = cl\<rparr>)"
  by (simp add: server_receive_def header_fields)

section \<open>Explicit messages of a client\<close>

text \<open>
  The server's decoder reads what the client's encoder writes, for paths of whole words up to
  255 words; and the server's response encoder writes what the client's decoder reads.
\<close>

definition client_request :: "mr_request \<Rightarrow> bool" where
  "client_request q \<longleftrightarrow> even (length (rq_path q)) \<and> length (rq_path q) < 511 \<and>
     rq_path q @ rq_data q \<noteq> []"

lemma server_request_read_encode:
  assumes "client_request q"
  shows "server_request_read (request_encode q) = Inr (q, [])"
proof -
  have len: "unat (len_words (rq_path q)) * 2 = length (rq_path q)"
    using assms unat_len_words_even [of "rq_path q"] by (simp add: client_request_def mult.commute)
  have "rq_path q @ rq_data q \<noteq> []" using assms by (simp add: client_request_def)
  then have "read_some (length (rq_path q)) (rq_path q @ rq_data q) = Inr (rq_path q, rq_data q)"
    by (subst read_some_full) auto
  then show ?thesis
    by (simp add: server_request_read_def request_encode_eq rd_bind_def read_u8_Cons len)
qed

lemma server_response_encode_bytes: "server_response_encode r = response_bytes r"
  by (simp add: server_response_encode_def response_bytes_def le8_def)

lemma serve_message_request:
  assumes "client_request q" and "dispatch h router w q = (res, w')"
  shows "serve_message h router w (request_encode q) =
    (case res of Inl e \<Rightarrow> (Inl e, w') | Inr r \<Rightarrow> (Inr (response_bytes r), w'))"
  using assms
  by (simp add: serve_message_def server_request_read_encode server_response_encode_bytes
      split: sum.split)

text \<open>The data of a SendUnitData packet around a message.\<close>

definition unit_data :: "bytes \<Rightarrow> u16 \<Rightarrow> bytes \<Rightarrow> bytes" where
  "unit_data addr sq m = replicate 6 0 @ cpf_encode (new_cpf
     [new_cpf_item ItemIDConnectedAddress addr,
      new_cpf_item ItemIDConnectedData (le16 sq @ m)])"

lemma handle_send_rr_data_message:
  assumes "length m < 65536"
  shows "handle_send_rr_data h router w (rr_data m) =
    (case serve_message h router w m of
       (Inl e, w') \<Rightarrow> (Inl e, w') | (Inr r, w') \<Rightarrow> (Inr (rr_data r), w'))"
proof -
  have "\<not> length (rr_data m) < 6" using rr_data_length [OF assms] by simp
  then show ?thesis
    by (simp add: handle_send_rr_data_def rr_data_cpf [OF assms] find_item_two)
      (simp add: rr_data_def split: sum.split prod.split)
qed

lemma handle_send_unit_data_message:
  assumes "length m + 2 < 65536" and "4 \<le> length addr" and "length addr < 65536"
  shows "handle_send_unit_data h router w (unit_data addr sq m) =
    (case serve_message h router w m of
       (Inl e, w') \<Rightarrow> (Inl e, w') | (Inr r, w') \<Rightarrow> (Inr (unit_data addr sq r), w'))"
proof -
  have cpf: "cpf_decode (drop 6 (unit_data addr sq m)) = Inr (new_cpf
      [new_cpf_item ItemIDConnectedAddress addr,
       new_cpf_item ItemIDConnectedData (le16 sq @ m)])"
    using assms by (simp add: unit_data_def cpf_decode_encode)
  have "\<not> length (unit_data addr sq m) < 6" by (simp add: unit_data_def)
  then show ?thesis
    using assms(2) by (simp add: handle_send_unit_data_def cpf find_item_two)
      (simp add: unit_data_def split: sum.split prod.split)
qed

section \<open>The objects behind the server\<close>

text \<open>
  Whatever bytes arrive, the objects keep their invariant; a packet that is answered with an
  error status has not changed them.
\<close>

context cip_objects
begin

lemma serve_message_inv: "serve_message ohandle router w m = (res, w') \<Longrightarrow> inv w \<Longrightarrow> inv w'"
  by (auto simp: serve_message_def split: sum.splits prod.splits dest: dispatch_inv)

lemma serve_message_frame: "serve_message ohandle router w m = (Inl e, w') \<Longrightarrow> w' = w"
  by (auto simp: serve_message_def split: sum.splits prod.splits dest: dispatch_error_frame)

lemma send_rr_data_inv:
  "handle_send_rr_data ohandle router w d = (res, w') \<Longrightarrow> inv w \<Longrightarrow> inv w'"
  by (auto simp: handle_send_rr_data_def split: if_splits sum.splits option.splits prod.splits
      dest: serve_message_inv)

lemma send_rr_data_frame: "handle_send_rr_data ohandle router w d = (Inl e, w') \<Longrightarrow> w' = w"
  by (auto simp: handle_send_rr_data_def split: if_splits sum.splits option.splits prod.splits
      dest: serve_message_frame)

lemma send_unit_data_inv:
  "handle_send_unit_data ohandle router w d = (res, w') \<Longrightarrow> inv w \<Longrightarrow> inv w'"
  by (auto simp: handle_send_unit_data_def split: if_splits sum.splits option.splits prod.splits
      dest: serve_message_inv)

lemma send_unit_data_frame: "handle_send_unit_data ohandle router w d = (Inl e, w') \<Longrightarrow> w' = w"
  by (auto simp: handle_send_unit_data_def split: if_splits sum.splits option.splits prod.splits
      dest: serve_message_frame)

lemma server_command_inv:
  "server_command ohandle router w cmd s d = (s', st, r, w') \<Longrightarrow> inv w \<Longrightarrow> inv w'"
  by (auto simp: server_command_def split: if_splits sum.splits prod.splits
      dest: send_rr_data_inv send_unit_data_inv)

lemma server_command_frame:
  "server_command ohandle router w cmd s d = (s', st, r, w') \<Longrightarrow> st \<noteq> 0 \<Longrightarrow> w' = w \<and> r = []"
  by (auto simp: server_command_def split: if_splits sum.splits prod.splits
      dest: send_rr_data_frame send_unit_data_frame)

lemma server_step_inv: "server_step ohandle router w c = (b, w', c') \<Longrightarrow> inv w \<Longrightarrow> inv w'"
  by (auto simp: server_step_def split: if_splits option.splits prod.splits
      dest: server_command_inv)

lemma server_loop_inv: "inv w \<Longrightarrow> inv (fst (server_loop ohandle router w c))"
proof (induction w c rule: server_loop_step_induct [of ohandle router])
  case (1 w c)
  obtain b w' c' where s: "server_step ohandle router w c = (b, w', c')" by (metis prod_cases3)
  then have "inv w'" using server_step_inv 1(2) by blast
  then show ?case
    using 1(1) [of w' c'] s
    by (cases b) (simp_all add: server_loop_True server_loop_False)
qed

lemma handle_connection_inv: "inv w \<Longrightarrow> inv (fst (handle_connection ohandle router w c))"
  using server_loop_inv [of w router c] by (cases "server_loop ohandle router w c") (simp add: handle_connection_def)

end

section \<open>A connection that breaks\<close>

text \<open>
  The response as one sequence of bytes: with room for k of them, the first k are written, and
  the call succeeds exactly when all of them fit.
\<close>

lemma server_respond_room:
  defines "b d cmd s st ctx \<equiv> packet_bytes (\<lparr>eh_command = cmd, eh_length = word_of_nat (length d),
     eh_session = s, eh_status = st, eh_context = ctx, eh_options = 0\<rparr>, d)"
  shows "server_respond \<lparr>tc_in = i, tc_out = out, tc_room = Some k, tc_closed = cl\<rparr> cmd s st ctx d =
     (if length (b d cmd s st ctx) \<le> k
      then (None, \<lparr>tc_in = i, tc_out = out @ b d cmd s st ctx,
                   tc_room = Some (k - length (b d cmd s st ctx)), tc_closed = cl\<rparr>)
      else (Some (NetError ''write''), \<lparr>tc_in = i, tc_out = out @ take k (b d cmd s st ctx),
                   tc_room = Some 0, tc_closed = cl\<rparr>))"
  by (auto simp: server_respond_def conn_write_def b_def packet_bytes_def header_encode_def)

definition with_room :: "nat \<Rightarrow> tcp_conn \<Rightarrow> tcp_conn" where
  "with_room k c = c\<lparr>tc_room := Some k\<rparr>"

lemma server_receive_room:
  "server_receive (with_room k c) = (let (p, c') = server_receive c in (p, with_room k c'))"
  by (auto simp: server_receive_def with_room_def conn_read_full_def Let_def
      split: sum.split prod.split)

lemma server_receive_keeps: "server_receive c = (p, c') \<Longrightarrow> tc_out c' = tc_out c \<and>
    tc_room c' = tc_room c \<and> tc_closed c' = tc_closed c"
  by (auto simp: server_receive_def Let_def split: sum.splits prod.splits if_splits
      dest!: conn_read_out)

text \<open>
  One iteration with room for k bytes, against the same iteration with no limit: either the
  loop goes on in both with the same bytes written, or it ends with the first k of them.
\<close>

lemma server_step_room:
  assumes "server_step h router w c = (go, w', c')" and "tc_room c = None"
  obtains b where "tc_room c' = None" "tc_out c' = tc_out c @ b"
    "server_step h router w (with_room k c) =
       (if length b \<le> k then (go, w', with_room (k - length b) c')
        else (False, w', c'\<lparr>tc_out := tc_out c @ take k b, tc_room := Some 0\<rparr>))"
proof -
  obtain p c1 where r: "server_receive c = (p, c1)" by fastforce
  have k1: "tc_out c1 = tc_out c" "tc_room c1 = None"
    using server_receive_keeps [OF r] assms(2) by simp_all
  have r': "server_receive (with_room k c) = (p, with_room k c1)"
    by (simp add: server_receive_room r)
  show thesis
  proof (cases "p = None \<or> (\<exists>s ctx d. p = Some (CommandUnregisterSession, s, ctx, d))")
    case True
    then have "go = False" "w' = w" "c' = c1"
      using assms(1) r by (auto simp: server_step_def)
    then show thesis
      using True that [of "[]"] r' k1 by (auto simp: server_step_def)
  next
    case False
    then obtain cmd s ctx d where p: "p = Some (cmd, s, ctx, d)" "cmd \<noteq> CommandUnregisterSession"
      by (cases p) auto
    obtain s' st d' w2 where cmd: "server_command h router w cmd s d = (s', st, d', w2)"
      by (metis prod_cases4)
    let ?b = "packet_bytes (\<lparr>eh_command = cmd, eh_length = word_of_nat (length d'),
       eh_session = s', eh_status = st, eh_context = ctx, eh_options = 0\<rparr>, d')"
    have c1: "c1 = \<lparr>tc_in = tc_in c1, tc_out = tc_out c, tc_room = None, tc_closed = tc_closed c1\<rparr>"
      using k1 by simp
    have wr: "server_respond c1 cmd s' st ctx d' = (None, c1\<lparr>tc_out := tc_out c @ ?b\<rparr>)"
      by (subst c1, subst server_respond_packet) (simp add: k1)
    have wk: "server_respond (with_room k c1) cmd s' st ctx d' =
      (if length ?b \<le> k then (None, with_room (k - length ?b) (c1\<lparr>tc_out := tc_out c @ ?b\<rparr>))
       else (Some (NetError ''write''),
             c1\<lparr>tc_out := tc_out c @ take k ?b, tc_room := Some 0\<rparr>))"
      by (subst c1, simp only: with_room_def tcp_conn.simps, subst server_respond_room)
        (simp add: k1)
    have "go = True" "w' = w2" "c' = c1\<lparr>tc_out := tc_out c @ ?b\<rparr>"
      using assms(1) r p cmd wr by (simp_all add: server_step_def)
    then show thesis
      using that [of ?b] r' p cmd wk k1 by (simp add: server_step_def)
  qed
qed

lemma server_loop_room:
  "tc_room c = None \<Longrightarrow>
   \<exists>b. tc_out (snd (server_loop h router w c)) = tc_out c @ b \<and>
       tc_out (snd (server_loop h router w (with_room k c))) = tc_out c @ take k b"
proof (induction w c arbitrary: k rule: server_loop_step_induct [of h router])
  case (1 w c)
  obtain go w' c' where s: "server_step h router w c = (go, w', c')" by (metis prod_cases3)
  obtain b where b: "tc_room c' = None" "tc_out c' = tc_out c @ b"
    and sk: "server_step h router w (with_room k c) =
       (if length b \<le> k then (go, w', with_room (k - length b) c')
        else (False, w', c'\<lparr>tc_out := tc_out c @ take k b, tc_room := Some 0\<rparr>))"
    using server_step_room [OF s 1(2), of k] by blast
  show ?case
  proof (cases go)
    case False
    then show ?thesis
      using s sk b server_loop_False [of h router w c]
        server_loop_False [of h router w "with_room k c"]
      by (cases "length b \<le> k") (auto simp: with_room_def)
  next
    case True
    then obtain b' where b': "tc_out (snd (server_loop h router w' c')) = tc_out c' @ b'"
      "tc_out (snd (server_loop h router w' (with_room (k - length b) c'))) =
         tc_out c' @ take (k - length b) b'"
      using 1(1) [of w' c' "k - length b"] s b(1) True by auto
    have *: "server_loop h router w c = server_loop h router w' c'"
      by (rule server_loop_True) (use s True in simp)
    show ?thesis
    proof (cases "length b \<le> k")
      case le: True
      have "server_loop h router w (with_room k c) =
          server_loop h router w' (with_room (k - length b) c')"
        using sk le True by (intro server_loop_True) simp
      then show ?thesis using * b' b(2) le by (intro exI [of _ "b @ b'"]) simp
    next
      case gt: False
      have "server_loop h router w (with_room k c) =
          (w', c'\<lparr>tc_out := tc_out c @ take k b, tc_room := Some 0\<rparr>)"
        using sk gt by (intro server_loop_False) simp
      then show ?thesis using * b' b(2) gt by (intro exI [of _ "b @ b'"]) simp
    qed
  qed
qed

section \<open>Properties\<close>

text \<open>
  The input of a connection behind the last packet that is answered, and what is left unread
  when the loop returns: less than a header before the peer closed, a request to unregister, or
  the header of too long a packet.
\<close>

definition ends_connection :: "bytes \<Rightarrow> bytes \<Rightarrow> bool" where
  "ends_connection tail unread \<longleftrightarrow>
     length tail < 24 \<and> unread = [] \<or>
     (\<exists>p. packet_ok p \<and> eh_command (fst p) = CommandUnregisterSession \<and>
          tail = packet_bytes p @ unread) \<or>
     (\<exists>hdr. wf_header hdr \<and> eh_length hdr > 4096 \<and> tail = header_encode hdr @ unread)"

lemma server_loop_end:
  assumes "ends_connection tail unread"
  shows "server_loop h router w \<lparr>tc_in = tail, tc_out = out, tc_room = room, tc_closed = cl\<rparr> =
    (w, \<lparr>tc_in = unread, tc_out = out, tc_room = room, tc_closed = cl\<rparr>)"
  using assms unfolding ends_connection_def
proof (elim disjE conjE exE)
  fix p assume p: "packet_ok p" "eh_command (fst p) = CommandUnregisterSession"
    and tail: "tail = packet_bytes p @ unread"
  show ?thesis
    unfolding tail by (rule server_loop_False) (simp add: server_step_def server_receive_packet p)
qed (auto intro: server_receive_None server_receive_short server_receive_long)

text \<open>
  C4: the server answers the packets of a connection one by one and in order, each with exactly
  one packet, the objects' state passing from one to the next, and closes the connection when
  the peer closes it, unregisters, or announces more than 4096 bytes; what follows is not read.
\<close>

theorem server_answers_in_order:
  assumes "\<forall>p \<in> set ps. packet_ok p \<and> eh_command (fst p) \<noteq> CommandUnregisterSession"
    and "ends_connection tail unread"
  shows "handle_connection h router w
      \<lparr>tc_in = concat (map packet_bytes ps) @ tail, tc_out = [], tc_room = None,
       tc_closed = False\<rparr> =
    (snd (server_replies h router w ps),
     \<lparr>tc_in = unread, tc_out = concat (map packet_bytes (fst (server_replies h router w ps))),
      tc_room = None, tc_closed = True\<rparr>)"
  by (simp add: handle_connection_def server_loop_packets [OF assms(1)]
      server_loop_end [OF assms(2)] conn_close_def)

theorem server_answers_in_order_witness:
  fixes ctx :: bytes
  defines "ctx \<equiv> [1, 2, 3, 4, 5, 6, 7, 8]"
  shows "handle_connection (\<lambda>_ w _ _ _. (Inl EOF, w)) (new_message_router :: nat router) ()
      \<lparr>tc_in =
         packet_bytes (\<lparr>eh_command = CommandRegisterSession, eh_length = 4, eh_session = 0,
           eh_status = 0, eh_context = ctx, eh_options = 0\<rparr>, [1, 0, 0, 0]) @
         packet_bytes (\<lparr>eh_command = CommandUnregisterSession, eh_length = 0, eh_session = 7,
           eh_status = 0, eh_context = ctx, eh_options = 0\<rparr>, []) @ [9],
       tc_out = [], tc_room = None, tc_closed = False\<rparr> =
    ((), \<lparr>tc_in = [9],
      tc_out = packet_bytes (\<lparr>eh_command = CommandRegisterSession, eh_length = 4,
        eh_session = 0x01020304, eh_status = 0, eh_context = ctx, eh_options = 0\<rparr>,
        le16 1 @ le16 0),
      tc_room = None, tc_closed = True\<rparr>)"
proof -
  let ?reg = "(\<lparr>eh_command = CommandRegisterSession, eh_length = 4, eh_session = 0,
           eh_status = 0, eh_context = ctx, eh_options = 0\<rparr>, [1, 0, 0, 0 :: byte])"
  let ?unreg = "(\<lparr>eh_command = CommandUnregisterSession, eh_length = 0, eh_session = 7,
           eh_status = 0, eh_context = ctx, eh_options = 0\<rparr>, [] :: bytes)"
  have e: "ends_connection (packet_bytes ?unreg @ [9]) [9]"
    unfolding ends_connection_def
    by (intro disjI2 disjI1 exI [of _ ?unreg])
      (simp add: packet_ok_def wf_header_def ctx_def)
  show ?thesis
    using server_answers_in_order [of "[?reg]", OF _ e, of "\<lambda>_ w _ _ _. (Inl EOF, w)"
        "new_message_router :: nat router" "()"]
    by (simp add: packet_ok_def wf_header_def ctx_def server_reply_def server_command_def)
qed

text \<open>
  Every answer carries the command and the sender context of its request, a length field
  for its data, options zero, the session handle of the request (the server's own handle for
  RegisterSession), and status 0, or status 1 with no data.
\<close>

theorem server_reply_header:
  "case server_reply h router w (hdr, d) of ((hdr', d'), w') \<Rightarrow>
     eh_command hdr' = eh_command hdr \<and> eh_context hdr' = eh_context hdr \<and>
     eh_length hdr' = word_of_nat (length d') \<and> eh_options hdr' = 0 \<and>
     eh_session hdr' =
       (if eh_command hdr = CommandRegisterSession then 0x01020304 else eh_session hdr) \<and>
     (eh_status hdr' = 0 \<or> eh_status hdr' = 1 \<and> d' = [])"
  by (simp add: server_reply_def server_command_def split: sum.split prod.split)

text \<open>
  The session handle is not checked: for any handle, registered or not, the server executes
  a request alike.
\<close>

theorem server_session_unchecked:
  "snd (server_command h router w cmd s d) = snd (server_command h router w cmd s' d)"
  by (simp add: server_command_def split: sum.split prod.split)

text \<open>
  An explicit message may stop within its path: the missing bytes of the path are zeros for
  the router, and a message that stops before the path is refused even for an empty path.
\<close>

theorem server_path_unchecked:
  assumes "length sent \<le> 2 * unat n"
  shows "serve_message h router w (service # n # sent) =
    (if sent = [] then (Inl EOF, w)
     else
       (case dispatch h router w \<lparr>rq_service = service,
               rq_path = sent @ replicate (2 * unat n - length sent) 0, rq_data = []\<rparr> of
          (Inl e, w') \<Rightarrow> (Inl e, w')
        | (Inr r, w') \<Rightarrow> (Inr (server_response_encode r), w')))"
  using assms
  by (simp add: serve_message_def server_request_read_def rd_bind_def read_u8_Cons read_some_def
      mult.commute)

theorem server_path_unchecked_witness:
  "serve_message (\<lambda>_ w _ _ _. (Inl EOF, w)) (new_message_router :: nat router) () [0x0E, 2, 0x20] =
     (case dispatch (\<lambda>_ w _ _ _. (Inl EOF, w)) (new_message_router :: nat router) ()
             \<lparr>rq_service = 0x0E, rq_path = [0x20, 0, 0, 0], rq_data = []\<rparr> of
        (Inl e, w') \<Rightarrow> (Inl e, w')
      | (Inr r, w') \<Rightarrow> (Inr (server_response_encode r), w'))"
proof -
  have r: "replicate 3 (0 :: byte) = [0, 0, 0]" by (simp add: numeral_3_eq_3)
  show ?thesis
    using server_path_unchecked [of "[0x20]" 2 "\<lambda>_ w _ _ _. (Inl EOF, w)"
        "new_message_router :: nat router" "()" "0x0E"]
    by (simp add: r)
qed

text \<open>
  A connected message (SendUnitData) that a client encoded is answered with the data of its
  own address item and its own sequence count around the router's response.
\<close>

theorem unit_data_answer:
  fixes sq :: u16
  assumes "client_request q" and "length (request_encode q) + 2 < 65536"
    and "length addr = 4" and "dispatch h router w q = (Inr r, w')"
  defines "unit m \<equiv> replicate 6 0 @ cpf_encode (new_cpf
    [new_cpf_item ItemIDConnectedAddress addr, new_cpf_item ItemIDConnectedData (le16 sq @ m)])"
  shows "handle_send_unit_data h router w (unit (request_encode q)) =
    (Inr (unit (response_bytes r)), w')"
  using handle_send_unit_data_message [of "request_encode q" addr h router w sq] assms(2, 3)
    serve_message_request [OF assms(1, 4)]
  by (simp add: unit_def unit_data_def)

theorem unit_data_answer_witness:
  fixes q :: mr_request and h :: "nat \<Rightarrow> unit handler"
  defines "q \<equiv> \<lparr>rq_service = 0x0E, rq_path = [0x20, 7], rq_data = []\<rparr>"
    and "h \<equiv> (\<lambda>_ w _ _ _. (Inl EOF, w))"
  shows "handle_send_unit_data h new_message_router ()
    (replicate 6 0 @ cpf_encode (new_cpf
       [new_cpf_item ItemIDConnectedAddress [1, 0, 0, 0x80],
        new_cpf_item ItemIDConnectedData (le16 5 @ request_encode q)])) =
    (Inr (replicate 6 0 @ cpf_encode (new_cpf
       [new_cpf_item ItemIDConnectedAddress [1, 0, 0, 0x80],
        new_cpf_item ItemIDConnectedData (le16 5 @
          response_bytes ((empty_response 0x0E)\<lparr>rp_status := StatusObjectDoesNotExist\<rparr>))])), ())"
proof (rule unit_data_answer)
  show "dispatch h new_message_router () q =
      (Inr ((empty_response 0x0E)\<lparr>rp_status := StatusObjectDoesNotExist\<rparr>), ())"
    by (simp add: dispatch_def parse_class_def q_def new_message_router_def)
qed (simp_all add: q_def client_request_def request_encode_eq)

text \<open>
  When the connection breaks after k bytes, the peer has received the first k bytes of the
  answers it would have received otherwise, for any input and any objects.
\<close>

theorem server_output_prefix:
  "tc_out (snd (handle_connection h router w
       \<lparr>tc_in = input, tc_out = [], tc_room = Some k, tc_closed = False\<rparr>)) =
   take k (tc_out (snd (handle_connection h router w
       \<lparr>tc_in = input, tc_out = [], tc_room = None, tc_closed = False\<rparr>)))"
proof -
  let ?c = "\<lparr>tc_in = input, tc_out = [], tc_room = None, tc_closed = False\<rparr>"
  have close: "tc_out (snd (handle_connection h router w c)) = tc_out (snd (server_loop h router w c))"
    for c by (simp add: handle_connection_def conn_close_def split: prod.split)
  show ?thesis
    using server_loop_room [of ?c h router w k] by (auto simp: close with_room_def)
qed

end
