(* ===== verification/Loopback.thy ===== *)
theory Loopback
  imports Session Eip_Server
begin

text \<open>
  A client and a server at the two ends of one TCP connection: what the client writes is the
  server's input, what the server writes is what the client reads.  The server runs when the
  client waits for bytes and a whole packet has arrived.  The transport of the client over this
  connection, with the server as the peer, keeps the contract \<open>request_reply\<close>.
\<close>

record 'w loopback =
  lb_world :: 'w
  lb_pending :: bytes
  lb_incoming :: bytes

definition idle :: "'w \<Rightarrow> 'w loopback" where
  "idle w = \<lparr>lb_world = w, lb_pending = [], lb_incoming = []\<rparr>"

text \<open>A whole packet stands at the start of the bytes.\<close>

definition packet_ready :: "bytes \<Rightarrow> bool" where
  "packet_ready b \<longleftrightarrow> 24 \<le> length b \<and> 24 + unat (get_u16 (drop 2 b)) \<le> length b"

definition loop_serve :: "('o \<Rightarrow> 'w handler) \<Rightarrow> 'o router \<Rightarrow> 'w loopback \<Rightarrow> 'w loopback" where
  "loop_serve h router c =
     (if packet_ready (lb_pending c) then
        (case server_step h router (lb_world c)
                \<lparr>tc_in = lb_pending c, tc_out = [], tc_room = None, tc_closed = False\<rparr> of
           (go, w', c') \<Rightarrow>
             \<lparr>lb_world = w', lb_pending = tc_in c', lb_incoming = lb_incoming c @ tc_out c'\<rparr>)
      else c)"

definition loop_conn :: "('o \<Rightarrow> 'w handler) \<Rightarrow> 'o router \<Rightarrow> 'w loopback net_conn" where
  "loop_conn h router =
     \<lparr>nc_write = (\<lambda>c b. (None, c\<lparr>lb_pending := lb_pending c @ b\<rparr>)),
      nc_read_full = (\<lambda>n c.
        (let c' = (if n \<le> length (lb_incoming c) then c else loop_serve h router c)
         in case read_full n (lb_incoming c') of
              Inl e \<Rightarrow> (Inl e, c')
            | Inr (x, r) \<Rightarrow> (Inr x, c'\<lparr>lb_incoming := r\<rparr>))),
      nc_close = (\<lambda>c. (None, c))\<rparr>"

definition loop_transport :: "('o \<Rightarrow> 'w handler) \<Rightarrow> 'o router \<Rightarrow> 'w loopback transport" where
  "loop_transport h router = tcp_transport (loop_conn h router)"

lemma packet_ready_packet:
  "packet_ok p \<Longrightarrow> packet_ready (packet_bytes p)"
  by (simp add: packet_ready_def packet_ok_def packet_bytes_def wf_header_def
      header_encode_def)

lemma loop_serve_packet:
  assumes "packet_ok p" and "eh_command (fst p) \<noteq> CommandUnregisterSession"
  shows "loop_serve h router \<lparr>lb_world = w, lb_pending = packet_bytes p, lb_incoming = []\<rparr> =
    \<lparr>lb_world = snd (server_reply h router w p), lb_pending = [],
     lb_incoming = packet_bytes (fst (server_reply h router w p))\<rparr>"
  using server_step_packet [OF assms, of h router w "[]" "[]" False] packet_ready_packet [OF assms(1)]
  by (simp add: loop_serve_def)

lemma loop_send:
  "tcp_send (loop_conn h router) (idle w) cmd d s =
     (None, \<lparr>lb_world = w, lb_pending = packet_bytes (request_header cmd d s, d),
             lb_incoming = []\<rparr>)"
  by (simp add: tcp_send_def loop_conn_def idle_def packet_bytes_def)

lemma loop_receive:
  assumes "packet_ok p" and "eh_command (fst p) \<noteq> CommandUnregisterSession"
    and "server_reply h router w p = ((hdr, d), w')" and "wf_header hdr"
    and "unat (eh_length hdr) = length d"
  shows "tcp_receive (loop_conn h router)
      \<lparr>lb_world = w, lb_pending = packet_bytes p, lb_incoming = []\<rparr> = (Inr (hdr, d), idle w')"
proof -
  have serve: "loop_serve h router \<lparr>lb_world = w, lb_pending = packet_bytes p, lb_incoming = []\<rparr> =
      \<lparr>lb_world = w', lb_pending = [], lb_incoming = header_encode hdr @ d\<rparr>"
    using loop_serve_packet [OF assms(1, 2), of h router w] assms(3) by (simp add: packet_bytes_def)
  have rd: "read_full 24 (header_encode hdr @ d) = Inr (header_encode hdr, d)"
    by (rule read_full_append) (simp add: assms(4))
  have rest: "read_full (length d) d = Inr (d, [])" by (simp add: read_full_def)
  show ?thesis
    using assms(4, 5) rd rest
    by (auto simp: tcp_receive_def loop_conn_def serve idle_def header_decode_exact word_gt_0)
qed

lemma server_reply_wf:
  assumes "server_reply h router w (hdr, d) = ((hdr', d'), w')" and "wf_header hdr"
    and "length d' < 65536"
  shows "wf_header hdr' \<and> unat (eh_length hdr') = length d'"
  using assms by (auto simp: server_reply_def wf_header_def split: prod.splits)

interpretation loop: request_reply "loop_transport h router" "server_reply h router"
    "\<lambda>t w. t = idle w" "\<lambda>cmd. cmd \<noteq> CommandUnregisterSession" for h router
proof unfold_locales
  fix t w cmd and d :: bytes and handle hdr d' w'
  assume t: "t = idle w" and cmd: "cmd \<noteq> CommandUnregisterSession" and len: "length d \<le> 4096"
    and reply: "server_reply h router w (request_header cmd d handle, d) = ((hdr, d'), w')"
    and len': "length d' < 65536"
  let ?p = "(request_header cmd d handle, d)"
  have ok: "packet_ok ?p" "eh_command (fst ?p) \<noteq> CommandUnregisterSession"
    using len cmd by (simp_all add: packet_ok_def) (simp_all add: request_header_def)
  have wf: "wf_header hdr" "unat (eh_length hdr) = length d'"
    using server_reply_wf [OF reply _ len'] by simp_all
  show "\<exists>t1 t2. tr_send (loop_transport h router) t cmd d handle = (None, t1) \<and>
      tr_receive (loop_transport h router) t1 = (Inr (hdr, d'), t2) \<and> t2 = idle w'"
    unfolding t using loop_send [of h router w cmd d handle] loop_receive [OF ok reply wf]
    by (simp add: loop_transport_def tcp_transport_def)
qed

text \<open>The server's answer to the SendRRData packet of a client's request.\<close>

lemma server_reply_request:
  assumes "client_request q" and "length (request_encode q) < 65536"
    and "dispatch h router w q = (res, w')"
  shows "server_reply h router w
      (request_header CommandSendRRData (rr_data (request_encode q)) s, rr_data (request_encode q)) =
    (case res of
       Inl e \<Rightarrow> ((\<lparr>eh_command = CommandSendRRData, eh_length = 0, eh_session = s, eh_status = 1,
                   eh_context = replicate 8 0, eh_options = 0\<rparr>, []), w')
     | Inr r \<Rightarrow> ((\<lparr>eh_command = CommandSendRRData,
                   eh_length = word_of_nat (length (rr_data (response_bytes r))), eh_session = s,
                   eh_status = 0, eh_context = replicate 8 0, eh_options = 0\<rparr>,
                  rr_data (response_bytes r)), w'))"
  using serve_message_request [OF assms(1, 3)] handle_send_rr_data_message [OF assms(2), of h router w]
  by (cases res) (simp_all add: server_reply_def server_command_def request_header_def)

text \<open>A request over the loopback, in terms of the router.\<close>

lemma loop_cip_request:
  assumes q: "client_request q" and len: "length (request_encode q) \<le> 4080"
    and d: "dispatch h router w q = (Inr r, w')"
    and r: "unat (rp_ext_size r) = length (rp_ext r)" "length (response_bytes r) < 65520"
  shows "send_cip_request (loop_transport h router) \<lparr>se_transport = idle w, se_handle = s\<rparr> q =
    (Inr r, \<lparr>se_transport = idle w', se_handle = s\<rparr>)"
proof -
  let ?m = "request_encode q"
  let ?hdr = "\<lparr>eh_command = CommandSendRRData,
     eh_length = word_of_nat (length (rr_data (response_bytes r))), eh_session = s,
     eh_status = 0, eh_context = replicate 8 0, eh_options = 0\<rparr>"
  have "server_reply h router w (request_header CommandSendRRData (rr_data ?m) s, rr_data ?m) =
      ((?hdr, rr_data (response_bytes r)), w')"
    using server_reply_request [OF q _ d, of s] len by simp
  from loop.send_rr_data_ok [OF refl _ _ this] len r(2)
  have "session_send_rr_data (loop_transport h router) \<lparr>se_transport = idle w, se_handle = s\<rparr> ?m =
      (Inr (response_bytes r), \<lparr>se_transport = idle w', se_handle = s\<rparr>)"
    by simp
  then show ?thesis
    by (simp add: send_cip_request_def response_decode_bytes [OF r(1)])
qed

section \<open>Properties\<close>

text \<open>
  C2: end to end.  A request that a client sends over TCP to the server is decoded and
  dispatched by it as it was made, and the client gets exactly the router's response; the
  connection is ready for the next request.  The bounds are those of the packets: 4096 bytes
  for the server's input, 65535 for its answer.
\<close>

theorem cip_request_over_tcp:
  assumes "even (length (rq_path q))" and "length (rq_path q) \<le> 510"
    and "rq_path q @ rq_data q \<noteq> []" and "length (request_encode q) \<le> 4080"
    and "dispatch h router w q = (Inr r, w')"
    and "unat (rp_ext_size r) = length (rp_ext r)" and "length (response_bytes r) < 65520"
  shows "send_cip_request (loop_transport h router) \<lparr>se_transport = idle w, se_handle = s\<rparr> q =
    (Inr r, \<lparr>se_transport = idle w', se_handle = s\<rparr>)"
  using assms by (intro loop_cip_request) (simp_all add: client_request_def)

theorem cip_request_over_tcp_witness:
  "send_cip_request (loop_transport (\<lambda>(_ :: nat) w s p d. (Inr (s # p @ d), w + 1))
       (register_object new_message_router 7 0)) \<lparr>se_transport = idle (5 :: nat), se_handle = 3\<rparr>
     \<lparr>rq_service = 0x0E, rq_path = [0x20, 7, 0x24, 1], rq_data = [9]\<rparr> =
   (Inr ((empty_response 0x0E)\<lparr>rp_data := [0x0E, 0x24, 1, 9]\<rparr>),
    \<lparr>se_transport = idle 6, se_handle = 3\<rparr>)"
proof (rule cip_request_over_tcp)
  show "dispatch (\<lambda>(_ :: nat) w s p d. (Inr (s # p @ d), w + 1))
      (register_object new_message_router 7 0) (5 :: nat)
      \<lparr>rq_service = 0x0E, rq_path = [0x20, 7, 0x24, 1], rq_data = [9]\<rparr> =
    (Inr ((empty_response 0x0E)\<lparr>rp_data := [0x0E, 0x24, 1, 9]\<rparr>), 6)"
    by (simp add: dispatch_def parse_class_def register_object_def new_message_router_def
        empty_response_def)
qed (simp_all add: request_encode_eq empty_response_def response_bytes_def)

text \<open>
  A request that the router refuses, for its path, is an error of the client that carries
  the encapsulation status, and the same connection serves further requests.
\<close>

theorem refused_request_over_tcp:
  assumes "even (length (rq_path q))" and "length (rq_path q) \<le> 510"
    and "rq_path q @ rq_data q \<noteq> []" and "length (request_encode q) \<le> 4080"
    and "dispatch h router w q = (Inl e, w')"
  shows "send_cip_request (loop_transport h router) \<lparr>se_transport = idle w, se_handle = s\<rparr> q =
    (Inl (Errorf ''RRData command failed with status'' [1]),
     \<lparr>se_transport = idle w', se_handle = s\<rparr>) \<and> w' = w"
proof -
  have q: "client_request q" using assms(1, 2, 3) by (simp add: client_request_def)
  let ?m = "request_encode q"
  let ?hdr = "\<lparr>eh_command = CommandSendRRData, eh_length = 0 :: u16, eh_session = s,
     eh_status = 1 :: u32, eh_context = replicate 8 0, eh_options = 0\<rparr>"
  have reply: "server_reply h router w
      (request_header CommandSendRRData (rr_data ?m) s, rr_data ?m) = ((?hdr, []), w')"
    using server_reply_request [OF q _ assms(5), of s] assms(4) by simp
  have "w' = w"
    by (rule dispatch_cases [of q h router w]) (use assms(5) in auto)
  with loop.send_rr_data_refused [OF refl _ _ reply] assms(4) show ?thesis
    by (simp add: send_cip_request_def)
qed

theorem refused_request_over_tcp_witness:
  "send_cip_request (loop_transport (\<lambda>(_ :: nat) w s p d. (Inl EOF, w)) new_message_router)
       \<lparr>se_transport = idle (), se_handle = 3\<rparr>
     (new_read_tag_request (add_symbolic_segment new_path [0x41, 0x42]) 1) =
   (Inl (Errorf ''RRData command failed with status'' [1]),
    \<lparr>se_transport = idle (), se_handle = 3\<rparr>) \<and> () = ()"
proof (rule refused_request_over_tcp)
  show "dispatch (\<lambda>(_ :: nat) w s p d. (Inl EOF, w)) new_message_router ()
      (new_read_tag_request (add_symbolic_segment new_path [0x41, 0x42]) 1) =
    (Inl (cip_error StatusPathSegmentError), ())"
    by (simp add: dispatch_def parse_class_def new_read_tag_request_def
        add_symbolic_segment_def new_path_def)
qed (simp_all add: new_read_tag_request_def add_symbolic_segment_def new_path_def
    request_encode_eq)

end
