(* ===== verification/Assembly.thy ===== *)
theory Assembly
  imports Cip_Router
begin

text \<open>
  The Assembly object (class 0x04), \<open>pkg/objects/assembly/assembly.go\<close>.  An instance keeps a
  reference to the data slice it was registered with, which its owner and other instances may
  share, so the bytes live in a store: the address of a slice's array is a number, and the
  length of an array never changes.  The Go pointers to instances are replaced by the instances,
  because no code assigns to a field of one.
\<close>

type_synonym address = nat

record assembly_instance =
  ai_id :: u32
  ai_data :: address

record assembly_state =
  as_instances :: "u32 \<rightharpoonup> assembly_instance"
  as_heap :: "address \<Rightarrow> bytes"

definition new_assembly_object :: "(address \<Rightarrow> bytes) \<Rightarrow> assembly_state" where
  "new_assembly_object heap = \<lparr>as_instances = Map.empty, as_heap = heap\<rparr>"

definition register_assembly :: "assembly_state \<Rightarrow> u32 \<Rightarrow> address \<Rightarrow> assembly_state" where
  "register_assembly ao instanceID data =
     ao\<lparr>as_instances := (as_instances ao)(instanceID \<mapsto> \<lparr>ai_id = instanceID, ai_data = data\<rparr>)\<rparr>"

definition get_attribute_single :: "assembly_state \<Rightarrow> u32 \<Rightarrow> u16 \<Rightarrow> go_error + bytes" where
  "get_attribute_single ao instanceID attrID =
     (case as_instances ao instanceID of
        None \<Rightarrow> Inl (cip_error StatusObjectDoesNotExist)
      | Some inst \<Rightarrow>
          if attrID = 3 then Inr (as_heap ao (ai_data inst))
          else if attrID = 4 then Inl (cip_error StatusAttributeNotSupported)
          else Inl (cip_error StatusAttributeNotSupported))"

text \<open>\<open>copy(instance.Data, data)\<close> writes into the shared array.\<close>

definition set_attribute_single ::
  "assembly_state \<Rightarrow> u32 \<Rightarrow> u16 \<Rightarrow> bytes \<Rightarrow> go_error option \<times> assembly_state" where
  "set_attribute_single ao instanceID attrID data =
     (case as_instances ao instanceID of
        None \<Rightarrow> (Some (cip_error StatusObjectDoesNotExist), ao)
      | Some inst \<Rightarrow>
          if attrID = 3 then
            (if length data \<noteq> length (as_heap ao (ai_data inst))
             then (Some (cip_error StatusInvalidAttributeValue), ao)
             else (None, ao\<lparr>as_heap := (as_heap ao)(ai_data inst := data)\<rparr>))
          else (Some (cip_error StatusAttributeNotSupported), ao))"

text \<open>The path decoder of \<open>HandleRequest\<close>: instance segment, then the attribute if present.\<close>

definition parse_instance :: "cip_path \<Rightarrow> go_error + (u32 \<times> bytes)" where
  "parse_instance pathBytes =
     (if length pathBytes = 0 then Inl (cip_error StatusPathSegmentError)
      else if pathBytes ! 0 = 0x24 then
        (if length pathBytes < 2 then Inl (cip_error StatusPathSegmentError)
         else Inr (ucast (pathBytes ! 1), drop 2 pathBytes))
      else if pathBytes ! 0 = 0x25 then
        (if length pathBytes < 4 then Inl (cip_error StatusPathSegmentError)
         else Inr (ucast (get_u16 (take 2 (drop 2 pathBytes))), drop 4 pathBytes))
      else Inl (cip_error StatusPathSegmentError))"

definition parse_attribute :: "bytes \<Rightarrow> go_error + u16" where
  "parse_attribute remainingPath =
     (if length remainingPath > 0 then
        (if remainingPath ! 0 = 0x30 then
           (if length remainingPath < 2 then Inl (cip_error StatusPathSegmentError)
            else Inr (ucast (remainingPath ! 1)))
         else if remainingPath ! 0 = 0x31 then
           (if length remainingPath < 4 then Inl (cip_error StatusPathSegmentError)
            else Inr (get_u16 (take 2 (drop 2 remainingPath))))
         else Inr 0)
      else Inr 0)"

definition assembly_handle :: "assembly_state handler" where
  "assembly_handle ao service path data =
     (case parse_instance path of
        Inl e \<Rightarrow> (Inl e, ao)
      | Inr (instanceID, remainingPath) \<Rightarrow>
          (case parse_attribute remainingPath of
             Inl e \<Rightarrow> (Inl e, ao)
           | Inr attrID \<Rightarrow>
               if service = ServiceGetAttributeSingle then
                 (if attrID = 0 then (Inl (cip_error StatusPathSegmentError), ao)
                  else (get_attribute_single ao instanceID attrID, ao))
               else if service = ServiceSetAttributeSingle then
                 (if attrID = 0 then (Inl (cip_error StatusPathSegmentError), ao)
                  else (case set_attribute_single ao instanceID attrID data of
                          (Some e, ao') \<Rightarrow> (Inl e, ao')
                        | (None, ao') \<Rightarrow> (Inr [], ao')))
               else (Inl (cip_error StatusServiceNotSupported), ao)))"

section \<open>The object contract\<close>

text \<open>
  The invariant: every array keeps the length it was made with, and an instance is found under
  its own identifier.
\<close>

definition assembly_inv :: "(address \<Rightarrow> nat) \<Rightarrow> assembly_state \<Rightarrow> bool" where
  "assembly_inv sizes ao \<longleftrightarrow>
     (\<forall>a. length (as_heap ao a) = sizes a) \<and>
     (\<forall>i inst. as_instances ao i = Some inst \<longrightarrow> ai_id inst = i)"

lemma assembly_invI:
  "(\<And>a. length (as_heap ao a) = sizes a) \<Longrightarrow>
   (\<And>i inst. as_instances ao i = Some inst \<Longrightarrow> ai_id inst = i) \<Longrightarrow> assembly_inv sizes ao"
  by (simp add: assembly_inv_def)

lemma assembly_inv_new: "assembly_inv (\<lambda>a. length (heap a)) (new_assembly_object heap)"
  by (simp add: assembly_inv_def new_assembly_object_def)

lemma assembly_inv_register:
  "assembly_inv sizes ao \<Longrightarrow> assembly_inv sizes (register_assembly ao i a)"
  by (auto simp: assembly_inv_def register_assembly_def)

lemma set_attribute_inv:
  "set_attribute_single ao i a d = (e, ao') \<Longrightarrow> assembly_inv sizes ao \<Longrightarrow> assembly_inv sizes ao'"
  by (auto simp: assembly_inv_def set_attribute_single_def split: option.splits if_splits)

lemma set_attribute_frame: "set_attribute_single ao i a d = (Some e, ao') \<Longrightarrow> ao' = ao"
  by (auto simp: set_attribute_single_def split: option.splits if_splits)

lemma set_attribute_instances:
  "set_attribute_single ao i a d = (e, ao') \<Longrightarrow> as_instances ao' = as_instances ao"
  by (auto simp: set_attribute_single_def split: option.splits if_splits)

lemma attribute_errors:
  "get_attribute_single ao i a = Inl e \<Longrightarrow> \<exists>st. e = cip_error st"
  "set_attribute_single ao i a d = (Some e, ao') \<Longrightarrow> \<exists>st. e = cip_error st"
  "parse_instance p = Inl e \<Longrightarrow> \<exists>st. e = cip_error st"
  "parse_attribute q = Inl e \<Longrightarrow> \<exists>st. e = cip_error st"
  by (auto simp: get_attribute_single_def set_attribute_single_def parse_instance_def
      parse_attribute_def split: option.splits if_splits)

lemma assembly_handle_cases:
  assumes "assembly_handle ao s p d = (res, ao')"
  obtains (error) st where "res = Inl (cip_error st)" "ao' = ao"
  | (get) i a v where "s = ServiceGetAttributeSingle" "get_attribute_single ao i a = Inr v"
      "res = Inr v" "ao' = ao"
  | (set) i a where "s = ServiceSetAttributeSingle"
      "set_attribute_single ao i a d = (None, ao')" "res = Inr []"
proof (cases "parse_instance p")
  case (Inl e)
  then show ?thesis using assms attribute_errors(3) error by (fastforce simp: assembly_handle_def)
next
  case (Inr q)
  obtain i rest where q: "parse_instance p = Inr (i, rest)" using Inr by (cases q) simp
  show ?thesis
  proof (cases "parse_attribute rest")
    case (Inl e)
    then show ?thesis
      using assms q attribute_errors(4) error by (fastforce simp: assembly_handle_def)
  next
    case (Inr a)
    note parsed = q Inr
    consider "a \<noteq> 0" "s = ServiceGetAttributeSingle" | "a \<noteq> 0" "s = ServiceSetAttributeSingle"
      | "a = 0 \<or> s \<noteq> ServiceGetAttributeSingle \<and> s \<noteq> ServiceSetAttributeSingle" by blast
    then show ?thesis
    proof cases
      case 1
      then have "res = get_attribute_single ao i a" "ao' = ao"
        using assms parsed by (auto simp: assembly_handle_def)
      then show ?thesis
        using 1 attribute_errors(1) [of ao i a] error get by (cases res) metis+
    next
      case 2
      obtain r ao2 where set': "set_attribute_single ao i a d = (r, ao2)" by fastforce
      then have "res = (case r of Some e \<Rightarrow> Inl e | None \<Rightarrow> Inr [])" "ao' = ao2"
        using 2 assms parsed by (auto simp: assembly_handle_def split: option.splits)
      note res = this
      show ?thesis
      proof (cases r)
        case None
        with res 2 set' show ?thesis by (intro set) simp_all
      next
        case (Some e)
        obtain st where "e = cip_error st"
          using attribute_errors(2) set' Some by blast
        moreover have "ao2 = ao" using set_attribute_frame set' Some by blast
        ultimately show ?thesis using res Some by (intro error) simp_all
      qed
    next
      case 3
      then have "\<exists>st. res = Inl (cip_error st) \<and> ao' = ao"
        using assms parsed by (auto simp: assembly_handle_def split: if_splits)
      then show ?thesis using error by blast
    qed
  qed
qed

interpretation assembly_obj: cip_object assembly_handle "assembly_inv sizes" for sizes
proof unfold_locales
  fix w :: assembly_state and service path data
  obtain res w' where h: "assembly_handle w service path data = (res, w')" by fastforce
  show "assembly_inv sizes (snd (assembly_handle w service path data))"
    if "assembly_inv sizes w"
    using h that by (auto elim!: assembly_handle_cases dest: set_attribute_inv)
  show "snd (assembly_handle w service path data) = w"
    if "fst (assembly_handle w service path data) = Inl e" for e
    using h that by (auto elim!: assembly_handle_cases)
  show "length ext < 256"
    if "fst (assembly_handle w service path data) = Inl (CipError st ext)" for st ext
    using h that by (auto simp: cip_error_def elim!: assembly_handle_cases)
qed

section \<open>Requests by path\<close>

lemma parse_instance_segment [simp]:
  "parse_instance (segment 0x24 i @ rest) = Inr (ucast i, rest)"
proof (cases "i \<le> 0xFF")
  case True
  then show ?thesis by (simp add: segment_small parse_instance_def ucast_u8_small)
next
  case False
  have "get_u16 (take 2 (le16 i @ rest)) = i" by simp
  then show ?thesis using False by (simp add: segment_large parse_instance_def)
qed

lemma parse_attribute_segment [simp]: "parse_attribute (segment 0x30 a) = Inr a"
proof (cases "a \<le> 0xFF")
  case True
  then show ?thesis by (simp add: segment_small parse_attribute_def ucast_u8_small)
next
  case False
  have "get_u16 (take 2 (le16 a)) = a" by simp
  then show ?thesis using False by (simp add: segment_large parse_attribute_def)
qed

lemma assembly_handle_path:
  assumes "a \<noteq> 0"
  shows "assembly_handle ao ServiceGetAttributeSingle (segment 0x24 i @ segment 0x30 a) d =
           (get_attribute_single ao (ucast i) a, ao)"
    and "assembly_handle ao ServiceSetAttributeSingle (segment 0x24 i @ segment 0x30 a) d =
           (case set_attribute_single ao (ucast i) a d of
              (Some e, ao') \<Rightarrow> (Inl e, ao') | (None, ao') \<Rightarrow> (Inr [], ao'))"
  using assms by (simp_all add: assembly_handle_def)

section \<open>Abstract view\<close>

text \<open>
  What a client sees: a partial map from instance identifiers to data.  Two instances alias when
  they share an array.
\<close>

definition assembly_view :: "assembly_state \<Rightarrow> u32 \<rightharpoonup> bytes" where
  "assembly_view ao i = map_option (\<lambda>inst. as_heap ao (ai_data inst)) (as_instances ao i)"

definition no_alias :: "assembly_state \<Rightarrow> u32 \<Rightarrow> bool" where
  "no_alias ao i \<longleftrightarrow>
     (\<forall>j inst inst'. j \<noteq> i \<longrightarrow> as_instances ao i = Some inst \<longrightarrow> as_instances ao j = Some inst' \<longrightarrow>
        ai_data inst \<noteq> ai_data inst')"

text \<open>The operation on the abstract map: only data of the old size is accepted.\<close>

definition view_set :: "(u32 \<rightharpoonup> bytes) \<Rightarrow> u32 \<Rightarrow> bytes \<Rightarrow> (u32 \<rightharpoonup> bytes)" where
  "view_set m i d = (case m i of
     Some old \<Rightarrow> if length d = length old then m(i \<mapsto> d) else m
   | None \<Rightarrow> m)"

lemma get_attribute_view:
  "get_attribute_single ao i 3 =
     (case assembly_view ao i of None \<Rightarrow> Inl (cip_error StatusObjectDoesNotExist) | Some d \<Rightarrow> Inr d)"
  by (simp add: get_attribute_single_def assembly_view_def split: option.split)

lemma set_attribute_view:
  assumes "no_alias ao i" and "set_attribute_single ao i 3 d = (e, ao')"
  shows "assembly_view ao' = view_set (assembly_view ao) i d"
proof (rule ext)
  fix j
  show "assembly_view ao' j = view_set (assembly_view ao) i d j"
  proof (cases "as_instances ao i")
    case None
    then show ?thesis
      using assms by (simp add: set_attribute_single_def assembly_view_def view_set_def)
  next
    case (Some inst)
    have "j \<noteq> i \<Longrightarrow> as_instances ao j = Some inst' \<Longrightarrow> ai_data inst' \<noteq> ai_data inst" for inst'
      using assms(1) Some by (auto simp: no_alias_def)
    then show ?thesis
      using assms(2) Some
      by (cases "as_instances ao j")
        (auto simp: set_attribute_single_def assembly_view_def view_set_def split: if_splits)
  qed
qed

lemma set_then_get:
  assumes "set_attribute_single ao i 3 d = (None, ao')"
  shows "get_attribute_single ao' i 3 = Inr d"
  using assms
  by (auto simp: set_attribute_single_def get_attribute_single_def split: option.splits if_splits)

section \<open>Properties\<close>

text \<open>
  C7: by its paths, the object is a map from instances to data of fixed size, as long as the
  addressed instance shares its array with no other: a Set request for attribute 3 updates
  exactly that entry, and only with data of the old length; a Get request returns the entry.
\<close>

theorem assembly_refines_map:
  assumes "no_alias ao (ucast i)"
  shows "assembly_view (snd (assembly_handle ao ServiceSetAttributeSingle
             (add_attribute (add_instance new_path i) 3) d)) =
           view_set (assembly_view ao) (ucast i) d \<and>
         fst (assembly_handle ao ServiceGetAttributeSingle
             (add_attribute (add_instance new_path i) 3) x) =
           (case assembly_view ao (ucast i) of
              None \<Rightarrow> Inl (cip_error StatusObjectDoesNotExist) | Some v \<Rightarrow> Inr v)"
proof -
  obtain e ao' where set': "set_attribute_single ao (ucast i) 3 d = (e, ao')" by fastforce
  have "snd (case e of Some e \<Rightarrow> (Inl e, ao') | None \<Rightarrow> (Inr [], ao')) = ao'"
    by (simp split: option.split)
  then show ?thesis
    using set_attribute_view [OF assms set'] set'
    by (simp add: new_path_def add_segments assembly_handle_path [simplified] get_attribute_view
        split: option.splits)
qed

theorem assembly_refines_map_witness:
  "assembly_view (snd (assembly_handle
       (register_assembly (new_assembly_object (\<lambda>_. [0, 0])) 100 7) ServiceSetAttributeSingle
       (add_attribute (add_instance new_path 100) 3) [1, 2])) 100 = Some [1, 2]"
proof -
  let ?ao = "register_assembly (new_assembly_object (\<lambda>_. [0, 0])) 100 7"
  have "no_alias ?ao (ucast (100 :: u16))"
    by (simp add: no_alias_def register_assembly_def new_assembly_object_def)
  from assembly_refines_map [OF this, of "[1, 2]"] show ?thesis
    by (simp add: view_set_def assembly_view_def register_assembly_def new_assembly_object_def)
qed

text \<open>
  Aliasing.  When two instances were registered with the same slice, data written to one
  is what the other returns from then on.
\<close>

theorem assembly_shared_array:
  assumes "as_instances ao i = Some \<lparr>ai_id = i, ai_data = a\<rparr>"
    and "as_instances ao j = Some \<lparr>ai_id = j, ai_data = a\<rparr>"
    and "length d = length (as_heap ao a)"
  shows "get_attribute_single (snd (set_attribute_single ao i 3 d)) j 3 = Inr d"
  using assms by (simp add: set_attribute_single_def get_attribute_single_def)

theorem assembly_shared_array_witness:
  "get_attribute_single
     (snd (set_attribute_single
        (register_assembly (register_assembly (new_assembly_object (\<lambda>_. [0])) 100 7) 150 7)
        100 3 [5])) 150 3 = Inr [5]"
  by (rule assembly_shared_array [where a = 7])
    (simp_all add: register_assembly_def new_assembly_object_def)

text \<open>
  No sequence of requests, well-formed or not, changes the length of any array, the set of
  instances or their identifiers.
\<close>

theorem assembly_sizes_invariant:
  fixes reqs :: "(u8 \<times> cip_path \<times> bytes) list"
  defines "run \<equiv> \<lambda>ao. fold (\<lambda>(s, p, d) w. snd (assembly_handle w s p d)) reqs ao"
  shows "length (as_heap (run ao) a) = length (as_heap ao a) \<and>
         as_instances (run ao) = as_instances ao"
proof -
  have step: "as_instances (snd (assembly_handle w s p d)) = as_instances w" for w s p d
  proof -
    obtain res w' where h: "assembly_handle w s p d = (res, w')" by fastforce
    then show ?thesis by (auto elim!: assembly_handle_cases dest: set_attribute_instances)
  qed
  have inst: "as_instances (fold (\<lambda>(s, p, d) w. snd (assembly_handle w s p d)) rs w) = as_instances w"
    for rs w by (induction rs arbitrary: w) (auto simp: step)
  have len: "length (as_heap (snd (assembly_handle w s p d)) b) = length (as_heap w b)" for w s p d b
  proof -
    obtain res w' where h: "assembly_handle w s p d = (res, w')" by fastforce
    then show ?thesis
      by (auto elim!: assembly_handle_cases simp: set_attribute_single_def
          split: option.splits if_splits)
  qed
  have "length (as_heap (fold (\<lambda>(s, p, d) w. snd (assembly_handle w s p d)) rs w) b) =
      length (as_heap w b)" for rs w b by (induction rs arbitrary: w) (auto simp: len)
  with inst show ?thesis by (simp add: run_def)
qed

end
