(* ===== verification/Connmgr.thy ===== *)
theory Connmgr
  imports Cip_Router
begin

text \<open>
  The Connection Manager (class 0x06), \<open>pkg/objects/connmgr\<close>: Forward_Open, Large_Forward_Open and
  Forward_Close.  The requests of the two opens differ only in the width of the network
  connection parameters, so their record is polymorphic in them; the two responses have the
  same fields.
\<close>

definition ServiceForwardClose :: u8 where [simp]: "ServiceForwardClose = 0x4E"
definition ServiceForwardOpen :: u8 where [simp]: "ServiceForwardOpen = 0x54"
definition ServiceLargeForwardOpen :: u8 where [simp]: "ServiceLargeForwardOpen = 0x5B"

record connection =
  cn_ot_id :: u32
  cn_to_id :: u32

record connection_manager =
  cm_connections :: "u32 \<rightharpoonup> connection"
  cm_next_conn_id :: u32

definition new_connection_manager :: connection_manager where
  "new_connection_manager = \<lparr>cm_connections = Map.empty, cm_next_conn_id = 0x80000000\<rparr>"

record 'p forward_open_request =
  fo_priority_time_tick :: u8
  fo_timeout_ticks :: u8
  fo_ot_connection_id :: u32
  fo_to_connection_id :: u32
  fo_connection_serial :: u16
  fo_vendor_id :: u16
  fo_originator_serial :: u32
  fo_timeout_multiplier :: u8
  fo_reserved :: bytes
  fo_ot_rpi :: u32
  fo_ot_params :: 'p
  fo_to_rpi :: u32
  fo_to_params :: 'p
  fo_transport_trigger :: u8
  fo_path_size :: u8
  fo_path :: bytes

text \<open>The reads of both handlers, field by field, up to the connection path.\<close>

definition forward_open_read :: "'p reader \<Rightarrow> 'p forward_open_request reader" where
  "forward_open_read read_params =
     rd_bind read_u8 (\<lambda>priority.
     rd_bind read_u8 (\<lambda>ticks.
     rd_bind read_u32 (\<lambda>otID.
     rd_bind read_u32 (\<lambda>toID.
     rd_bind read_u16 (\<lambda>serial.
     rd_bind read_u16 (\<lambda>vendor.
     rd_bind read_u32 (\<lambda>originator.
     rd_bind read_u8 (\<lambda>mult.
     rd_bind (read_full 3) (\<lambda>reserved.
     rd_bind read_u32 (\<lambda>otRPI.
     rd_bind read_params (\<lambda>otParams.
     rd_bind read_u32 (\<lambda>toRPI.
     rd_bind read_params (\<lambda>toParams.
     rd_bind read_u8 (\<lambda>trigger.
     rd_bind read_u8 (\<lambda>pathSize.
     rd_bind (read_some (unat pathSize * 2)) (\<lambda>path.
     rd_return
       \<lparr>fo_priority_time_tick = priority, fo_timeout_ticks = ticks,
        fo_ot_connection_id = otID, fo_to_connection_id = toID,
        fo_connection_serial = serial, fo_vendor_id = vendor,
        fo_originator_serial = originator, fo_timeout_multiplier = mult,
        fo_reserved = reserved, fo_ot_rpi = otRPI, fo_ot_params = otParams,
        fo_to_rpi = toRPI, fo_to_params = toParams, fo_transport_trigger = trigger,
        fo_path_size = pathSize, fo_path = path\<rparr>))))))))))))))))"

record forward_open_response =
  fr_ot_connection_id :: u32
  fr_to_connection_id :: u32
  fr_connection_serial :: u16
  fr_vendor_id :: u16
  fr_originator_serial :: u32
  fr_ot_api :: u32
  fr_to_api :: u32
  fr_reply_size :: u8
  fr_reserved :: u8

definition forward_open_response_bytes :: "forward_open_response \<Rightarrow> bytes" where
  "forward_open_response_bytes r =
     le32 (fr_ot_connection_id r) @ le32 (fr_to_connection_id r) @
     le16 (fr_connection_serial r) @ le16 (fr_vendor_id r) @ le32 (fr_originator_serial r) @
     le32 (fr_ot_api r) @ le32 (fr_to_api r) @ le8 (fr_reply_size r) @ le8 (fr_reserved r)"

type_synonym large_forward_open_request = "u32 forward_open_request"
type_synonym large_forward_open_response = forward_open_response

text \<open>The part of the two open handlers under the lock, and the response.\<close>

definition open_connection ::
  "connection_manager \<Rightarrow> 'p forward_open_request \<Rightarrow> bytes \<times> connection_manager" where
  "open_connection cm req =
     (let myConnID = cm_next_conn_id cm + 1;
          conn = \<lparr>cn_ot_id = fo_ot_connection_id req, cn_to_id = myConnID\<rparr>;
          cm' = \<lparr>cm_connections = (cm_connections cm)(myConnID \<mapsto> conn),
                 cm_next_conn_id = myConnID\<rparr>;
          resp = \<lparr>fr_ot_connection_id = fo_ot_connection_id req,
                  fr_to_connection_id = myConnID,
                  fr_connection_serial = fo_connection_serial req,
                  fr_vendor_id = fo_vendor_id req,
                  fr_originator_serial = fo_originator_serial req,
                  fr_ot_api = fo_ot_rpi req, fr_to_api = fo_to_rpi req,
                  fr_reply_size = 0, fr_reserved = 0\<rparr>
      in (forward_open_response_bytes resp, cm'))"

definition handle_forward_open ::
  "connection_manager \<Rightarrow> bytes \<Rightarrow> (go_error + bytes) \<times> connection_manager" where
  "handle_forward_open cm reqData =
     (case forward_open_read read_u16 reqData of
        Inl e \<Rightarrow> (Inl e, cm)
      | Inr (req, _) \<Rightarrow> (let (resp, cm') = open_connection cm req in (Inr resp, cm')))"

definition handle_large_forward_open ::
  "connection_manager \<Rightarrow> bytes \<Rightarrow> (go_error + bytes) \<times> connection_manager" where
  "handle_large_forward_open cm reqData =
     (case forward_open_read read_u32 reqData of
        Inl e \<Rightarrow> (Inl e, cm)
      | Inr (req, _) \<Rightarrow> (let (resp, cm') = open_connection cm req in (Inr resp, cm')))"

record forward_close_request =
  fc_priority_time_tick :: u8
  fc_timeout_ticks :: u8
  fc_connection_serial :: u16
  fc_vendor_id :: u16
  fc_originator_serial :: u32
  fc_path_size :: u8
  fc_reserved :: u8
  fc_path :: bytes

definition forward_close_read :: "forward_close_request reader" where
  "forward_close_read =
     rd_bind read_u8 (\<lambda>priority.
     rd_bind read_u8 (\<lambda>ticks.
     rd_bind read_u16 (\<lambda>serial.
     rd_bind read_u16 (\<lambda>vendor.
     rd_bind read_u32 (\<lambda>originator.
     rd_bind read_u8 (\<lambda>pathSize.
     rd_bind read_u8 (\<lambda>reserved.
     rd_bind (read_some (unat pathSize * 2)) (\<lambda>path.
     rd_return
       \<lparr>fc_priority_time_tick = priority, fc_timeout_ticks = ticks,
        fc_connection_serial = serial, fc_vendor_id = vendor,
        fc_originator_serial = originator, fc_path_size = pathSize,
        fc_reserved = reserved, fc_path = path\<rparr>))))))))"

record forward_close_response =
  fd_connection_serial :: u16
  fd_vendor_id :: u16
  fd_originator_serial :: u32
  fd_reply_size :: u8
  fd_reserved :: u8

definition forward_close_response_bytes :: "forward_close_response \<Rightarrow> bytes" where
  [simp]: "forward_close_response_bytes r =
     le16 (fd_connection_serial r) @ le16 (fd_vendor_id r) @ le32 (fd_originator_serial r) @
     le8 (fd_reply_size r) @ le8 (fd_reserved r)"

definition handle_forward_close ::
  "connection_manager \<Rightarrow> bytes \<Rightarrow> (go_error + bytes) \<times> connection_manager" where
  "handle_forward_close cm reqData =
     (case forward_close_read reqData of
        Inl e \<Rightarrow> (Inl e, cm)
      | Inr (req, _) \<Rightarrow>
          (let resp = \<lparr>fd_connection_serial = fc_connection_serial req,
                        fd_vendor_id = fc_vendor_id req,
                        fd_originator_serial = fc_originator_serial req,
                        fd_reply_size = 0, fd_reserved = 0\<rparr>
           in (Inr (forward_close_response_bytes resp), cm)))"

definition connmgr_handle :: "connection_manager handler" where
  "connmgr_handle cm service path data =
     (if service = ServiceForwardOpen then handle_forward_open cm data
      else if service = ServiceLargeForwardOpen then handle_large_forward_open cm data
      else if service = ServiceForwardClose then handle_forward_close cm data
      else (Inl (cip_error StatusServiceNotSupported), cm))"

section \<open>The request of the scanner\<close>

text \<open>
  \<open>encodeForwardOpen\<close> of \<open>cmd/scanner\<close>.  \<open>open_bytes\<close> is the same layout over any writer of the
  network connection parameters, without the path.
\<close>

definition encode_forward_open :: "u16 forward_open_request \<Rightarrow> bytes" where
  "encode_forward_open req =
     le8 (fo_priority_time_tick req) @ le8 (fo_timeout_ticks req) @
     le32 (fo_ot_connection_id req) @ le32 (fo_to_connection_id req) @
     le16 (fo_connection_serial req) @ le16 (fo_vendor_id req) @
     le32 (fo_originator_serial req) @ le8 (fo_timeout_multiplier req) @ fo_reserved req @
     le32 (fo_ot_rpi req) @ le16 (fo_ot_params req) @ le32 (fo_to_rpi req) @
     le16 (fo_to_params req) @ le8 (fo_transport_trigger req) @ le8 (fo_path_size req) @
     fo_path req"

definition open_bytes :: "('p \<Rightarrow> bytes) \<Rightarrow> 'p forward_open_request \<Rightarrow> bytes" where
  "open_bytes penc req =
     le8 (fo_priority_time_tick req) @ le8 (fo_timeout_ticks req) @
     le32 (fo_ot_connection_id req) @ le32 (fo_to_connection_id req) @
     le16 (fo_connection_serial req) @ le16 (fo_vendor_id req) @
     le32 (fo_originator_serial req) @ le8 (fo_timeout_multiplier req) @ fo_reserved req @
     le32 (fo_ot_rpi req) @ penc (fo_ot_params req) @ le32 (fo_to_rpi req) @
     penc (fo_to_params req) @ le8 (fo_transport_trigger req) @ le8 (fo_path_size req)"

lemma encode_forward_open_bytes: "encode_forward_open req = open_bytes le16 req @ fo_path req"
  by (simp add: encode_forward_open_def open_bytes_def)

text \<open>Both open requests, over the format of their parameters.\<close>

locale open_format = codec penc pdec "\<lambda>_. True"
  for penc :: "'p \<Rightarrow> bytes" and pdec :: "'p reader"
begin

lemma open_read:
  assumes "length (fo_reserved req) = 3"
  shows "forward_open_read pdec (open_bytes penc req @ r) =
    (case read_some (unat (fo_path_size req) * 2) r of
       Inl e \<Rightarrow> Inl e
     | Inr (path, rest) \<Rightarrow> Inr (req\<lparr>fo_path := path\<rparr>, rest))"
  using assms
  by (simp add: forward_open_read_def open_bytes_def rd_bind_def codec_simps dec_enc
      split: sum.split)

lemma open_read_path:
  assumes "length (fo_reserved req) = 3" and "fo_path req \<noteq> []"
    and "length (fo_path req) = unat (fo_path_size req) * 2"
  shows "forward_open_read pdec (open_bytes penc req @ fo_path req @ r) = Inr (req, r)"
  using assms by (simp add: open_read read_some_def)

end

interpretation open16: open_format le16 read_u16
  by unfold_locales

interpretation open32: open_format le32 read_u32
  by unfold_locales

lemma handle_open_encoded:
  assumes "length (fo_reserved req) = 3" and "fo_path req \<noteq> []"
    and "length (fo_path req) = unat (fo_path_size req) * 2"
  shows "connmgr_handle cm ServiceForwardOpen path (encode_forward_open req) =
    (Inr (fst (open_connection cm req)), snd (open_connection cm req))"
proof -
  have "forward_open_read read_u16 (encode_forward_open req) = Inr (req, [])"
    using open16.open_read_path [OF assms, of "[]"] by (simp add: encode_forward_open_bytes)
  then show ?thesis
    by (simp add: connmgr_handle_def handle_forward_open_def split: prod.split)
qed

section \<open>The object contract\<close>

text \<open>
  The invariant: every connection is found under its T->O identifier.
\<close>

definition connmgr_inv :: "connection_manager \<Rightarrow> bool" where
  "connmgr_inv cm \<longleftrightarrow> (\<forall>i c. cm_connections cm i = Some c \<longrightarrow> cn_to_id c = i)"

lemma connmgr_inv_new: "connmgr_inv new_connection_manager"
  by (simp add: connmgr_inv_def new_connection_manager_def)

lemma io_error_open:
  "io_error (forward_open_read read_u16 bs)" "io_error (forward_open_read read_u32 bs)"
  "io_error (forward_close_read bs)"
  unfolding forward_open_read_def forward_close_read_def
  by (intro io_error_bind io_error_basic)+

text \<open>How a request is answered: an error without effect, an open, or a close.\<close>

lemma connmgr_handle_cases:
  assumes "connmgr_handle cm s p d = (res, cm')"
  obtains (error) e where "res = Inl e" "cm' = cm" "\<And>st ext. e = CipError st ext \<Longrightarrow> ext = []"
  | (open16) req r where "s = ServiceForwardOpen"
      "forward_open_read read_u16 d = Inr (req, r)"
      "res = Inr (fst (open_connection cm req))" "cm' = snd (open_connection cm req)"
  | (open32) req r where "s = ServiceLargeForwardOpen"
      "forward_open_read read_u32 d = Inr (req, r)"
      "res = Inr (fst (open_connection cm req))" "cm' = snd (open_connection cm req)"
  | (close) req r where "s = ServiceForwardClose"
      "forward_close_read d = Inr (req, r)" "cm' = cm" "\<exists>b. res = Inr b"
proof -
  consider "s = ServiceForwardOpen" | "s = ServiceLargeForwardOpen" | "s = ServiceForwardClose"
    | "s \<noteq> ServiceForwardOpen" "s \<noteq> ServiceLargeForwardOpen" "s \<noteq> ServiceForwardClose" by blast
  then show thesis
  proof cases
    case 1
    then show thesis
      using assms io_error_open(1) [of d] error open16
      by (auto simp: connmgr_handle_def handle_forward_open_def io_error_def split: sum.splits
          prod.splits)
  next
    case 2
    then show thesis
      using assms io_error_open(2) [of d] error open32
      by (auto simp: connmgr_handle_def handle_large_forward_open_def io_error_def
          split: sum.splits prod.splits)
  next
    case 3
    then show thesis
      using assms io_error_open(3) [of d] error close
      by (auto simp: connmgr_handle_def handle_forward_close_def io_error_def split: sum.splits
          prod.splits)
  next
    case 4
    then show thesis
      using assms error by (auto simp: connmgr_handle_def cip_error_def)
  qed
qed

lemma open_connection_inv: "connmgr_inv cm \<Longrightarrow> connmgr_inv (snd (open_connection cm req))"
  by (simp add: connmgr_inv_def open_connection_def Let_def)

interpretation connmgr_obj: cip_object connmgr_handle connmgr_inv
proof unfold_locales
  fix w :: connection_manager and service path data
  obtain res w' where h: "connmgr_handle w service path data = (res, w')" by fastforce
  show "connmgr_inv (snd (connmgr_handle w service path data))" if "connmgr_inv w"
    using h that by (auto elim!: connmgr_handle_cases intro: open_connection_inv)
  show "snd (connmgr_handle w service path data) = w"
    if "fst (connmgr_handle w service path data) = Inl e" for e
    using h that by (auto elim!: connmgr_handle_cases)
  show "length ext < 256"
    if "fst (connmgr_handle w service path data) = Inl (CipError st ext)" for st ext
    using h that by (auto elim!: connmgr_handle_cases)
qed

section \<open>Connection identifiers\<close>

text \<open>
  The state after n opens: the identifiers handed out are the n successors of 0x80000000, and
  each is in the table.
\<close>

definition conn_id :: "nat \<Rightarrow> u32" where
  "conn_id k = 0x80000000 + word_of_nat k"

definition after_opens :: "nat \<Rightarrow> connection_manager \<Rightarrow> bool" where
  "after_opens n cm \<longleftrightarrow>
     cm_next_conn_id cm = conn_id n \<and> dom (cm_connections cm) = conn_id ` {1..n}"

lemma conn_id_Suc: "conn_id n + 1 = conn_id (Suc n)"
  by (simp add: conn_id_def)

lemma conn_id_inj:
  assumes "n < 2 ^ 32"
  shows "inj_on conn_id {1..n}"
proof (rule inj_onI)
  fix j k assume jk: "j \<in> {1..n}" "k \<in> {1..n}" and "conn_id j = conn_id k"
  then have "unat (word_of_nat j :: u32) = unat (word_of_nat k :: u32)"
    by (simp add: conn_id_def)
  then show "j = k" using jk assms by (simp add: unat_of_nat)
qed

lemma after_opens_new: "after_opens 0 new_connection_manager"
  by (simp add: after_opens_def new_connection_manager_def conn_id_def)

lemma after_opens_open:
  "after_opens n cm \<Longrightarrow> after_opens (Suc n) (snd (open_connection cm req))"
  by (auto simp: after_opens_def open_connection_def Let_def conn_id_Suc atLeastAtMostSuc_conv)

text \<open>The requests of a run that opened a connection.\<close>

definition opened :: "(u8 \<times> cip_path \<times> bytes) \<times> (go_error + bytes) \<Rightarrow> bool" where
  "opened q \<longleftrightarrow> fst (fst q) \<in> {ServiceForwardOpen, ServiceLargeForwardOpen} \<and> \<not> isl (snd q)"

lemma connmgr_handle_opens:
  assumes "connmgr_handle cm s p d = (res, cm')" and "after_opens n cm"
  shows "after_opens (if opened ((s, p, d), res) then Suc n else n) cm'"
  using assms by (cases rule: connmgr_handle_cases) (auto simp: opened_def after_opens_open)

lemma serve_opens:
  "serve connmgr_handle cm reqs = (ress, cm') \<Longrightarrow> after_opens n cm \<Longrightarrow>
   after_opens (n + length (filter opened (zip reqs ress))) cm'"
proof (induction reqs arbitrary: cm ress n)
  case Nil
  then show ?case by simp
next
  case (Cons q reqs)
  obtain s p d where q: "q = (s, p, d)" by (cases q)
  obtain res cm1 where h: "connmgr_handle cm s p d = (res, cm1)" by fastforce
  obtain ress' where r: "serve connmgr_handle cm1 reqs = (ress', cm')" "ress = res # ress'"
    using Cons.prems(1) q h by (auto split: prod.splits)
  show ?case
    using Cons.IH [OF r(1) connmgr_handle_opens [OF h Cons.prems(2)]] q r(2) by auto
qed

section \<open>Properties\<close>

text \<open>
  A Forward_Open request as the scanner encodes it is accepted: the response echoes the
  originator's identifiers and the requested packet intervals, hands out the next identifier
  for the direction T->O, and the connection is entered in the table under that identifier.
\<close>

theorem forward_open_accepted:
  assumes "length (fo_reserved req) = 3" and "fo_path req \<noteq> []"
    and "length (fo_path req) = unat (fo_path_size req) * 2"
  shows "connmgr_handle cm ServiceForwardOpen path (encode_forward_open req) =
    (Inr (le32 (fo_ot_connection_id req) @ le32 (cm_next_conn_id cm + 1) @
          le16 (fo_connection_serial req) @ le16 (fo_vendor_id req) @
          le32 (fo_originator_serial req) @ le32 (fo_ot_rpi req) @ le32 (fo_to_rpi req) @ [0, 0]),
     \<lparr>cm_connections = (cm_connections cm)(cm_next_conn_id cm + 1 \<mapsto>
         \<lparr>cn_ot_id = fo_ot_connection_id req, cn_to_id = cm_next_conn_id cm + 1\<rparr>),
      cm_next_conn_id = cm_next_conn_id cm + 1\<rparr>)"
  unfolding handle_open_encoded [OF assms]
  by (simp add: open_connection_def Let_def forward_open_response_bytes_def le8_def)

theorem forward_open_accepted_witness:
  "\<exists>cm'. connmgr_handle new_connection_manager ServiceForwardOpen []
     (encode_forward_open
        \<lparr>fo_priority_time_tick = 0x0A, fo_timeout_ticks = 249, fo_ot_connection_id = 0x10000001,
         fo_to_connection_id = 0, fo_connection_serial = 1234, fo_vendor_id = 0x1337,
         fo_originator_serial = 5678, fo_timeout_multiplier = 1, fo_reserved = [0, 0, 0],
         fo_ot_rpi = 100000, fo_ot_params = 0x4224, fo_to_rpi = 100000, fo_to_params = 0x4224,
         fo_transport_trigger = 1, fo_path_size = 3,
         fo_path = [0x20, 4, 0x24, 150, 0x2C, 100]\<rparr>) =
     (Inr (le32 0x10000001 @ le32 0x80000001 @ le16 1234 @ le16 0x1337 @ le32 5678 @
           le32 100000 @ le32 100000 @ [0, 0]), cm')"
  by (subst forward_open_accepted) (simp_all add: new_connection_manager_def)

text \<open>
  The size of the connection path is not enforced.  When the request ends within the path,
  the missing bytes are taken as zeros and the connection is opened as if they had been sent;
  when it ends before the path, the request fails, even if the announced size is zero.  The
  Large_Forward_Open request behaves alike.
\<close>

theorem forward_open_path_unchecked:
  assumes "length (fo_reserved req) = 3" and "length sent \<le> unat (fo_path_size req) * 2"
  defines "padded \<equiv> sent @ replicate (unat (fo_path_size req) * 2 - length sent) 0"
  shows "connmgr_handle cm ServiceForwardOpen path (encode_forward_open (req\<lparr>fo_path := sent\<rparr>)) =
    (if sent = [] then (Inl EOF, cm)
     else connmgr_handle cm ServiceForwardOpen path
            (encode_forward_open (req\<lparr>fo_path := padded\<rparr>)))"
proof -
  have b: "open_bytes le16 (req\<lparr>fo_path := x\<rparr>) = open_bytes le16 req" for x
    by (simp add: open_bytes_def)
  show ?thesis
    using assms(1, 2)
    by (simp add: connmgr_handle_def handle_forward_open_def encode_forward_open_bytes b
        open16.open_read read_some_def padded_def)
qed

theorem forward_open_path_unchecked_witness:
  fixes cm :: connection_manager
  defines "req \<equiv>
    \<lparr>fo_priority_time_tick = 0x0A, fo_timeout_ticks = 249, fo_ot_connection_id = 7,
     fo_to_connection_id = 0, fo_connection_serial = 1, fo_vendor_id = 2,
     fo_originator_serial = 3, fo_timeout_multiplier = 1, fo_reserved = [0, 0, 0],
     fo_ot_rpi = 4, fo_ot_params = 5 :: u16, fo_to_rpi = 6, fo_to_params = 7,
     fo_transport_trigger = 1, fo_path_size = 2, fo_path = []\<rparr>"
  shows "connmgr_handle new_connection_manager ServiceForwardOpen []
           (encode_forward_open (req\<lparr>fo_path := [0x20]\<rparr>)) =
         connmgr_handle new_connection_manager ServiceForwardOpen []
           (encode_forward_open (req\<lparr>fo_path := [0x20, 0, 0, 0]\<rparr>))"
proof -
  have r: "replicate 3 (0 :: byte) = [0, 0, 0]" by (simp add: numeral_3_eq_3)
  show ?thesis
    using forward_open_path_unchecked [of req "[0x20]" new_connection_manager "[]"]
    by (simp add: req_def r)
qed

text \<open>
  C8: every connection that was accepted stays in the table under an identifier of its own, in
  any run of requests with fewer than 2^32 accepted opens: the number of entries is the number
  of accepted opens, and the identifiers are the successors of 0x80000000.
\<close>

theorem connection_ids_fresh:
  assumes "serve connmgr_handle new_connection_manager reqs = (ress, cm)"
    and "length (filter opened (zip reqs ress)) < 2 ^ 32"
  shows "card (dom (cm_connections cm)) = length (filter opened (zip reqs ress)) \<and>
         dom (cm_connections cm) =
           (\<lambda>k. 0x80000000 + word_of_nat k) ` {1..length (filter opened (zip reqs ress))}"
proof -
  have id: "conn_id = (\<lambda>k. 0x80000000 + word_of_nat k)" by (simp add: fun_eq_iff conn_id_def)
  show ?thesis
    using serve_opens [OF assms(1) after_opens_new] card_image [OF conn_id_inj [OF assms(2)]]
    by (simp add: after_opens_def id)
qed

theorem connection_ids_fresh_witness:
  fixes req :: "u16 forward_open_request"
  defines "req \<equiv>
    \<lparr>fo_priority_time_tick = 0x0A, fo_timeout_ticks = 249, fo_ot_connection_id = 7,
     fo_to_connection_id = 0, fo_connection_serial = 1, fo_vendor_id = 2,
     fo_originator_serial = 3, fo_timeout_multiplier = 1, fo_reserved = [0, 0, 0],
     fo_ot_rpi = 4, fo_ot_params = 5, fo_to_rpi = 6, fo_to_params = 7,
     fo_transport_trigger = 1, fo_path_size = 1, fo_path = [0x20, 4]\<rparr>"
  shows "card (dom (cm_connections (snd (serve connmgr_handle new_connection_manager
     [(ServiceForwardOpen, [], encode_forward_open req), (ServiceForwardClose, [], []),
      (ServiceForwardOpen, [], encode_forward_open req)])))) = 2"
proof -
  let ?reqs = "[(ServiceForwardOpen, [], encode_forward_open req), (ServiceForwardClose, [], []),
      (ServiceForwardOpen, [], encode_forward_open req)]"
  have hopen: "connmgr_handle cm ServiceForwardOpen [] (encode_forward_open req) =
      (Inr (fst (open_connection cm req)), snd (open_connection cm req))" for cm
    by (rule handle_open_encoded) (simp_all add: req_def)
  have hclose: "connmgr_handle cm ServiceForwardClose [] [] = (Inl EOF, cm)" for cm
    by (simp add: connmgr_handle_def handle_forward_close_def forward_close_read_def rd_bind_def)
  obtain cm e b c where s: "serve connmgr_handle new_connection_manager ?reqs =
      ([Inr b, Inl e, Inr c], cm)"
    by (simp add: hopen hclose del: ServiceForwardOpen_def ServiceForwardClose_def)
  have "card (dom (cm_connections cm)) = 2"
    by (rule trans [OF conjunct1 [OF connection_ids_fresh [OF s]]]) (simp_all add: opened_def)
  then show ?thesis unfolding s by simp
qed

text \<open>
  Forward_Close never changes the table of connections: a request that can be read is
  confirmed with its serial numbers, whether or not such a connection exists, and nothing is
  removed.
\<close>

theorem forward_close_keeps_table:
  "snd (connmgr_handle cm ServiceForwardClose path data) = cm \<and>
   fst (connmgr_handle cm ServiceForwardClose path
     (le8 prio @ le8 ticks @ le16 serial @ le16 vendor @ le32 originator @ le8 words @ le8 0 @
      b # rest)) =
   Inr (le16 serial @ le16 vendor @ le32 originator @ [0, 0])"
  by (auto simp: connmgr_handle_def handle_forward_close_def forward_close_read_def rd_bind_def
      codec_simps read_some_def le8_def split: sum.splits)

end
