(* ===== verification/Adapter.thy ===== *)
theory Adapter
  imports Loopback Assembly Connmgr
begin

text \<open>
  The adapter, \<open>cmd/adapter/main.go\<close>: the assembly object and the connection manager behind one
  router, with up to two assemblies of 32 bytes registered from the command line, served by the
  server.  Here the interfaces of the components meet: both objects fulfil the contract of the
  router, so the server keeps their invariants for any input.
\<close>

datatype object_ref = AssemblyRef | ConnmgrRef

record device_state =
  dv_assembly :: assembly_state
  dv_connmgr :: connection_manager

definition device_handle :: "object_ref \<Rightarrow> device_state handler" where
  "device_handle ob dv service path data =
     (case ob of
        AssemblyRef \<Rightarrow>
          (let (res, ao) = assembly_handle (dv_assembly dv) service path data
           in (res, dv\<lparr>dv_assembly := ao\<rparr>))
      | ConnmgrRef \<Rightarrow>
          (let (res, cm) = connmgr_handle (dv_connmgr dv) service path data
           in (res, dv\<lparr>dv_connmgr := cm\<rparr>)))"

definition adapter_router :: "object_ref router" where
  "adapter_router =
     register_object (register_object new_message_router ClassAssembly AssemblyRef)
       ClassConnectionMgr ConnmgrRef"

text \<open>
  \<open>strconv.Atoi\<close> with its error ignored: the decimal number with an optional sign, clamped to 64
  bits when it is too large, and 0 for any other string.
\<close>

definition is_digit :: "char \<Rightarrow> bool" where
  "is_digit c \<longleftrightarrow> of_char c \<ge> (48 :: nat) \<and> of_char c \<le> (57 :: nat)"

definition atoi :: "string \<Rightarrow> int" where
  "atoi s =
     (let ds = (if s \<noteq> [] \<and> (hd s = CHR ''-'' \<or> hd s = CHR ''+'') then tl s else s);
          n = foldl (\<lambda>a c. a * 10 + (of_char c - 48)) 0 ds
      in if ds = [] \<or> \<not> list_all is_digit ds then 0
         else if hd s = CHR ''-'' then max (- (2 ^ 63)) (- n) else min (2 ^ 63 - 1) n)"

text \<open>
  One of the two options: what stands before the first equals sign is the instance; the data is
  a fresh slice of 32 zero bytes.
\<close>

definition adapter_option :: "string \<Rightarrow> address \<Rightarrow> assembly_state \<Rightarrow> assembly_state" where
  "adapter_option opt a ao =
     (if opt \<noteq> [] then
        register_assembly (ao\<lparr>as_heap := (as_heap ao)(a := replicate 32 0)\<rparr>)
          (word_of_int (atoi (takeWhile (\<lambda>c. c \<noteq> CHR ''='') opt))) a
      else ao)"

definition adapter_device :: "string \<Rightarrow> string \<Rightarrow> device_state" where
  "adapter_device inputAssembly outputAssembly =
     \<lparr>dv_assembly =
        adapter_option outputAssembly 1
          (adapter_option inputAssembly 0 (new_assembly_object (\<lambda>_. []))),
      dv_connmgr = new_connection_manager\<rparr>"

section \<open>The objects of the adapter\<close>

definition device_inv :: "(address \<Rightarrow> nat) \<Rightarrow> device_state \<Rightarrow> bool" where
  "device_inv sizes dv \<longleftrightarrow> assembly_inv sizes (dv_assembly dv) \<and> connmgr_inv (dv_connmgr dv)"

lemma device_handle_unfold:
  "device_handle AssemblyRef dv s p d =
     (fst (assembly_handle (dv_assembly dv) s p d),
      dv\<lparr>dv_assembly := snd (assembly_handle (dv_assembly dv) s p d)\<rparr>)"
  "device_handle ConnmgrRef dv s p d =
     (fst (connmgr_handle (dv_connmgr dv) s p d),
      dv\<lparr>dv_connmgr := snd (connmgr_handle (dv_connmgr dv) s p d)\<rparr>)"
  by (simp_all add: device_handle_def split: prod.split)

interpretation device: cip_objects device_handle "device_inv sizes" for sizes
proof unfold_locales
  fix ob dv s p d
  show "device_inv sizes (snd (device_handle ob dv s p d))" if "device_inv sizes dv"
    using that assembly_obj.handle_inv [of sizes "dv_assembly dv" s p d]
      connmgr_obj.handle_inv [of "dv_connmgr dv" s p d]
    by (cases ob) (simp_all add: device_handle_unfold device_inv_def)
  show "snd (device_handle ob dv s p d) = dv" if "fst (device_handle ob dv s p d) = Inl e" for e
    using that assembly_obj.error_frame [of "dv_assembly dv" s p d e]
      connmgr_obj.error_frame [of "dv_connmgr dv" s p d e]
    by (cases ob) (simp_all add: device_handle_unfold)
  show "length ext < 256" if "fst (device_handle ob dv s p d) = Inl (CipError st ext)" for st ext
    using that assembly_obj.ext_fits [of "dv_assembly dv" s p d st ext]
      connmgr_obj.ext_fits [of "dv_connmgr dv" s p d st ext]
    by (cases ob) (simp_all add: device_handle_unfold)
qed

lemma adapter_objects:
  "ro_objects adapter_router 4 = Some AssemblyRef"
  "ro_objects adapter_router 6 = Some ConnmgrRef"
  by (simp_all add: adapter_router_def register_object_def new_message_router_def)

lemma adapter_dispatch:
  "rq_path q = segment 0x20 4 @ rest \<Longrightarrow> dispatch device_handle adapter_router dv q =
     (let (res, ao) = assembly_handle (dv_assembly dv) (rq_service q) rest (rq_data q)
      in (Inr (object_response (rq_service q) res), dv\<lparr>dv_assembly := ao\<rparr>))"
  "rq_path q = segment 0x20 6 @ rest \<Longrightarrow> dispatch device_handle adapter_router dv q =
     (let (res, cm) = connmgr_handle (dv_connmgr dv) (rq_service q) rest (rq_data q)
      in (Inr (object_response (rq_service q) res), dv\<lparr>dv_connmgr := cm\<rparr>))"
  by (simp_all add: dispatch_object [where c = 4] dispatch_object [where c = 6] adapter_objects
      device_handle_unfold split: prod.split)

section \<open>The adapter after start\<close>

definition adapter_sizes :: "string \<Rightarrow> string \<Rightarrow> address \<Rightarrow> nat" where
  "adapter_sizes i out a = (if a = 0 \<and> i \<noteq> [] \<or> a = 1 \<and> out \<noteq> [] then 32 else 0)"

lemma adapter_device_inv: "device_inv (adapter_sizes i out) (adapter_device i out)"
  by (auto simp: device_inv_def adapter_device_def adapter_option_def connmgr_inv_new
      new_assembly_object_def assembly_inv_def adapter_sizes_def register_assembly_def)

lemma adapter_instances: "as_instances (dv_assembly (adapter_device i out)) =
    (let m = (if i \<noteq> [] then [word_of_int (atoi (takeWhile (\<lambda>c. c \<noteq> CHR ''='') i)) \<mapsto>
               \<lparr>ai_id = word_of_int (atoi (takeWhile (\<lambda>c. c \<noteq> CHR ''='') i)), ai_data = 0\<rparr>]
              else Map.empty)
     in if out \<noteq> [] then m(word_of_int (atoi (takeWhile (\<lambda>c. c \<noteq> CHR ''='') out)) \<mapsto>
               \<lparr>ai_id = word_of_int (atoi (takeWhile (\<lambda>c. c \<noteq> CHR ''='') out)), ai_data = 1\<rparr>)
        else m)"
  by (simp add: adapter_device_def adapter_option_def new_assembly_object_def
      register_assembly_def)

section \<open>Requests of a client\<close>

text \<open>Requests for an attribute of an assembly, in the bounds of a packet.\<close>

lemma object_response_data:
  "response_bytes (object_response s (Inr d)) = [s OR 0x80, 0, 0, 0] @ d"
  "rp_ext (object_response s (Inr d)) = []" "rp_ext_size (object_response s (Inr d)) = 0"
  "rp_status (object_response s (Inr d)) = 0" "rp_data (object_response s (Inr d)) = d"
  by (simp_all add: object_response_def empty_response_def response_bytes_def)

lemma assembly_request_client:
  assumes "rq_path q = build_path 4 i a" and "length (rq_data q) \<le> 4000"
  shows "client_request q" and "length (request_encode q) \<le> 4080"
    and "rq_path q = segment 0x20 4 @ (segment 0x24 i @ (if a \<noteq> 0 then segment 0x30 a else []))"
  using assms even_build_path [of 4 i a] build_path_length [of 4 i a]
  by (simp_all add: client_request_def request_encode_eq build_path_segments)

lemma adapter_set_request:
  assumes "as_instances (dv_assembly dv) (ucast i) = Some inst"
    and "length d = length (as_heap (dv_assembly dv) (ai_data inst))" and "length d \<le> 4000"
  shows "send_cip_request (loop_transport device_handle adapter_router)
      \<lparr>se_transport = idle dv, se_handle = s\<rparr>
      (new_set_attribute_single_request (build_path 4 i 3) d) =
    (Inr (object_response ServiceSetAttributeSingle (Inr [])),
     \<lparr>se_transport = idle (dv\<lparr>dv_assembly := (dv_assembly dv)
        \<lparr>as_heap := (as_heap (dv_assembly dv))(ai_data inst := d)\<rparr>\<rparr>), se_handle = s\<rparr>)"
proof -
  let ?q = "new_set_attribute_single_request (build_path 4 i 3) d"
  have q: "rq_path ?q = build_path 4 i 3" "length (rq_data ?q) \<le> 4000"
    using assms(3) by (simp_all add: new_set_attribute_single_request_def)
  note c = assembly_request_client [OF q]
  have "set_attribute_single (dv_assembly dv) (ucast i) 3 d =
      (None, (dv_assembly dv)\<lparr>as_heap := (as_heap (dv_assembly dv))(ai_data inst := d)\<rparr>)"
    using assms(1, 2) by (simp add: set_attribute_single_def)
  then have "assembly_handle (dv_assembly dv) (rq_service ?q) (segment 0x24 i @ segment 0x30 3)
        (rq_data ?q) =
      (Inr [], (dv_assembly dv)\<lparr>as_heap := (as_heap (dv_assembly dv))(ai_data inst := d)\<rparr>)"
    using assembly_handle_path(2) [of 3 "dv_assembly dv" i d]
    by (simp add: new_set_attribute_single_request_def)
  then have "dispatch device_handle adapter_router dv ?q =
      (Inr (object_response ServiceSetAttributeSingle (Inr [])), dv\<lparr>dv_assembly :=
        (dv_assembly dv)\<lparr>as_heap := (as_heap (dv_assembly dv))(ai_data inst := d)\<rparr>\<rparr>)"
    using adapter_dispatch(1) [OF c(3), of dv] by (simp add: new_set_attribute_single_request_def)
  from loop_cip_request [OF c(1, 2) this] show ?thesis
    by (simp add: object_response_data)
qed

lemma adapter_get_request:
  assumes "as_instances (dv_assembly dv) (ucast i) = Some inst"
    and "length (as_heap (dv_assembly dv) (ai_data inst)) \<le> 4000"
  shows "send_cip_request (loop_transport device_handle adapter_router)
      \<lparr>se_transport = idle dv, se_handle = s\<rparr>
      (new_get_attribute_single_request (build_path 4 i 3)) =
    (Inr (object_response ServiceGetAttributeSingle
       (Inr (as_heap (dv_assembly dv) (ai_data inst)))),
     \<lparr>se_transport = idle dv, se_handle = s\<rparr>)"
proof -
  let ?q = "new_get_attribute_single_request (build_path 4 i 3)"
  have q: "rq_path ?q = build_path 4 i 3" "length (rq_data ?q) \<le> 4000"
    by (simp_all add: new_get_attribute_single_request_def)
  note c = assembly_request_client [OF q]
  have "assembly_handle (dv_assembly dv) (rq_service ?q) (segment 0x24 i @ segment 0x30 3)
        (rq_data ?q) = (Inr (as_heap (dv_assembly dv) (ai_data inst)), dv_assembly dv)"
    using assembly_handle_path(1) [of 3 "dv_assembly dv" i "[]"] assms(1)
    by (simp add: new_get_attribute_single_request_def get_attribute_single_def)
  then have "dispatch device_handle adapter_router dv ?q =
      (Inr (object_response ServiceGetAttributeSingle
         (Inr (as_heap (dv_assembly dv) (ai_data inst)))), dv)"
    using adapter_dispatch(1) [OF c(3), of dv] by (simp add: new_get_attribute_single_request_def)
  from loop_cip_request [OF c(1, 2) this] show ?thesis
    using assms(2) by (simp add: object_response_data)
qed

section \<open>Properties\<close>

text \<open>
  Whatever bytes arrive on a connection to the adapter, and wherever the connection breaks,
  the assemblies keep their 32 bytes, the set of assemblies is unchanged, and every connection
  in the table is found under its own identifier.
\<close>

theorem adapter_invariant:
  fixes conn :: tcp_conn and i out :: string
  defines "dv \<equiv> fst (handle_connection device_handle adapter_router (adapter_device i out) conn)"
  shows "(\<forall>a. length (as_heap (dv_assembly dv) a) =
              length (as_heap (dv_assembly (adapter_device i out)) a)) \<and>
         (\<forall>n inst. as_instances (dv_assembly dv) n = Some inst \<longrightarrow> ai_id inst = n) \<and>
         (\<forall>n c. cm_connections (dv_connmgr dv) n = Some c \<longrightarrow> cn_to_id c = n)"
proof -
  have "device_inv (adapter_sizes i out) dv"
    unfolding dv_def by (rule device.handle_connection_inv [OF adapter_device_inv])
  then show ?thesis
    using adapter_device_inv [of i out]
    by (simp add: device_inv_def assembly_inv_def connmgr_inv_def)
qed

theorem adapter_invariant_witness:
  "length (as_heap (dv_assembly (fst (handle_connection device_handle adapter_router
     (adapter_device ''100=in.bin'' []) \<lparr>tc_in = [1, 2, 3], tc_out = [], tc_room = Some 0,
      tc_closed = False\<rparr>))) 0) = 32"
  using adapter_invariant [of "''100=in.bin''" "[]"
      "\<lparr>tc_in = [1, 2, 3], tc_out = [], tc_room = Some 0, tc_closed = False\<rparr>"]
  by (simp add: adapter_device_def adapter_option_def register_assembly_def
      new_assembly_object_def)

text \<open>
  C1: over the wire.  A client that writes data of the right size to an assembly of the adapter
  with Set_Attribute_Single is told success, and reading it back over the same session gives
  exactly that data.
\<close>

theorem adapter_write_then_read:
  assumes "as_instances (dv_assembly dv) (ucast i) = Some inst"
    and "length d = length (as_heap (dv_assembly dv) (ai_data inst))" and "length d \<le> 4000"
  defines "tr \<equiv> loop_transport device_handle adapter_router"
  shows "case send_cip_request tr \<lparr>se_transport = idle dv, se_handle = s\<rparr>
            (new_set_attribute_single_request (build_path 4 i 3) d) of
     (res, sess) \<Rightarrow>
       (\<exists>r. res = Inr r \<and> response_is_success r) \<and>
       (\<exists>r. fst (send_cip_request tr sess (new_get_attribute_single_request (build_path 4 i 3))) =
              Inr r \<and> response_is_success r \<and> rp_data r = d)"
proof -
  let ?dv = "dv\<lparr>dv_assembly := (dv_assembly dv)
      \<lparr>as_heap := (as_heap (dv_assembly dv))(ai_data inst := d)\<rparr>\<rparr>"
  have get: "send_cip_request tr \<lparr>se_transport = idle ?dv, se_handle = s\<rparr>
      (new_get_attribute_single_request (build_path 4 i 3)) =
    (Inr (object_response ServiceGetAttributeSingle (Inr d)),
     \<lparr>se_transport = idle ?dv, se_handle = s\<rparr>)"
    using adapter_get_request [of ?dv i inst s] assms(1, 3) by (simp add: tr_def)
  show ?thesis
    using adapter_set_request [OF assms(1-3), of s] get
    by (simp add: tr_def response_is_success_def object_response_data)
qed

theorem adapter_write_then_read_witness:
  "case send_cip_request (loop_transport device_handle adapter_router)
        \<lparr>se_transport = idle (adapter_device ''100'' []), se_handle = 7\<rparr>
        (new_set_attribute_single_request (build_path 4 100 3) (replicate 32 9)) of
     (res, sess) \<Rightarrow>
       (\<exists>r. res = Inr r \<and> response_is_success r) \<and>
       (\<exists>r. fst (send_cip_request (loop_transport device_handle adapter_router) sess
              (new_get_attribute_single_request (build_path 4 100 3))) = Inr r \<and>
            response_is_success r \<and> rp_data r = replicate 32 9)"
proof (rule adapter_write_then_read)
  show "as_instances (dv_assembly (adapter_device ''100'' [])) (ucast (100 :: u16)) =
      Some \<lparr>ai_id = 100, ai_data = 0\<rparr>"
    by (simp add: adapter_instances atoi_def is_digit_def)
qed (simp_all add: adapter_device_def adapter_option_def register_assembly_def
    new_assembly_object_def)

end
