(* ===== verification/Io_Runtime.thy ===== *)
theory Io_Runtime
  imports Assembly Eip_Cpf
begin

text \<open>
  Implicit (I/O) messaging, \<open>pkg/runtime\<close>: the UDP listener, the watchdog and the scheduler over the
  table of I/O connections.  The table maps identifiers to references, because the packets in
  flight and the scheduler keep pointers to connections that may be removed meanwhile; the
  connections themselves are in a store.  A time is a number of nanoseconds, a duration a
  64-bit two's complement word.
\<close>

section \<open>Connections and the runtime\<close>

type_synonym conn_ref = nat
type_synonym udp_addr = string
type_synonym duration = u64

record io_connection =
  io_id :: u32
  io_rpi :: duration
  io_seq :: u16
  io_run_idle :: bool
  io_remote :: "udp_addr option"
  io_assembly :: "assembly_instance option"
  io_last_receive :: int
  io_last_send :: int
  io_timeout_mult :: u8
  io_producer :: bool
  io_consumer :: bool

record runtime =
  rt_connections :: "u32 \<rightharpoonup> conn_ref"
  rt_store :: "conn_ref \<Rightarrow> io_connection"
  rt_assemblies :: assembly_state
  rt_sent :: "(bytes \<times> udp_addr) list"

definition new_runtime :: "(conn_ref \<Rightarrow> io_connection) \<Rightarrow> assembly_state \<Rightarrow> runtime" where
  "new_runtime store ao =
     \<lparr>rt_connections = Map.empty, rt_store = store, rt_assemblies = ao, rt_sent = []\<rparr>"

definition update_conn :: "conn_ref \<Rightarrow> (io_connection \<Rightarrow> io_connection) \<Rightarrow> runtime \<Rightarrow> runtime" where
  "update_conn ref f rt = rt\<lparr>rt_store := (rt_store rt)(ref := f (rt_store rt ref))\<rparr>"

definition add_connection :: "int \<Rightarrow> conn_ref \<Rightarrow> runtime \<Rightarrow> runtime" where
  "add_connection now ref rt =
     (let rt1 = update_conn ref (\<lambda>c. c\<lparr>io_last_receive := now\<rparr>) rt
      in rt1\<lparr>rt_connections := (rt_connections rt1)(io_id (rt_store rt1 ref) \<mapsto> ref)\<rparr>)"

definition remove_connection :: "u32 \<Rightarrow> runtime \<Rightarrow> runtime" where
  "remove_connection connID rt = rt\<lparr>rt_connections := (rt_connections rt)(connID := None)\<rparr>"

section \<open>The watchdog\<close>

text \<open>\<open>t.Sub(u)\<close> saturates at the bounds of 64 bits.\<close>

definition time_sub :: "int \<Rightarrow> int \<Rightarrow> int" where
  "time_sub t u = max (- (2 ^ 63)) (min (2 ^ 63 - 1) (t - u))"

text \<open>
  \<open>conn.RPI * time.Duration(uint64(4) << conn.TimeoutMult)\<close>, read as a signed number: the shift
  drops what leaves 64 bits and the product wraps.
\<close>

definition io_timeout :: "io_connection \<Rightarrow> int" where
  "io_timeout c = sint (io_rpi c * push_bit (unat (io_timeout_mult c)) (4 :: u64))"

definition timed_out :: "int \<Rightarrow> io_connection \<Rightarrow> bool" where
  "timed_out now c \<longleftrightarrow> io_consumer c \<and> time_sub now (io_last_receive c) > io_timeout c"

definition check_timeouts :: "int \<Rightarrow> runtime \<Rightarrow> runtime" where
  "check_timeouts now rt = rt\<lparr>rt_connections := (\<lambda>cid. case rt_connections rt cid of
       None \<Rightarrow> None
     | Some ref \<Rightarrow> if timed_out now (rt_store rt ref) then None else Some ref)\<rparr>"

section \<open>The listener\<close>

text \<open>
  The packet is a slice of length n of a larger buffer, given by its bytes up to the capacity.
  \<open>parse_packet\<close> is \<open>handlePacket\<close> up to the payload: the connection identifier and the payload, or
  none for a packet that is dropped.
\<close>

definition parse_packet :: "bytes \<Rightarrow> nat \<Rightarrow> (u32 \<times> bytes) option go" where
  "parse_packet buf n =
     (if n < 6 then Return None
      else
        go_bind (go_slice buf 0 2) (\<lambda>b0.
        if get_u16 b0 \<noteq> 2 then Return None
        else
          go_bind (go_slice buf 4 6) (\<lambda>b4.
          if get_u16 b4 \<noteq> 4 then Return None
          else
            go_bind (go_slice buf 6 10) (\<lambda>b6.
            go_bind (go_slice buf 12 14) (\<lambda>b12.
            let connID = get_u32 b6; len2 = unat (get_u16 b12) in
            if n < 14 + len2 then Return None
            else
              go_bind (go_slice buf 14 (14 + len2)) (\<lambda>payload.
              Return (Some (connID, payload))))))))"

text \<open>The three critical sections behind it: lookup, update of the watchdog, delivery.\<close>

definition touch_connection :: "int \<Rightarrow> u32 \<Rightarrow> runtime \<Rightarrow> runtime" where
  "touch_connection now connID rt =
     (case rt_connections rt connID of
        None \<Rightarrow> rt
      | Some ref \<Rightarrow> update_conn ref (\<lambda>c. c\<lparr>io_last_receive := now\<rparr>) rt)"

definition deliver_payload :: "conn_ref \<Rightarrow> bytes \<Rightarrow> runtime \<Rightarrow> runtime" where
  "deliver_payload ref payload rt =
     (let conn = rt_store rt ref in
        if io_run_idle conn \<and> length payload < 4 then rt
        else
          let dataOffset = (if io_run_idle conn then 4 else 0) in
            (case io_assembly conn of
               None \<Rightarrow> rt
             | Some inst \<Rightarrow>
                 rt\<lparr>rt_assemblies := snd (set_attribute_single (rt_assemblies rt) (ai_id inst) 3
                                           (drop dataOffset payload))\<rparr>))"

definition handle_packet :: "int \<Rightarrow> bytes \<Rightarrow> nat \<Rightarrow> runtime \<Rightarrow> runtime go" where
  "handle_packet now buf n rt =
     go_bind (parse_packet buf n) (\<lambda>p.
       Return (case p of
                 None \<Rightarrow> rt
               | Some (connID, payload) \<Rightarrow>
                   (case rt_connections rt connID of
                      None \<Rightarrow> rt
                    | Some ref \<Rightarrow> deliver_payload ref payload (touch_connection now connID rt))))"

section \<open>The scheduler\<close>

text \<open>What \<open>sendPacket\<close> puts before the data of the assembly.\<close>

definition packet_head :: "io_connection \<Rightarrow> bytes \<Rightarrow> bytes" where
  "packet_head conn data =
     le16 2 @ le16 0x00A1 @ le16 4 @ le32 (io_id conn) @ le16 0x00B1 @
     le16 (word_of_nat (2 + (if io_run_idle conn then 4 else 0) + length data)) @
     le16 (io_seq conn) @ (if io_run_idle conn then le32 1 else [])"

text \<open>
  \<open>sendPacket\<close>: the packet is built in a buffer of 2048 bytes; slicing it to the length of a
  longer packet panics.
\<close>

definition send_packet :: "conn_ref \<Rightarrow> assembly_instance \<Rightarrow> runtime \<Rightarrow> runtime go" where
  "send_packet ref inst rt =
     (let rt1 = update_conn ref (\<lambda>c. c\<lparr>io_seq := io_seq c + 1\<rparr>) rt;
          conn = rt_store rt1 ref;
          data = as_heap (rt_assemblies rt1) (ai_data inst);
          packet = packet_head conn data @ data
      in (case io_remote conn of
            None \<Rightarrow> Return rt1
          | Some addr \<Rightarrow>
              if length packet > 2048 then Panic ''slice bounds out of range''
              else Return (rt1\<lparr>rt_sent := rt_sent rt1 @ [(packet, addr)]\<rparr>)))"

text \<open>
  One producer of a tick, at the time \<open>now\<close> of the check; \<open>sent\<close> is the time after sending.
\<close>

definition tick_connection :: "int \<times> int \<Rightarrow> conn_ref \<Rightarrow> runtime \<Rightarrow> runtime go" where
  "tick_connection tms ref rt =
     (let (now, sent) = tms; conn = rt_store rt ref in
        if time_sub now (io_last_send conn) < sint (io_rpi conn) then Return rt
        else
          (case io_assembly conn of
             None \<Rightarrow> Return rt
           | Some inst \<Rightarrow>
               go_bind (send_packet ref inst rt) (\<lambda>rt1.
               Return (update_conn ref (\<lambda>c. c\<lparr>io_last_send := sent\<rparr>) rt1))))"

fun tick_connections :: "(nat \<Rightarrow> int \<times> int) \<Rightarrow> nat \<Rightarrow> conn_ref list \<Rightarrow> runtime \<Rightarrow> runtime go" where
  "tick_connections clock k [] rt = Return rt"
| "tick_connections clock k (ref # refs) rt =
     go_bind (tick_connection (clock k) ref rt) (tick_connections clock (Suc k) refs)"

text \<open>
  \<open>processTick\<close>: the producers are copied from the table, in the order \<open>ids\<close> in which the map is
  ranged over, and then served one by one.
\<close>

definition tick_producers :: "u32 list \<Rightarrow> runtime \<Rightarrow> conn_ref list" where
  "tick_producers ids rt = concat (map (\<lambda>cid. case rt_connections rt cid of
       None \<Rightarrow> []
     | Some ref \<Rightarrow> if io_producer (rt_store rt ref) then [ref] else []) ids)"

definition process_tick :: "(nat \<Rightarrow> int \<times> int) \<Rightarrow> u32 list \<Rightarrow> runtime \<Rightarrow> runtime go" where
  "process_tick clock ids rt = tick_connections clock 0 (tick_producers ids rt) rt"

section \<open>What a packet means\<close>

text \<open>
  The layout of a packet, a connected address item and a data item with a payload, and what a
  received sequence of bytes means: nothing when it is shorter than its items, otherwise a
  connection and a payload.
\<close>

definition io_packet :: "u32 \<Rightarrow> bytes \<Rightarrow> bytes" where
  "io_packet cid payload =
     le16 2 @ le16 0x00A1 @ le16 4 @ le32 cid @ le16 0x00B1 @
     le16 (word_of_nat (length payload)) @ payload"

lemma io_packet_length [simp]: "length (io_packet cid payload) = 14 + length payload"
  by (simp add: io_packet_def)

definition packet_meaning :: "bytes \<Rightarrow> (u32 \<times> bytes) option" where
  "packet_meaning d =
     (if length d < 14 \<or> get_u16 d \<noteq> 2 \<or> get_u16 (drop 4 d) \<noteq> 4 \<or>
         length d < 14 + unat (get_u16 (drop 12 d))
      then None
      else Some (get_u32 (drop 6 d), take (unat (get_u16 (drop 12 d))) (drop 14 d)))"

lemma get_take:
  "2 \<le> m \<Longrightarrow> get_u16 (take m x) = get_u16 x" "4 \<le> m \<Longrightarrow> get_u32 (take m x) = get_u32 x"
proof -
  have t: "take (Suc (Suc k)) (a # b # y) = a # b # take k y" for k and a b :: byte and y by simp
  show "2 \<le> m \<Longrightarrow> get_u16 (take m x) = get_u16 x"
    by (cases x rule: get_u16.cases; cases m; cases "m - 1") auto
  show "4 \<le> m \<Longrightarrow> get_u32 (take m x) = get_u32 x"
    by (cases x rule: get_u32.cases; cases m; cases "m - 1"; cases "m - 2"; cases "m - 3") auto
qed

lemma parse_packet_meaning:
  assumes "14 \<le> length buf" and "n \<le> length buf"
  shows "parse_packet buf n = Return (packet_meaning (take n buf))"
proof (cases "n < 14")
  case True
  have "n < 14 + unat x" for x :: u16 using True by simp
  then show ?thesis
    using True assms by (simp add: parse_packet_def packet_meaning_def Let_def)
next
  case False
  then show ?thesis
    using assms
    by (simp add: parse_packet_def packet_meaning_def Let_def get_take drop_take min_def
        del: take_drop)
qed

lemma packet_meaning_packet:
  "length payload < 65536 \<Longrightarrow> packet_meaning (io_packet cid payload) = Some (cid, payload)"
  by (simp add: packet_meaning_def io_packet_def)

section \<open>Timeouts\<close>

lemma push_bit_4: "push_bit m (4 :: u64) = word_of_int (4 * 2 ^ m)"
  by (simp add: push_bit_eq_mult mult.commute)

lemma io_timeout_product:
  assumes "0 \<le> sint (io_rpi c)" and "sint (io_rpi c) * (4 * 2 ^ unat (io_timeout_mult c)) < 2 ^ 63"
  shows "io_timeout c = sint (io_rpi c) * (4 * 2 ^ unat (io_timeout_mult c))"
proof -
  let ?k = "sint (io_rpi c) * (4 * 2 ^ unat (io_timeout_mult c))"
  have "io_rpi c * push_bit (unat (io_timeout_mult c)) 4 = word_of_int ?k"
  proof -
    have "word_of_int (sint (io_rpi c)) * word_of_int (4 * 2 ^ unat (io_timeout_mult c)) =
        (word_of_int ?k :: u64)" by (rule wi_hom_mult)
    then show ?thesis unfolding push_bit_4 by simp
  qed
  then have "io_timeout c = sint (word_of_int ?k :: u64)"
    by (simp only: io_timeout_def)
  also have "\<dots> = signed_take_bit 63 ?k"
    by (simp only: signed_of_int) simp
  also have "\<dots> = ?k"
    using assms by (intro signed_take_bit_int_eq_self) (simp_all add: order.trans [of _ 0])
  finally show ?thesis .
qed

lemma push_bit_large:
  assumes "62 \<le> m"
  shows "push_bit m (4 :: u64) = 0"
proof -
  obtain k where "m = 62 + k" using assms le_Suc_ex by blast
  then have "push_bit m (4 :: u64) = (4 * 2 ^ 62) * 2 ^ k"
    by (simp add: push_bit_eq_mult power_add mult.commute mult.left_commute)
  also have "(4 * 2 ^ 62 :: u64) = 0" by simp
  finally show ?thesis by simp
qed

lemma io_timeout_overflow: "62 \<le> unat (io_timeout_mult c) \<Longrightarrow> io_timeout c = 0"
  by (simp add: io_timeout_def push_bit_large)

lemma check_timeouts_at:
  "rt_connections (check_timeouts now rt) cid =
     (case rt_connections rt cid of
        None \<Rightarrow> None
      | Some ref \<Rightarrow> if timed_out now (rt_store rt ref) then None else Some ref)"
  by (simp add: check_timeouts_def)

lemma time_sub_exact: "- (2 ^ 63) \<le> t - u \<Longrightarrow> t - u < 2 ^ 63 \<Longrightarrow> time_sub t u = t - u"
  by (simp add: time_sub_def)

section \<open>Delivery and sending\<close>

lemma update_conn_sel [simp]:
  "rt_connections (update_conn ref f rt) = rt_connections rt"
  "rt_assemblies (update_conn ref f rt) = rt_assemblies rt"
  "rt_sent (update_conn ref f rt) = rt_sent rt"
  "rt_store (update_conn ref f rt) r =
     (if r = ref then f (rt_store rt ref) else rt_store rt r)"
  by (simp_all add: update_conn_def)

lemma deliver_payload_sel [simp]:
  "rt_connections (deliver_payload ref p rt) = rt_connections rt"
  "rt_store (deliver_payload ref p rt) = rt_store rt"
  "rt_sent (deliver_payload ref p rt) = rt_sent rt"
  by (simp_all add: deliver_payload_def Let_def split: option.split)

lemma handle_packet_known:
  assumes "14 \<le> length buf" and "n \<le> length buf"
    and "packet_meaning (take n buf) = Some (cid, payload)"
    and "rt_connections rt cid = Some ref"
  shows "handle_packet now buf n rt =
    Return (deliver_payload ref payload (update_conn ref (\<lambda>c. c\<lparr>io_last_receive := now\<rparr>) rt))"
  using assms by (simp add: handle_packet_def parse_packet_meaning touch_connection_def)

lemma handle_io_packet:
  assumes "length payload < 65536" and "rt_connections rt cid = Some ref"
  shows "handle_packet now (io_packet cid payload) (14 + length payload) rt =
    Return (deliver_payload ref payload (update_conn ref (\<lambda>c. c\<lparr>io_last_receive := now\<rparr>) rt))"
proof (rule handle_packet_known)
  have "length (io_packet cid payload) = 14 + length payload" by (simp add: io_packet_def)
  then show "packet_meaning (take (14 + length payload) (io_packet cid payload)) =
      Some (cid, payload)"
    using packet_meaning_packet [OF assms(1)] by simp
qed (use assms in \<open>simp_all add: io_packet_def\<close>)

text \<open>A sent packet in this layout: sequence count and header are part of the payload.\<close>

definition sent_payload :: "io_connection \<Rightarrow> bytes \<Rightarrow> bytes" where
  "sent_payload conn data =
     le16 (io_seq conn) @ (if io_run_idle conn then le32 1 else []) @ data"

lemma packet_head_data:
  "packet_head conn data @ data = io_packet (io_id conn) (sent_payload conn data)"
  by (simp add: packet_head_def io_packet_def sent_payload_def)

lemma sent_payload_length:
  "length (sent_payload conn data) = 2 + (if io_run_idle conn then 4 else 0) + length data"
  by (simp add: sent_payload_def)

section \<open>A tick\<close>

text \<open>
  A producer is due when its interval has passed and it has an assembly; what it sends then, and
  how it changes.
\<close>

definition is_due :: "int \<Rightarrow> io_connection \<Rightarrow> bool" where
  "is_due now c \<longleftrightarrow> sint (io_rpi c) \<le> time_sub now (io_last_send c) \<and> io_assembly c \<noteq> None"

definition after_send :: "int \<times> int \<Rightarrow> io_connection \<Rightarrow> io_connection" where
  "after_send tms c =
     (if is_due (fst tms) c then c\<lparr>io_seq := io_seq c + 1, io_last_send := snd tms\<rparr> else c)"

definition due_data :: "assembly_state \<Rightarrow> io_connection \<Rightarrow> bytes" where
  "due_data ao c = (case io_assembly c of None \<Rightarrow> [] | Some inst \<Rightarrow> as_heap ao (ai_data inst))"

definition due_packets ::
  "assembly_state \<Rightarrow> int \<times> int \<Rightarrow> io_connection \<Rightarrow> (bytes \<times> udp_addr) list" where
  "due_packets ao tms c =
     (case io_remote c of
        None \<Rightarrow> []
      | Some addr \<Rightarrow>
          if is_due (fst tms) c
          then [(io_packet (io_id c) (sent_payload (c\<lparr>io_seq := io_seq c + 1\<rparr>) (due_data ao c)),
                 addr)]
          else [])"

lemma tick_connection_due:
  assumes "length (due_data (rt_assemblies rt) (rt_store rt ref)) \<le> 2000"
  shows "tick_connection tms ref rt = Return (rt
    \<lparr>rt_store := (rt_store rt)(ref := after_send tms (rt_store rt ref)),
     rt_sent := rt_sent rt @ due_packets (rt_assemblies rt) tms (rt_store rt ref)\<rparr>)"
proof (cases "is_due (fst tms) (rt_store rt ref)")
  case False
  then show ?thesis
    by (cases tms) (auto simp: tick_connection_def is_due_def after_send_def due_packets_def Let_def
        split: option.split)
next
  case True
  let ?c = "rt_store rt ref"
  obtain inst where inst: "io_assembly ?c = Some inst" using True by (auto simp: is_due_def)
  have data: "due_data (rt_assemblies rt) ?c = as_heap (rt_assemblies rt) (ai_data inst)"
    by (simp add: due_data_def inst)
  have len: "\<not> 2048 < length (io_packet (io_id ?c) (sent_payload (?c\<lparr>io_seq := io_seq ?c + 1\<rparr>)
      (as_heap (rt_assemblies rt) (ai_data inst))))"
    using assms by (simp add: data io_packet_def sent_payload_length)
  have packet: "packet_head (?c\<lparr>io_seq := io_seq ?c + 1\<rparr>) d @ d =
      io_packet (io_id ?c) (sent_payload (?c\<lparr>io_seq := io_seq ?c + 1\<rparr>) d)" for d
    by (simp add: packet_head_data)
  show ?thesis
    using True inst len
    by (cases tms) (auto simp: tick_connection_def send_packet_def is_due_def after_send_def
        due_packets_def data packet Let_def update_conn_def simp del: length_append
        split: option.split)
qed

lemma tick_connections_due:
  assumes "distinct refs"
    and "\<forall>r \<in> set refs. length (due_data (rt_assemblies rt) (rt_store rt r)) \<le> 2000"
  shows "\<exists>rt'. tick_connections clock k refs rt = Return rt' \<and>
    (\<forall>i < length refs. rt_store rt' (refs ! i) =
       after_send (clock (k + i)) (rt_store rt (refs ! i))) \<and>
    (\<forall>r. r \<notin> set refs \<longrightarrow> rt_store rt' r = rt_store rt r) \<and>
    rt_sent rt' = rt_sent rt @ concat (map (\<lambda>(j, r).
      due_packets (rt_assemblies rt) (clock j) (rt_store rt r)) (enumerate k refs)) \<and>
    rt_connections rt' = rt_connections rt \<and> rt_assemblies rt' = rt_assemblies rt"
  using assms
proof (induction refs arbitrary: k rt)
  case Nil
  then show ?case by simp
next
  case (Cons r refs)
  define rt1 where "rt1 = rt
    \<lparr>rt_store := (rt_store rt)(r := after_send (clock k) (rt_store rt r)),
     rt_sent := rt_sent rt @ due_packets (rt_assemblies rt) (clock k) (rt_store rt r)\<rparr>"
  have step: "tick_connection (clock k) r rt = Return rt1"
    using Cons.prems(2) by (simp add: tick_connection_due rt1_def)
  have same: "rt_store rt1 x = rt_store rt x" if "x \<in> set refs" for x
    using that Cons.prems(1) by (auto simp: rt1_def)
  obtain rt' where rt': "tick_connections clock (Suc k) refs rt1 = Return rt'"
    "\<forall>i < length refs. rt_store rt' (refs ! i) =
       after_send (clock (Suc k + i)) (rt_store rt1 (refs ! i))"
    "\<forall>x. x \<notin> set refs \<longrightarrow> rt_store rt' x = rt_store rt1 x"
    "rt_sent rt' = rt_sent rt1 @ concat (map (\<lambda>(j, x).
      due_packets (rt_assemblies rt1) (clock j) (rt_store rt1 x)) (enumerate (Suc k) refs))"
    "rt_connections rt' = rt_connections rt1" "rt_assemblies rt' = rt_assemblies rt1"
    using Cons.IH [of rt1 "Suc k"] Cons.prems same by (fastforce simp: rt1_def)
  have sent: "map (\<lambda>(j, x). due_packets (rt_assemblies rt1) (clock j) (rt_store rt1 x))
      (enumerate (Suc k) refs) =
    map (\<lambda>(j, x). due_packets (rt_assemblies rt) (clock j) (rt_store rt x))
      (enumerate (Suc k) refs)"
  proof (rule map_cong [OF refl], clarify)
    fix j x assume "(j, x) \<in> set (enumerate (Suc k) refs)"
    then have "x \<in> set refs" by (auto simp: enumerate_eq_zip dest: set_zip_rightD)
    moreover have "rt_assemblies rt1 = rt_assemblies rt" by (simp add: rt1_def)
    ultimately show "due_packets (rt_assemblies rt1) (clock j) (rt_store rt1 x) =
        due_packets (rt_assemblies rt) (clock j) (rt_store rt x)" by (simp add: same)
  qed
  have store: "rt_store rt' ((r # refs) ! i) = after_send (clock (k + i)) (rt_store rt ((r # refs) ! i))"
    if "i < length (r # refs)" for i
    using that rt'(2, 3) same Cons.prems(1) by (cases i) (auto simp: rt1_def)
  have rest: "\<forall>x. x \<notin> set (r # refs) \<longrightarrow> rt_store rt' x = rt_store rt x"
    "rt_connections rt' = rt_connections rt" "rt_assemblies rt' = rt_assemblies rt"
    using rt'(3, 5, 6) by (simp_all add: rt1_def)
  have "rt_sent rt' = rt_sent rt @ concat (map (\<lambda>(j, x).
      due_packets (rt_assemblies rt) (clock j) (rt_store rt x)) (enumerate k (r # refs)))"
    unfolding rt'(4) sent by (simp add: rt1_def)
  with step rt'(1) store rest show ?case by (intro exI [of _ rt']) simp
qed

text \<open>The producers of a tick, when the order of the range is one of all identifiers.\<close>

lemma tick_producers_Cons:
  "tick_producers (cid # ids) rt =
     (case rt_connections rt cid of
        None \<Rightarrow> []
      | Some ref \<Rightarrow> if io_producer (rt_store rt ref) then [ref] else []) @ tick_producers ids rt"
  by (simp add: tick_producers_def)

lemma in_tick_producers:
  "r \<in> set (tick_producers ids rt) \<longleftrightarrow>
     (\<exists>cid \<in> set ids. rt_connections rt cid = Some r) \<and> io_producer (rt_store rt r)"
  by (induction ids) (auto simp: tick_producers_Cons tick_producers_def split: option.split)

lemma set_tick_producers:
  "set ids = dom (rt_connections rt) \<Longrightarrow>
   set (tick_producers ids rt) = {r \<in> ran (rt_connections rt). io_producer (rt_store rt r)}"
  by (auto simp: in_tick_producers ran_def dom_def) blast

lemma distinct_tick_producers:
  "distinct ids \<Longrightarrow> inj_on (rt_connections rt) (set ids) \<Longrightarrow> distinct (tick_producers ids rt)"
proof (induction ids)
  case Nil
  then show ?case by (simp add: tick_producers_def)
next
  case (Cons cid ids)
  have "r \<notin> set (tick_producers ids rt)" if "rt_connections rt cid = Some r" for r
  proof
    assume "r \<in> set (tick_producers ids rt)"
    then obtain cid' where c: "cid' \<in> set ids" "rt_connections rt cid' = Some r"
      by (auto simp: in_tick_producers)
    then have "cid' = cid"
      using Cons.prems(2) that by (auto intro: inj_onD [of "rt_connections rt" "set (cid # ids)"])
    then show False using c Cons.prems(1) by simp
  qed
  then show ?case using Cons by (auto simp: tick_producers_Cons split: option.split)
qed

section \<open>An example\<close>

text \<open>
  A connection that produces and consumes an assembly of n bytes, alone in a runtime.
\<close>

definition example_conn :: "bool \<Rightarrow> u8 \<Rightarrow> io_connection" where
  "example_conn runIdle mult =
     \<lparr>io_id = 7, io_rpi = 1000, io_seq = 41, io_run_idle = runIdle, io_remote = Some ''plc'',
      io_assembly = Some \<lparr>ai_id = 100, ai_data = 0\<rparr>, io_last_receive = 0, io_last_send = 0,
      io_timeout_mult = mult, io_producer = True, io_consumer = True\<rparr>"

definition example_runtime :: "bool \<Rightarrow> u8 \<Rightarrow> nat \<Rightarrow> runtime" where
  "example_runtime runIdle mult n =
     add_connection 0 0 (new_runtime (\<lambda>_. example_conn runIdle mult)
       (register_assembly (new_assembly_object (\<lambda>_. replicate n 0)) 100 0))"

lemma example_runtime_sel [simp]:
  "rt_connections (example_runtime b m n) = [7 \<mapsto> 0]"
  "rt_store (example_runtime b m n) r = example_conn b m"
  "as_instances (rt_assemblies (example_runtime b m n)) =
     [100 \<mapsto> \<lparr>ai_id = 100, ai_data = 0\<rparr>]"
  "as_heap (rt_assemblies (example_runtime b m n)) a = replicate n 0"
  "rt_sent (example_runtime b m n) = []"
  by (simp_all add: example_runtime_def add_connection_def new_runtime_def example_conn_def
      update_conn_def register_assembly_def new_assembly_object_def)

section \<open>Properties\<close>

text \<open>
  C10: the listener never panics on the packets it passes on (slices of its buffer of 2048
  bytes), and what it does depends on the bytes received only, never on what an earlier packet
  left in the buffer: a packet that is too short or not of two items with a 4-byte address
  changes nothing.
\<close>

theorem listener_total:
  assumes "length buf = 2048" and "n \<le> 2048"
  shows "handle_packet now buf n rt = Return
    (case packet_meaning (take n buf) of
       None \<Rightarrow> rt
     | Some (cid, payload) \<Rightarrow>
         (case rt_connections rt cid of
            None \<Rightarrow> rt
          | Some ref \<Rightarrow> deliver_payload ref payload (touch_connection now cid rt)))"
  using assms by (simp add: handle_packet_def parse_packet_meaning)

theorem listener_total_witness:
  "handle_packet 5 ([2, 0, 0xA1, 0, 4, 0, 9, 9, 9, 9, 0xB1, 0] @ replicate 2036 7) 12
     (example_runtime True 0 2) = Return (example_runtime True 0 2)"
proof -
  have "packet_meaning (take 12 ([2, 0, 0xA1, 0, 4, 0, 9, 9, 9, 9, 0xB1, 0] @ replicate 2036 7)) =
      None" by (simp add: packet_meaning_def)
  moreover have "length ([2, 0, 0xA1, 0, 4, 0, 9, 9, 9, 9, 0xB1, 0] @ replicate 2036 (7 :: byte)) =
      2048" "(12 :: nat) \<le> 2048" by simp_all
  ultimately show ?thesis
    using listener_total [of "[2, 0, 0xA1, 0, 4, 0, 9, 9, 9, 9, 0xB1, 0] @ replicate 2036 7" 12 5
        "example_runtime True 0 2"]
    by (simp only: option.simps)
qed

text \<open>
  The check of the length covers six bytes only: called with a packet of 6 to 13 bytes whose
  slice ends there, as a test does, the handler panics.
\<close>

theorem short_slice_panics:
  assumes "6 \<le> length d" and "length d < 10" and "get_u16 d = 2" and "get_u16 (drop 4 d) = 4"
  shows "handle_packet now d (length d) rt = Panic ''slice bounds out of range''"
  using assms
  by (simp add: handle_packet_def parse_packet_def get_take go_slice_def)

theorem short_slice_panics_witness:
  "handle_packet 0 [2, 0, 0xA1, 0, 4, 0] (length [2, 0, 0xA1, 0, 4, 0 :: byte])
     (example_runtime True 0 2) = Panic ''slice bounds out of range''"
  by (rule short_slice_panics) simp_all

text \<open>
  C32: consuming.  Which packets the listener takes: of those for a connection it knows, the
  payload of the data item, less four bytes when the connection has a Run/Idle header (they are
  skipped unread), must have exactly the size of the connection's assembly; then it replaces the
  data of the assembly.  Any other payload changes no assembly.  The watchdog is fed in every
  case, and nothing else changes.  (A sequence count, which the documentation puts first, is
  not skipped.)
\<close>

theorem consumer_accepts:
  assumes "rt_connections rt cid = Some ref"
    and "io_assembly (rt_store rt ref) = Some inst"
    and "as_instances (rt_assemblies rt) (ai_id inst) = Some inst'"
    and "length payload < 65536"
  shows "\<exists>rt'. handle_packet now (io_packet cid payload) (14 + length payload) rt = Return rt' \<and>
    rt_store rt' = (rt_store rt)(ref := (rt_store rt ref)\<lparr>io_last_receive := now\<rparr>) \<and>
    rt_connections rt' = rt_connections rt \<and> rt_sent rt' = rt_sent rt \<and>
    rt_assemblies rt' =
      (if length payload = (if io_run_idle (rt_store rt ref) then 4 else 0) +
            length (as_heap (rt_assemblies rt) (ai_data inst'))
       then (rt_assemblies rt)\<lparr>as_heap := (as_heap (rt_assemblies rt))(ai_data inst' :=
              (if io_run_idle (rt_store rt ref) then drop 4 payload else payload))\<rparr>
       else rt_assemblies rt)"
  using assms(1-3) handle_io_packet [OF assms(4) assms(1), of now]
  by (cases "io_run_idle (rt_store rt ref)")
    (auto simp: deliver_payload_def set_attribute_single_def update_conn_def Let_def)

theorem consumer_accepts_witness:
  "\<exists>rt'. handle_packet 9 (io_packet 7 (le32 1 @ [1, 2])) 20 (example_runtime True 0 2) = Return rt' \<and>
         as_heap (rt_assemblies rt') 0 = [1, 2] \<and> io_last_receive (rt_store rt' 0) = 9"
  using consumer_accepts [of "example_runtime True 0 2" 7 0 "\<lparr>ai_id = 100, ai_data = 0\<rparr>"
      "\<lparr>ai_id = 100, ai_data = 0\<rparr>" "le32 1 @ [1, 2]" 9]
  by (auto simp: example_conn_def)

text \<open>
  Producing.  What the scheduler sends for an assembly: the data item holds a sequence count that is one higher with every packet (modulo 65536), the Run/Idle
  header 1 if the connection has one, and the data.
\<close>

theorem producer_sends:
  assumes "io_remote (rt_store rt ref) = Some addr"
    and "length (as_heap (rt_assemblies rt) (ai_data inst)) \<le> 2000"
  shows "\<exists>rt'. send_packet ref inst rt = Return rt' \<and>
    io_seq (rt_store rt' ref) = io_seq (rt_store rt ref) + 1 \<and>
    rt_sent rt' = rt_sent rt @ [(io_packet (io_id (rt_store rt ref))
       (le16 (io_seq (rt_store rt ref) + 1) @
        (if io_run_idle (rt_store rt ref) then le32 1 else []) @
        as_heap (rt_assemblies rt) (ai_data inst)), addr)]"
  using assms
  by (simp add: send_packet_def Let_def packet_head_def io_packet_def)

theorem producer_sends_witness:
  "\<exists>rt'. send_packet 0 \<lparr>ai_id = 100, ai_data = 0\<rparr> (example_runtime True 0 2) = Return rt' \<and>
     io_seq (rt_store rt' 0) = 42 \<and>
     rt_sent rt' = [(io_packet 7 (le16 42 @ le32 1 @ [0, 0]), ''plc'')]"
proof -
  have r: "replicate 2 (0 :: byte) = [0, 0]" by (simp add: numeral_2_eq_2)
  show ?thesis
    using producer_sends [of "example_runtime True 0 2" 0 "''plc''" "\<lparr>ai_id = 100, ai_data = 0\<rparr>"]
    by (simp add: example_conn_def r)
qed

text \<open>
  C33: producer and consumer do not fit together.  The consumer does not know the sequence count
  that the producer puts before header and data, so it takes the data for two bytes longer than
  it is: what one runtime sends for an assembly, another never stores in an assembly of the
  same size, though its watchdog is fed.
\<close>

theorem produced_packet_rejected:
  assumes "rt_connections rt (io_id conn) = Some ref"
    and "io_run_idle (rt_store rt ref) = io_run_idle conn"
    and "io_assembly (rt_store rt ref) = Some inst"
    and "as_instances (rt_assemblies rt) (ai_id inst) = Some inst'"
    and "length (as_heap (rt_assemblies rt) (ai_data inst')) = length d"
    and "length d \<le> 2000"
  defines "packet \<equiv> packet_head conn d @ d"
  shows "\<exists>rt'. handle_packet now packet (length packet) rt = Return rt' \<and>
    rt_assemblies rt' = rt_assemblies rt \<and> io_last_receive (rt_store rt' ref) = now"
proof -
  have len: "length (sent_payload conn d) < 65536"
    using assms(6) by (simp add: sent_payload_length)
  have p: "packet = io_packet (io_id conn) (sent_payload conn d)"
    by (simp add: packet_def packet_head_data)
  show ?thesis
    unfolding p using handle_io_packet [OF len assms(1)] assms(2-5)
    by (auto simp: deliver_payload_def set_attribute_single_def sent_payload_length)
qed

theorem produced_packet_rejected_witness:
  "\<exists>rt'. handle_packet 9 (packet_head (example_conn False 0) [1, 2] @ [1, 2]) 18
           (example_runtime False 0 2) = Return rt' \<and>
         rt_assemblies rt' = rt_assemblies (example_runtime False 0 2) \<and>
         io_last_receive (rt_store rt' 0) = 9"
  using produced_packet_rejected [of "example_runtime False 0 2" "example_conn False 0" 0
      "\<lparr>ai_id = 100, ai_data = 0\<rparr>" "\<lparr>ai_id = 100, ai_data = 0\<rparr>" "[1, 2]" 9]
  by (simp add: example_conn_def packet_head_def)

text \<open>
  C12: the watchdog removes exactly the consumers that have been silent for longer than
  4 * 2^multiplier intervals (for multipliers up to 7, as in the protocol); producers are never
  removed, and nothing but the table changes.
\<close>

theorem watchdog_exact:
  assumes "rt_connections rt cid = Some ref"
    and "unat (io_timeout_mult (rt_store rt ref)) \<le> 7"
    and "0 \<le> sint (io_rpi (rt_store rt ref))" and "sint (io_rpi (rt_store rt ref)) < 2 ^ 54"
    and "\<bar>now - io_last_receive (rt_store rt ref)\<bar> < 2 ^ 63"
  shows "rt_connections (check_timeouts now rt) cid =
    (if io_consumer (rt_store rt ref) \<and>
        now - io_last_receive (rt_store rt ref) >
          sint (io_rpi (rt_store rt ref)) * (4 * 2 ^ unat (io_timeout_mult (rt_store rt ref)))
     then None else Some ref) \<and>
    rt_store (check_timeouts now rt) = rt_store rt \<and>
    rt_assemblies (check_timeouts now rt) = rt_assemblies rt"
proof -
  let ?c = "rt_store rt ref"
  have "(4 :: int) * 2 ^ unat (io_timeout_mult ?c) \<le> 4 * 2 ^ 7"
    using assms(2) power_increasing [of "unat (io_timeout_mult ?c)" 7 "2 :: int"] by simp
  then have "sint (io_rpi ?c) * (4 * 2 ^ unat (io_timeout_mult ?c)) \<le> sint (io_rpi ?c) * 2 ^ 9"
    using assms(3) by (intro mult_left_mono) simp_all
  then have t: "io_timeout ?c = sint (io_rpi ?c) * (4 * 2 ^ unat (io_timeout_mult ?c))"
    using assms(3, 4) by (intro io_timeout_product) simp_all
  have "time_sub now (io_last_receive ?c) = now - io_last_receive ?c"
    using assms(5) by (intro time_sub_exact) simp_all
  then show ?thesis
    using assms(1) by (simp add: check_timeouts_at timed_out_def t) (simp add: check_timeouts_def)
qed

theorem watchdog_exact_witness:
  "rt_connections (check_timeouts 4000 (example_runtime True 0 2)) 7 = Some 0 \<and>
   rt_connections (check_timeouts 4001 (example_runtime True 0 2)) 7 = None"
  using watchdog_exact [of "example_runtime True 0 2" 7 0 4000]
    watchdog_exact [of "example_runtime True 0 2" 7 0 4001]
  by (simp add: example_conn_def)

text \<open>
  For multipliers of 62 and more, the shift loses all bits and the timeout is zero: a
  consumer is removed by the first check after its last packet, however long its interval.
\<close>

theorem watchdog_multiplier_overflow:
  assumes "rt_connections rt cid = Some ref" and "io_consumer (rt_store rt ref)"
    and "62 \<le> unat (io_timeout_mult (rt_store rt ref))"
    and "io_last_receive (rt_store rt ref) < now"
  shows "rt_connections (check_timeouts now rt) cid = None"
  using assms
  by (simp add: check_timeouts_at timed_out_def io_timeout_overflow time_sub_def)

theorem watchdog_multiplier_overflow_witness:
  "rt_connections (check_timeouts 1 (example_runtime True 62 2)) 7 = None"
  by (rule watchdog_multiplier_overflow [where ref = 0]) (simp_all add: example_conn_def)

text \<open>
  C11: one tick of the scheduler serves every producer of the table once, in whatever order the map
  is ranged over: those whose interval has passed send one packet with the next sequence count
  and are stamped with the time of sending; the others and all that are no producers are left
  alone; assemblies and table do not change.
\<close>

theorem tick_serves_producers:
  assumes "distinct ids" and "set ids = dom (rt_connections rt)"
    and "inj_on (rt_connections rt) (dom (rt_connections rt))"
    and "\<forall>r \<in> ran (rt_connections rt). io_producer (rt_store rt r) \<longrightarrow>
           length (due_data (rt_assemblies rt) (rt_store rt r)) \<le> 2000"
  shows "\<exists>order rt'. process_tick clock ids rt = Return rt' \<and>
    distinct order \<and> set order = {r \<in> ran (rt_connections rt). io_producer (rt_store rt r)} \<and>
    (\<forall>i < length order. rt_store rt' (order ! i) = after_send (clock i) (rt_store rt (order ! i))) \<and>
    (\<forall>r. r \<notin> set order \<longrightarrow> rt_store rt' r = rt_store rt r) \<and>
    rt_sent rt' = rt_sent rt @ concat (map (\<lambda>(j, r).
      due_packets (rt_assemblies rt) (clock j) (rt_store rt r)) (enumerate 0 order)) \<and>
    rt_connections rt' = rt_connections rt \<and> rt_assemblies rt' = rt_assemblies rt"
proof -
  have dist: "distinct (tick_producers ids rt)"
    by (rule distinct_tick_producers [OF assms(1)]) (use assms(2, 3) in simp)
  have all: "set (tick_producers ids rt) = {r \<in> ran (rt_connections rt). io_producer (rt_store rt r)}"
    by (rule set_tick_producers [OF assms(2)])
  with assms(4) have "\<forall>r \<in> set (tick_producers ids rt).
      length (due_data (rt_assemblies rt) (rt_store rt r)) \<le> 2000" by simp
  from tick_connections_due [OF dist this, of clock 0] dist all show ?thesis
    by (intro exI [of _ "tick_producers ids rt"]) (simp add: process_tick_def)
qed

theorem tick_serves_producers_witness:
  "\<exists>rt'. process_tick (\<lambda>_. (1000, 1001)) [7] (example_runtime True 0 2) = Return rt' \<and>
     rt_sent rt' = [(io_packet 7 (le16 42 @ le32 1 @ replicate 2 0), ''plc'')] \<and>
     io_last_send (rt_store rt' 0) = 1001"
proof -
  have due: "is_due 1000 (example_conn True 0)" by (simp add: is_due_def example_conn_def time_sub_def)
  have ran: "ran (rt_connections (example_runtime True 0 2)) = {0}" by (auto simp: ran_def)
  obtain order rt' where tick: "process_tick (\<lambda>_. (1000, 1001)) [7] (example_runtime True 0 2) = Return rt'"
    and order: "distinct order" "set order = {0}"
    and store: "\<forall>i < length order. rt_store rt' (order ! i) = after_send (1000, 1001) (example_conn True 0)"
    and sent: "rt_sent rt' = concat (map (\<lambda>(j, r). due_packets
      (rt_assemblies (example_runtime True 0 2)) (1000, 1001) (example_conn True 0)) (enumerate 0 order))"
    using tick_serves_producers [of "[7]" "example_runtime True 0 2" "\<lambda>_. (1000, 1001)"]
    unfolding ran by (auto simp: due_data_def example_conn_def)
  have "order = [0]" using order by (cases order) (auto simp: subset_singleton_iff)
  with tick store sent due show ?thesis
    by (simp add: after_send_def due_packets_def)
      (simp add: example_conn_def due_data_def sent_payload_def)
qed

text \<open>
  An assembly that does not fit the scheduler's buffer with its 16 bytes of items and
  sequence count (20 with the header) makes the scheduler panic when the packet is sent.
\<close>

theorem large_assembly_panics:
  assumes "io_remote (rt_store rt ref) = Some addr"
    and "length (as_heap (rt_assemblies rt) (ai_data inst)) >
           (if io_run_idle (rt_store rt ref) then 2028 else 2032)"
  shows "send_packet ref inst rt = Panic ''slice bounds out of range''"
  using assms by (auto simp: send_packet_def Let_def packet_head_def split: if_splits)

theorem large_assembly_panics_witness:
  "send_packet 0 \<lparr>ai_id = 100, ai_data = 0\<rparr> (example_runtime True 0 2029) =
     Panic ''slice bounds out of range''"
  by (rule large_assembly_panics [where addr = "''plc''"]) (simp_all add: example_conn_def)

end
