(* ===== verification/Runs.thy ===== *)
theory Runs
  imports Main
begin

text \<open>
  Runs of a labelled step relation, for the goroutines of the runtime and of the tag monitor, and
  what invariants of its steps say of its runs.  The contract of a step relation is the locale
  \<open>step_invariant\<close>: an invariant, under a bound on the states that later states inherit from
  earlier ones, such as a number of objects created.
\<close>

inductive runs :: "('s \<Rightarrow> 'a \<Rightarrow> 's \<Rightarrow> bool) \<Rightarrow> 's \<Rightarrow> 'a list \<Rightarrow> 's \<Rightarrow> bool" for step where
  Nil: "runs step s [] s"
| Cons: "step s a s' \<Longrightarrow> runs step s' as s'' \<Longrightarrow> runs step s (a # as) s''"

inductive_cases runs_ConsE: "runs step s (a # as) s''"
inductive_simps runs_Nil [simp]: "runs step s [] s'"

lemma runs_append: "runs step s as s' \<Longrightarrow> runs step s' bs s'' \<Longrightarrow> runs step s (as @ bs) s''"
  by (induction rule: runs.induct) (auto intro: runs.Cons)

lemma runs_one: "step s a s' \<Longrightarrow> runs step s [a] s'"
  by (rule runs.Cons [OF _ runs.Nil])

locale step_invariant =
  fixes step :: "'s \<Rightarrow> 'a \<Rightarrow> 's \<Rightarrow> bool" and inv :: "'s \<Rightarrow> bool" and bounded :: "'s \<Rightarrow> bool"
  assumes step_inv: "step s a s' \<Longrightarrow> inv s \<Longrightarrow> bounded s' \<Longrightarrow> inv s'"
    and step_bounded: "step s a s' \<Longrightarrow> bounded s' \<Longrightarrow> bounded s"
begin

lemma run_bounded: "runs step s as s' \<Longrightarrow> bounded s' \<Longrightarrow> bounded s"
  by (induction rule: runs.induct) (auto intro: step_bounded)

lemma run_inv: "runs step s as s' \<Longrightarrow> inv s \<Longrightarrow> bounded s' \<Longrightarrow> inv s'"
proof (induction rule: runs.induct)
  case (Nil s)
  then show ?case by simp
next
  case (Cons s a s' as s'')
  then show ?case using step_inv [OF Cons(1)] run_bounded [OF Cons(2)] by blast
qed

text \<open>What every step of a run keeps, and what every step does, from states with the invariant.\<close>

lemma run_keeps:
  assumes "runs step s as s'" and "inv s" and "P s" and "bounded s'"
    and "\<And>s a s'. step s a s' \<Longrightarrow> a \<in> set as \<Longrightarrow> inv s \<Longrightarrow> inv s' \<Longrightarrow> P s \<Longrightarrow> bounded s' \<Longrightarrow> P s' \<and> Q a"
  shows "P s' \<and> (\<forall>a \<in> set as. Q a)"
  using assms
proof (induction rule: runs.induct)
  case (Nil s)
  then show ?case by simp
next
  case (Cons s a s' as s'')
  have b: "bounded s'" by (rule run_bounded [OF Cons(2) Cons.prems(3)])
  then have i: "inv s'" by (rule step_inv [OF Cons(1) Cons.prems(1)])
  have "P s' \<and> Q a"
    by (rule Cons.prems(4) [OF Cons(1) _ Cons.prems(1) i Cons.prems(2) b]) simp
  then show ?case using Cons.IH [OF i _ Cons.prems(3)] Cons.prems(4) by auto
qed

end

end
