(* ===== verification/Io_Interleaving.thy ===== *)
theory Io_Interleaving
  imports Io_Runtime Runs
begin

text \<open>
  The goroutines of \<open>pkg/runtime\<close> side by side: the listener, the watchdog, the scheduler, the
  callers of \<open>AddConnection\<close>, \<open>RemoveConnection\<close> and \<open>RegisterAssembly\<close>, and the server's requests
  to the assemblies.
  A step is one critical section; the listener keeps the connection and the payload between its
  lookup, the update of the watchdog and the delivery, the scheduler the producers it copied.
  (The scheduler reads the data of an assembly without its lock; that race is not modelled, a
  read is one step.)
\<close>

datatype listener =
    Listening
  | Found u32 conn_ref bytes
  | Touched conn_ref bytes

record io_system =
  sy_rt :: runtime
  sy_listener :: listener
  sy_pending :: "conn_ref list"
  sy_now :: int

definition start_system :: "runtime \<Rightarrow> int \<Rightarrow> io_system" where
  "start_system rt now =
     \<lparr>sy_rt = rt, sy_listener = Listening, sy_pending = [], sy_now = now\<rparr>"

text \<open>
  \<open>Start\<close>: resolving the address and listening on it are the system's; then the listener and the
  watchdog run.
\<close>

record udp_net =
  un_resolve :: "string \<Rightarrow> go_error + udp_addr"
  un_listen :: "udp_addr \<Rightarrow> go_error option"

definition runtime_start :: "udp_net \<Rightarrow> string \<Rightarrow> runtime \<Rightarrow> int \<Rightarrow> go_error + io_system" where
  "runtime_start un address rt now =
     (case un_resolve un address of
        Inl e \<Rightarrow> Inl e
      | Inr addr \<Rightarrow>
          (case un_listen un addr of
             Some e \<Rightarrow> Inl e
           | None \<Rightarrow> Inr (start_system rt now)))"

datatype action =
    Receive bytes nat | Touch | Deliver | Watchdog | Add conn_ref | Remove u32
  | TickStart "u32 list" | TickSend int | Register u32 address | Request u8 cip_path bytes
  | Clock int

inductive io_step :: "io_system \<Rightarrow> action \<Rightarrow> io_system \<Rightarrow> bool" where
  receive: "sy_listener s = Listening \<Longrightarrow> parse_packet buf n = Return (Some (cid, payload)) \<Longrightarrow>
    rt_connections (sy_rt s) cid = Some ref \<Longrightarrow>
    io_step s (Receive buf n) (s\<lparr>sy_listener := Found cid ref payload\<rparr>)"
| drop: "sy_listener s = Listening \<Longrightarrow> parse_packet buf n = Return p \<Longrightarrow>
    p = None \<or> (\<exists>cid payload. p = Some (cid, payload) \<and> rt_connections (sy_rt s) cid = None) \<Longrightarrow>
    io_step s (Receive buf n) s"
| touch: "sy_listener s = Found cid ref payload \<Longrightarrow>
    io_step s Touch (s\<lparr>sy_rt := touch_connection (sy_now s) cid (sy_rt s),
                       sy_listener := Touched ref payload\<rparr>)"
| deliver: "sy_listener s = Touched ref payload \<Longrightarrow>
    io_step s Deliver (s\<lparr>sy_rt := deliver_payload ref payload (sy_rt s),
                         sy_listener := Listening\<rparr>)"
| watchdog: "io_step s Watchdog (s\<lparr>sy_rt := check_timeouts (sy_now s) (sy_rt s)\<rparr>)"
| add: "io_step s (Add ref) (s\<lparr>sy_rt := add_connection (sy_now s) ref (sy_rt s)\<rparr>)"
| remove: "io_step s (Remove cid) (s\<lparr>sy_rt := remove_connection cid (sy_rt s)\<rparr>)"
| tick_start: "sy_pending s = [] \<Longrightarrow> distinct ids \<Longrightarrow> set ids = dom (rt_connections (sy_rt s)) \<Longrightarrow>
    io_step s (TickStart ids) (s\<lparr>sy_pending := tick_producers ids (sy_rt s)\<rparr>)"
| tick_send: "sy_pending s = ref # refs \<Longrightarrow>
    tick_connection (sy_now s, sent) ref (sy_rt s) = Return rt' \<Longrightarrow>
    io_step s (TickSend sent) (s\<lparr>sy_rt := rt', sy_pending := refs\<rparr>)"
| register: "io_step s (Register n a)
    (s\<lparr>sy_rt := (sy_rt s)\<lparr>rt_assemblies := register_assembly (rt_assemblies (sy_rt s)) n a\<rparr>\<rparr>)"
| request: "io_step s (Request service path data)
    (s\<lparr>sy_rt := (sy_rt s)\<lparr>rt_assemblies :=
         snd (assembly_handle (rt_assemblies (sy_rt s)) service path data)\<rparr>\<rparr>)"
| clock: "sy_now s \<le> now \<Longrightarrow> io_step s (Clock now) (s\<lparr>sy_now := now\<rparr>)"

abbreviation io_run :: "io_system \<Rightarrow> action list \<Rightarrow> io_system \<Rightarrow> bool" where
  "io_run \<equiv> runs io_step"

lemmas io_run_Cons = runs.Cons [of io_step]
lemmas io_run_Nil = runs.Nil [of io_step]

section \<open>What a step keeps\<close>

lemma send_packet_keeps:
  assumes "send_packet ref inst rt = Return rt'"
  shows "rt_connections rt' = rt_connections rt" "rt_assemblies rt' = rt_assemblies rt"
    "io_id (rt_store rt' r) = io_id (rt_store rt r)"
    "io_last_receive (rt_store rt' r) = io_last_receive (rt_store rt r)"
  using assms by (auto simp: send_packet_def Let_def split: option.splits if_splits)

lemma tick_connection_keeps:
  assumes "tick_connection tms ref rt = Return rt'"
  shows "rt_connections rt' = rt_connections rt \<and> rt_assemblies rt' = rt_assemblies rt \<and>
    io_id (rt_store rt' r) = io_id (rt_store rt r) \<and>
    io_last_receive (rt_store rt' r) = io_last_receive (rt_store rt r)"
proof (cases tms)
  case (Pair now sent)
  show ?thesis
  proof (cases "time_sub now (io_last_send (rt_store rt ref)) < sint (io_rpi (rt_store rt ref)) \<or>
      io_assembly (rt_store rt ref) = None")
    case True
    then show ?thesis using assms Pair
      by (auto simp: tick_connection_def Let_def split: if_splits)
  next
    case False
    then obtain inst where i: "io_assembly (rt_store rt ref) = Some inst" by auto
    show ?thesis
    proof (cases "send_packet ref inst rt")
      case (Panic e)
      then show ?thesis using assms Pair False i by (simp add: tick_connection_def Let_def)
    next
      case (Return rt1)
      then have "rt' = update_conn ref (\<lambda>c. c\<lparr>io_last_send := sent\<rparr>) rt1"
        using assms Pair False i by (simp add: tick_connection_def Let_def)
      then show ?thesis
        using send_packet_keeps [OF Return] by simp
    qed
  qed
qed

lemma runtime_ids [simp]:
  "io_id (rt_store (touch_connection now cid rt) r) = io_id (rt_store rt r)"
  "io_id (rt_store (add_connection now ref rt) r) = io_id (rt_store rt r)"
  "io_id (rt_store (check_timeouts now rt) r) = io_id (rt_store rt r)"
  "io_id (rt_store (remove_connection cid rt) r) = io_id (rt_store rt r)"
  by (simp_all add: touch_connection_def add_connection_def Let_def check_timeouts_def
      remove_connection_def split: option.split)

lemma runtime_assemblies [simp]:
  "rt_assemblies (touch_connection now cid rt) = rt_assemblies rt"
  "rt_assemblies (add_connection now ref rt) = rt_assemblies rt"
  "rt_assemblies (check_timeouts now rt) = rt_assemblies rt"
  "rt_assemblies (remove_connection cid rt) = rt_assemblies rt"
  by (simp_all add: touch_connection_def add_connection_def Let_def check_timeouts_def
      remove_connection_def split: option.split)

lemma runtime_table:
  "rt_connections (touch_connection now cid rt) = rt_connections rt"
  "rt_connections (add_connection now ref rt) = (rt_connections rt)(io_id (rt_store rt ref) \<mapsto> ref)"
  "rt_connections (remove_connection c rt) = (rt_connections rt)(c := None)"
  by (simp_all add: touch_connection_def add_connection_def Let_def remove_connection_def
      split: option.split)

lemma step_ids:
  "io_step s a s' \<Longrightarrow> io_id (rt_store (sy_rt s') r) = io_id (rt_store (sy_rt s) r)"
  by (induction rule: io_step.induct) (auto dest: tick_connection_keeps)

section \<open>Invariants\<close>

lemma time_sub_nonneg: "u \<le> t \<Longrightarrow> 0 \<le> time_sub t u"
  by (simp add: time_sub_def max_def min_def)

text \<open>
  The invariant of the system: the assemblies keep their sizes, and no connection of the table
  was last heard of in the future.
\<close>

definition system_inv :: "(address \<Rightarrow> nat) \<Rightarrow> io_system \<Rightarrow> bool" where
  "system_inv sizes s \<longleftrightarrow>
     assembly_inv sizes (rt_assemblies (sy_rt s)) \<and>
     (\<forall>cid ref. rt_connections (sy_rt s) cid = Some ref \<longrightarrow>
        io_last_receive (rt_store (sy_rt s) ref) \<le> sy_now s)"

lemma deliver_payload_inv:
  "assembly_inv sizes (rt_assemblies rt) \<Longrightarrow>
   assembly_inv sizes (rt_assemblies (deliver_payload ref payload rt))"
proof -
  assume inv: "assembly_inv sizes (rt_assemblies rt)"
  have "assembly_inv sizes (snd (set_attribute_single (rt_assemblies rt) i 3 d))" for i d
    using set_attribute_inv [of "rt_assemblies rt" i 3 d] inv
    by (cases "set_attribute_single (rt_assemblies rt) i 3 d") simp
  then show ?thesis using inv by (simp add: deliver_payload_def Let_def split: option.split)
qed

lemma io_step_inv:
  assumes "io_step s a s'" and "system_inv sizes s"
  shows "system_inv sizes s'"
  using assms
proof (induction rule: io_step.induct)
  case (touch s cid ref payload)
  then show ?case
    by (auto simp: system_inv_def touch_connection_def split: option.split)
next
  case (watchdog s)
  then show ?case
    by (auto simp: system_inv_def check_timeouts_def split: option.splits if_splits)
next
  case (add s ref)
  then show ?case
    by (auto simp: system_inv_def add_connection_def Let_def split: if_splits)
next
  case (remove s cid)
  then show ?case by (auto simp: system_inv_def remove_connection_def split: if_splits)
next
  case (tick_send s ref refs sent rt')
  then show ?case
    using tick_connection_keeps [OF tick_send(2)] by (auto simp: system_inv_def)
next
  case (register s n a)
  then show ?case by (simp add: system_inv_def assembly_inv_register)
next
  case (request s service path data)
  then show ?case
    using assembly_obj.handle_inv [of sizes "rt_assemblies (sy_rt s)" service path data]
    by (auto simp: system_inv_def)
next
  case (clock s now)
  then show ?case by (force simp: system_inv_def)
qed (auto simp: system_inv_def deliver_payload_inv)

interpretation io: step_invariant io_step "system_inv sizes" "\<lambda>_. True" for sizes
  by unfold_locales (auto intro: io_step_inv)

lemma step_absent:
  assumes "io_step s a s'" and "rt_connections (sy_rt s) cid = None"
    and "\<And>ref. a = Add ref \<Longrightarrow> io_id (rt_store (sy_rt s) ref) \<noteq> cid"
  shows "rt_connections (sy_rt s') cid = None"
  using assms
  by (induction rule: io_step.induct)
    (auto simp: runtime_table check_timeouts_at dest: tick_connection_keeps)

lemma run_absent:
  "io_run s as s' \<Longrightarrow> rt_connections (sy_rt s) cid = None \<Longrightarrow>
   (\<forall>ref. Add ref \<in> set as \<longrightarrow> io_id (rt_store (sy_rt s) ref) \<noteq> cid) \<Longrightarrow>
   rt_connections (sy_rt s') cid = None"
proof (induction rule: runs.induct)
  case (Nil s)
  then show ?case by simp
next
  case (Cons s a s' as s'')
  then show ?case
    using step_absent [OF Cons(1), of cid] step_ids [OF Cons(1)] by auto
qed

section \<open>Sequence counts\<close>

text \<open>The packets for a connection among those sent, and the sequence count in one.\<close>

definition packets_for :: "u32 \<Rightarrow> (bytes \<times> udp_addr) list \<Rightarrow> bytes list" where
  "packets_for cid sent = filter (\<lambda>p. get_u32 (drop 6 p) = cid) (map fst sent)"

definition packet_seq :: "bytes \<Rightarrow> u16" where
  "packet_seq p = get_u16 (drop 14 p)"

lemma packet_seq_head [simp]: "packet_seq (packet_head c d @ d) = io_seq c"
  by (simp add: packet_head_def packet_seq_def)

lemma packets_for_head [simp]:
  "packets_for cid (sent @ [(packet_head c d @ d, addr)]) =
     packets_for cid sent @ (if io_id c = cid then [packet_head c d @ d] else [])"
proof -
  have "get_u32 (drop 6 (packet_head c d @ d)) = io_id c" by (simp add: packet_head_def)
  then show ?thesis by (simp add: packets_for_def del: drop_append)
qed

text \<open>
  Connection ref, which alone has the identifier cid: n packets were sent for it, with consecutive
  sequence counts, and its count is that of the last one; without an address none was sent.
\<close>

definition seq_inv :: "(conn_ref \<Rightarrow> io_connection) \<Rightarrow> u32 \<Rightarrow> conn_ref \<Rightarrow> io_system \<Rightarrow> bool" where
  "seq_inv store cid ref s \<longleftrightarrow>
     (\<forall>r. io_id (rt_store (sy_rt s) r) = io_id (store r)) \<and>
     (\<exists>n. map packet_seq (packets_for cid (rt_sent (sy_rt s))) =
          map (\<lambda>k. io_seq (store ref) + 1 + word_of_nat k) [0..<n] \<and>
        (if io_remote (rt_store (sy_rt s) ref) = None then n = 0
         else io_seq (rt_store (sy_rt s) ref) = io_seq (store ref) + word_of_nat n))"

lemma seq_invI:
  assumes "\<forall>r. io_id (rt_store (sy_rt s) r) = io_id (store r)"
    and "map packet_seq (packets_for cid (rt_sent (sy_rt s))) =
      map (\<lambda>k. io_seq (store ref) + 1 + word_of_nat k) [0..<n]"
    and "if io_remote (rt_store (sy_rt s) ref) = None then n = 0
      else io_seq (rt_store (sy_rt s) ref) = io_seq (store ref) + word_of_nat n"
  shows "seq_inv store cid ref s"
  using assms unfolding seq_inv_def by blast

lemma runtime_sent [simp]:
  "rt_sent (touch_connection now cid rt) = rt_sent rt"
  "rt_sent (add_connection now ref rt) = rt_sent rt"
  "rt_sent (check_timeouts now rt) = rt_sent rt"
  "rt_sent (remove_connection cid rt) = rt_sent rt"
  "io_seq (rt_store (touch_connection now cid rt) r) = io_seq (rt_store rt r)"
  "io_seq (rt_store (add_connection now ref rt) r) = io_seq (rt_store rt r)"
  "io_seq (rt_store (check_timeouts now rt) r) = io_seq (rt_store rt r)"
  "io_seq (rt_store (remove_connection cid rt) r) = io_seq (rt_store rt r)"
  "io_remote (rt_store (touch_connection now cid rt) r) = io_remote (rt_store rt r)"
  "io_remote (rt_store (add_connection now ref rt) r) = io_remote (rt_store rt r)"
  "io_remote (rt_store (check_timeouts now rt) r) = io_remote (rt_store rt r)"
  "io_remote (rt_store (remove_connection cid rt) r) = io_remote (rt_store rt r)"
  by (simp_all add: touch_connection_def add_connection_def Let_def check_timeouts_def
      remove_connection_def split: option.split)

text \<open>One producer of a tick: nothing is sent and no count changes, or one packet with the next.\<close>

lemma tick_connection_seq:
  assumes "tick_connection tms ref rt = Return rt'"
  obtains "rt_sent rt' = rt_sent rt"
      "\<forall>r. io_seq (rt_store rt' r) = io_seq (rt_store rt r) \<and>
           io_remote (rt_store rt' r) = io_remote (rt_store rt r)"
  | "io_remote (rt_store rt ref) = None" "rt_sent rt' = rt_sent rt"
      "\<forall>r. r \<noteq> ref \<longrightarrow> io_seq (rt_store rt' r) = io_seq (rt_store rt r)"
      "\<forall>r. io_remote (rt_store rt' r) = io_remote (rt_store rt r)"
  | addr c d where "io_id c = io_id (rt_store rt ref)" "io_seq c = io_seq (rt_store rt ref) + 1"
      "rt_sent rt' = rt_sent rt @ [(packet_head c d @ d, addr)]"
      "\<forall>r. io_seq (rt_store rt' r) = io_seq (rt_store rt r) + (if r = ref then 1 else 0)"
      "\<forall>r. io_remote (rt_store rt' r) = io_remote (rt_store rt r)"
      "io_remote (rt_store rt ref) = Some addr"
proof -
  let ?c = "(rt_store rt ref)\<lparr>io_seq := io_seq (rt_store rt ref) + 1\<rparr>"
  show thesis
  proof (cases "io_assembly (rt_store rt ref)")
    case None
    then show thesis using assms that(1) by (cases tms) (auto simp: tick_connection_def Let_def split: if_splits)
  next
    case (Some inst)
    let ?d = "as_heap (rt_assemblies rt) (ai_data inst)"
    show thesis
    proof (cases "time_sub (fst tms) (io_last_send (rt_store rt ref)) < sint (io_rpi (rt_store rt ref))")
      case True
      then show thesis using assms that(1) by (cases tms) (auto simp: tick_connection_def Let_def)
    next
      case due: False
      show thesis
      proof (cases "io_remote (rt_store rt ref)")
        case None
        then show thesis
          using assms Some due that(2)
          by (cases tms) (auto simp: tick_connection_def send_packet_def Let_def)
      next
        case (Some addr)
        then show thesis
          using assms \<open>io_assembly (rt_store rt ref) = Some inst\<close> due that(3) [of ?c ?d addr]
          by (cases tms) (auto simp: tick_connection_def send_packet_def Let_def split: if_splits)
      qed
    qed
  qed
qed

lemma seq_step:
  assumes "io_step s a s'" and only: "\<forall>r. io_id (store r) = cid \<longleftrightarrow> r = ref" and "seq_inv store cid ref s"
  shows "seq_inv store cid ref s'"
  using assms(1, 3)
proof (induction rule: io_step.induct)
  case (tick_send s r refs sent rt')
  have ids: "\<forall>r. io_id (rt_store rt' r) = io_id (store r)"
    using tick_connection_keeps [OF tick_send(2)] tick_send(3) by (simp add: seq_inv_def)
  obtain n where n: "map packet_seq (packets_for cid (rt_sent (sy_rt s))) =
          map (\<lambda>k. io_seq (store ref) + 1 + word_of_nat k) [0..<n]"
      "if io_remote (rt_store (sy_rt s) ref) = None then n = 0
       else io_seq (rt_store (sy_rt s) ref) = io_seq (store ref) + word_of_nat n"
    using tick_send(3) unfolding seq_inv_def by blast
  from tick_send(2) show ?case
  proof (cases rule: tick_connection_seq)
    case 1
    then show ?thesis using ids n by (intro seq_invI [of _ store cid ref n]) simp_all
  next
    case 2
    then have "io_remote (rt_store (sy_rt s) ref) \<noteq> None \<Longrightarrow> r \<noteq> ref" by auto
    then show ?thesis using 2 ids n by (intro seq_invI [of _ store cid ref n]) auto
  next
    case (3 addr c d)
    have id: "io_id c = cid \<longleftrightarrow> r = ref"
      using 3(1) tick_send(3) only by (simp add: seq_inv_def)
    show ?thesis
    proof (cases "r = ref")
      case True
      then have "io_seq (rt_store (sy_rt s) ref) = io_seq (store ref) + word_of_nat n"
        using n(2) 3(6) by simp
      then show ?thesis
        using True 3 id ids n(1)
        by (intro seq_invI [of _ store cid ref "Suc n"]) (simp_all add: ac_simps)
    next
      case False
      then show ?thesis
        using 3 id ids n by (intro seq_invI [of _ store cid ref n]) simp_all
    qed
  qed
qed (auto simp: seq_inv_def)

lemma seq_run:
  assumes "\<forall>r. io_id (store r) = cid \<longleftrightarrow> r = ref"
  shows "io_run s as s' \<Longrightarrow> seq_inv store cid ref s \<Longrightarrow> seq_inv store cid ref s'"
  by (induction rule: runs.induct) (auto intro: seq_step [OF _ assms])

section \<open>Properties\<close>

text \<open>
  C9: in every interleaving of the goroutines, with any assemblies registered and any connections
  added at any time, any packets and any requests, the data of every assembly keeps its size,
  every assembly is found under its own identifier, and no connection of the table has a time
  of last receipt in the future, so the silence the watchdog measures is never negative.
\<close>

theorem interleaving_invariant:
  assumes "io_run (start_system (new_runtime store (new_assembly_object heap)) t0) as s"
  shows "(\<forall>a. length (as_heap (rt_assemblies (sy_rt s)) a) = length (heap a)) \<and>
    (\<forall>n inst. as_instances (rt_assemblies (sy_rt s)) n = Some inst \<longrightarrow> ai_id inst = n) \<and>
    (\<forall>cid ref. rt_connections (sy_rt s) cid = Some ref \<longrightarrow>
       time_sub (sy_now s) (io_last_receive (rt_store (sy_rt s) ref)) \<ge> 0)"
proof -
  have "system_inv (\<lambda>a. length (heap a))
      (start_system (new_runtime store (new_assembly_object heap)) t0)"
    by (simp add: system_inv_def start_system_def new_runtime_def assembly_inv_new)
  from io.run_inv [OF assms this] show ?thesis
    by (auto simp: system_inv_def assembly_inv_def intro: time_sub_nonneg)
qed

text \<open>
  In the witness an assembly of two bytes is registered, and a request writes it; a second one
  with three bytes is refused.
\<close>

theorem interleaving_invariant_witness:
  "\<exists>s. io_run (start_system (new_runtime (\<lambda>_. example_conn True 0) (new_assembly_object (\<lambda>_. [0, 0]))) 5)
         [Register 100 1, Add 3, Clock 9,
          Request ServiceSetAttributeSingle (segment 0x24 100 @ segment 0x30 3) [8, 9],
          Request ServiceSetAttributeSingle (segment 0x24 100 @ segment 0x30 3) [8, 9, 10]] s \<and>
       as_heap (rt_assemblies (sy_rt s)) 1 = [8, 9] \<and>
       time_sub (sy_now s) (io_last_receive (rt_store (sy_rt s) 3)) \<ge> 0 \<and>
       length (as_heap (rt_assemblies (sy_rt s)) 0) = 2"
proof -
  let ?path = "segment 0x24 100 @ segment 0x30 3"
  let ?s0 = "start_system (new_runtime (\<lambda>_. example_conn True 0) (new_assembly_object (\<lambda>_. [0, 0]))) 5"
  define s1 where "s1 = ?s0\<lparr>sy_rt := (sy_rt ?s0)\<lparr>rt_assemblies :=
    register_assembly (rt_assemblies (sy_rt ?s0)) 100 1\<rparr>\<rparr>"
  define s2 where "s2 = s1\<lparr>sy_rt := add_connection (sy_now s1) 3 (sy_rt s1)\<rparr>"
  define s3 where "s3 = s2\<lparr>sy_now := 9\<rparr>"
  define s4 where "s4 = s3\<lparr>sy_rt := (sy_rt s3)\<lparr>rt_assemblies :=
    snd (assembly_handle (rt_assemblies (sy_rt s3)) ServiceSetAttributeSingle ?path [8, 9])\<rparr>\<rparr>"
  define s5 where "s5 = s4\<lparr>sy_rt := (sy_rt s4)\<lparr>rt_assemblies :=
    snd (assembly_handle (rt_assemblies (sy_rt s4)) ServiceSetAttributeSingle ?path [8, 9, 10])\<rparr>\<rparr>"
  have tick: "io_step s2 (Clock 9) s3"
    unfolding s3_def by (rule io_step.clock) (simp add: s2_def s1_def start_system_def)
  have steps: "io_step ?s0 (Register 100 1) s1" "io_step s1 (Add 3) s2"
      "io_step s3 (Request ServiceSetAttributeSingle ?path [8, 9]) s4"
      "io_step s4 (Request ServiceSetAttributeSingle ?path [8, 9, 10]) s5"
    unfolding s1_def s2_def s4_def s5_def
    by (rule io_step.register, rule io_step.add, rule io_step.request, rule io_step.request)
  have run: "io_run ?s0 [Register 100 1, Add 3, Clock 9, Request ServiceSetAttributeSingle ?path [8, 9],
      Request ServiceSetAttributeSingle ?path [8, 9, 10]] s5"
    by (rule runs.Cons, rule steps(1), rule runs.Cons, rule steps(2), rule runs.Cons, rule tick,
        rule runs.Cons, rule steps(3), rule runs.Cons, rule steps(4), rule runs.Nil)
  have path: "parse_instance ?path = Inr (100, segment 0x30 3)" "parse_attribute (segment 0x30 3) = Inr 3"
    by simp_all
  have heap: "as_heap (rt_assemblies (sy_rt s5)) 1 = [8, 9]" "rt_connections (sy_rt s5) 7 = Some 3"
    by (simp_all add: s5_def s4_def s3_def s2_def s1_def assembly_handle_def path set_attribute_single_def
        start_system_def new_runtime_def add_connection_def register_assembly_def new_assembly_object_def
        example_conn_def)
  with interleaving_invariant [OF run] run show ?thesis by auto
qed

text \<open>
  C35: in every interleaving of the goroutines, whatever is added, removed or timed out meanwhile,
  the packets sent for a connection carry consecutive sequence counts: the first the one after
  the connection's initial count, each later one one more (modulo 65536), none twice and none
  left out.  (No other connection has its identifier.)
\<close>

theorem produced_sequence:
  assumes "io_run (start_system (new_runtime store (new_assembly_object heap)) t0) as s"
    and "\<forall>r. io_id (store r) = cid \<longleftrightarrow> r = ref"
  shows "\<exists>n. map packet_seq (packets_for cid (rt_sent (sy_rt s))) =
      map (\<lambda>k. io_seq (store ref) + 1 + word_of_nat k) [0..<n]"
proof -
  have "seq_inv store cid ref (start_system (new_runtime store (new_assembly_object heap)) t0)"
    by (simp add: seq_inv_def start_system_def new_runtime_def packets_for_def)
  from seq_run [OF assms(2) assms(1) this] show ?thesis
    unfolding seq_inv_def by blast
qed

text \<open>In the witness the connection is removed between the start of a tick and its packet.\<close>

theorem produced_sequence_witness:
  "\<exists>s. io_run (start_system (new_runtime (\<lambda>r. if r = 3 then example_conn True 0 else
         (example_conn True 0)\<lparr>io_id := 0\<rparr>) (new_assembly_object (\<lambda>_. [0, 0]))) 5000)
       [Add 3, TickStart [7], Remove 7, TickSend 5001] s \<and>
     map packet_seq (packets_for 7 (rt_sent (sy_rt s))) = [42]"
proof -
  let ?store = "\<lambda>r. if r = 3 then example_conn True 0 else (example_conn True 0)\<lparr>io_id := 0\<rparr>"
  let ?s0 = "start_system (new_runtime ?store (new_assembly_object (\<lambda>_. [0, 0]))) 5000"
  define s1 where "s1 = ?s0\<lparr>sy_rt := add_connection (sy_now ?s0) 3 (sy_rt ?s0)\<rparr>"
  define s2 where "s2 = s1\<lparr>sy_pending := tick_producers [7] (sy_rt s1)\<rparr>"
  define s3 where "s3 = s2\<lparr>sy_rt := remove_connection 7 (sy_rt s2)\<rparr>"
  have s1: "rt_connections (sy_rt s1) = [7 \<mapsto> 3]" "sy_pending s1 = []" "sy_now s1 = 5000"
      "rt_store (sy_rt s1) 3 = (example_conn True 0)\<lparr>io_last_receive := 5000\<rparr>"
      "rt_sent (sy_rt s1) = []" "as_heap (rt_assemblies (sy_rt s1)) = (\<lambda>_. [0, 0])"
    by (simp_all add: s1_def start_system_def new_runtime_def add_connection_def example_conn_def
        new_assembly_object_def)
  have s3: "sy_pending s3 = [3]" "sy_now s3 = 5000" "rt_sent (sy_rt s3) = []"
      "rt_store (sy_rt s3) 3 = (example_conn True 0)\<lparr>io_last_receive := 5000\<rparr>"
      "as_heap (rt_assemblies (sy_rt s3)) = (\<lambda>_. [0, 0])"
    by (simp_all add: s3_def s2_def s1 remove_connection_def tick_producers_def) (simp add: example_conn_def)
  have steps: "io_step ?s0 (Add 3) s1" "io_step s2 (Remove 7) s3"
    unfolding s1_def s3_def by (rule io_step.add, rule io_step.remove)
  have tick: "io_step s1 (TickStart [7]) s2"
    unfolding s2_def by (rule io_step.tick_start) (simp_all add: s1)
  have "length (due_data (rt_assemblies (sy_rt s3)) (rt_store (sy_rt s3) 3)) \<le> 2000"
    by (simp add: s3 due_data_def example_conn_def)
  note due = tick_connection_due [OF this, of "(sy_now s3, 5001)"]
  have one: "length (packets_for 7
      (due_packets (rt_assemblies (sy_rt s3)) (sy_now s3, 5001) (rt_store (sy_rt s3) 3))) = 1"
    by (simp add: s3 due_packets_def is_due_def time_sub_def example_conn_def packets_for_def io_packet_def)
  obtain s4 where send: "io_step s3 (TickSend 5001) s4"
      and len: "length (packets_for 7 (rt_sent (sy_rt s4))) = 1"
    using io_step.tick_send [OF s3(1) due] one s3(3) by fastforce
  have run: "io_run ?s0 [Add 3, TickStart [7], Remove 7, TickSend 5001] s4"
    by (rule runs.Cons, rule steps(1), rule runs.Cons, rule tick, rule runs.Cons, rule steps(2),
        rule runs.Cons, rule send, rule runs.Nil)
  have only: "\<forall>r. io_id (?store r) = 7 \<longleftrightarrow> r = 3" by (simp add: example_conn_def)
  obtain n where n: "map packet_seq (packets_for 7 (rt_sent (sy_rt s4))) =
      map (\<lambda>k. io_seq (?store (3 :: nat)) + 1 + word_of_nat k) [0..<n]"
    using produced_sequence [OF run only] by blast
  then have "n = 1" using arg_cong [OF n, of length] len unfolding length_map length_upt by simp
  with n run show ?thesis by (intro exI [of _ s4]) (simp add: example_conn_def)
qed

text \<open>
  C34: a connection that was removed, by the watchdog or by a caller, stays removed in every
  interleaving until a connection with its identifier is added again, so later packets for it
  are dropped.
\<close>

theorem removed_stays_removed:
  assumes "io_step s a s1" and "a = Remove cid \<or> a = Watchdog"
    and "rt_connections (sy_rt s1) cid = None"
    and "io_run s1 as s2"
    and "\<forall>ref. Add ref \<in> set as \<longrightarrow> io_id (rt_store (sy_rt s1) ref) \<noteq> cid"
  shows "rt_connections (sy_rt s2) cid = None \<and>
    handle_packet now (io_packet cid []) 14 (sy_rt s2) = Return (sy_rt s2)"
proof -
  have none: "rt_connections (sy_rt s2) cid = None"
    by (rule run_absent [OF assms(4, 3, 5)])
  have "parse_packet (io_packet cid []) 14 = Return (Some (cid, []))"
    using parse_packet_meaning [of "io_packet cid []" 14] packet_meaning_packet [of "[]" cid] by simp
  then show ?thesis using none by (simp add: handle_packet_def)
qed

theorem removed_stays_removed_witness:
  "\<exists>s1 s2. io_step (start_system (example_runtime True 0 2) 5) (Remove 7) s1 \<and>
     io_run s1 [Watchdog, TickStart []] s2 \<and> rt_connections (sy_rt s2) 7 = None"
proof -
  let ?s = "start_system (example_runtime True 0 2) 5"
  let ?s1 = "?s\<lparr>sy_rt := remove_connection 7 (sy_rt ?s)\<rparr>"
  let ?s2 = "?s1\<lparr>sy_rt := check_timeouts (sy_now ?s1) (sy_rt ?s1)\<rparr>"
  let ?s3 = "?s2\<lparr>sy_pending := tick_producers [] (sy_rt ?s2)\<rparr>"
  have step: "io_step ?s (Remove 7) ?s1" by (rule io_step.remove)
  have tick: "io_step ?s2 (TickStart []) ?s3"
    by (rule io_step.tick_start) (auto simp: start_system_def remove_connection_def check_timeouts_def dom_def)
  have run: "io_run ?s1 [Watchdog, TickStart []] ?s3"
    by (rule io_run_Cons [OF io_step.watchdog io_run_Cons [OF tick io_run_Nil]])
  have none: "rt_connections (sy_rt ?s1) 7 = None" by (simp add: remove_connection_def)
  have "rt_connections (sy_rt ?s3) 7 = None"
    using removed_stays_removed [OF step disjI1 [OF refl] none run, of 0] by simp
  with step run show ?thesis by blast
qed

text \<open>
  A packet in flight survives the removal of its connection: there is a run in which the
  listener has looked a connection up, the connection is removed, and the payload is then still
  written to the assembly.
\<close>

theorem delivery_after_removal:
  "\<exists>s s'. io_run (start_system (example_runtime False 0 2) 5) [Receive (io_packet 7 [1, 2]) 16, Remove 7] s \<and>
     rt_connections (sy_rt s) 7 = None \<and>
     io_run s [Touch, Deliver] s' \<and> as_heap (rt_assemblies (sy_rt s')) 0 = [1, 2]"
proof -
  let ?s0 = "start_system (example_runtime False 0 2) 5"
  let ?s1 = "?s0\<lparr>sy_listener := Found 7 0 [1, 2]\<rparr>"
  let ?s2 = "?s1\<lparr>sy_rt := remove_connection 7 (sy_rt ?s1)\<rparr>"
  let ?s3 = "?s2\<lparr>sy_rt := touch_connection (sy_now ?s2) 7 (sy_rt ?s2), sy_listener := Touched 0 [1, 2]\<rparr>"
  let ?s4 = "?s3\<lparr>sy_rt := deliver_payload 0 [1, 2] (sy_rt ?s3), sy_listener := Listening\<rparr>"
  have "parse_packet (io_packet 7 [1, 2]) 16 = Return (Some (7, [1, 2]))"
    using parse_packet_meaning [of "io_packet 7 [1, 2]" 16]
      packet_meaning_packet [of "[1, 2]" 7] by simp
  then have receive: "io_step ?s0 (Receive (io_packet 7 [1, 2]) 16) ?s1"
    by (rule io_step.receive [rotated]) (simp_all add: start_system_def)
  have run1: "io_run ?s0 [Receive (io_packet 7 [1, 2]) 16, Remove 7] ?s2"
    by (rule io_run_Cons [OF receive io_run_Cons [OF io_step.remove io_run_Nil]])
  have touch: "io_step ?s2 Touch ?s3" by (rule io_step.touch) simp
  have deliver: "io_step ?s3 Deliver ?s4" by (rule io_step.deliver) simp
  have run2: "io_run ?s2 [Touch, Deliver] ?s4"
    by (rule io_run_Cons [OF touch io_run_Cons [OF deliver io_run_Nil]])
  have none: "rt_connections (sy_rt ?s2) 7 = None" by (simp add: remove_connection_def)
  then have "as_heap (rt_assemblies (sy_rt ?s4)) 0 = [1, 2]"
    by (simp add: touch_connection_def remove_connection_def deliver_payload_def
        set_attribute_single_def start_system_def example_conn_def)
  with run1 run2 none show ?thesis by blast
qed

end
