(* ===== verification/Go_Text.thy ===== *)
theory Go_Text
  imports Go_Prelude
begin

text \<open>
  Text in Go is a slice of bytes.  This theory holds what goeip uses of \<open>strconv\<close> (\<open>ParseInt\<close>,
  \<open>ParseUint\<close>, \<open>ParseBool\<close>), of \<open>fmt\<close> (the verbs \<open>%d\<close>, \<open>%v\<close> of a bool, \<open>%X\<close> and \<open>%f\<close>) and of
  \<open>strings\<close> (\<open>Split\<close>, \<open>ToLower\<close>), and the round trips between printing and parsing numbers.  What is
  printed and parsed back is stated as the locale \<open>printed\<close>, interpreted for signed and unsigned
  integers of every width.
\<close>

section \<open>Literals and digits\<close>

definition lit :: "string \<Rightarrow> bytes" where
  "lit s = map of_char s"

lemma lit_simps [simp]: "lit [] = []" "lit (c # s) = of_char c # lit s"
  by (simp_all add: lit_def)

lemma lit_append: "lit (a @ b) = lit a @ lit b"
  by (simp add: lit_def)

lemma length_lit [simp]: "length (lit s) = length s"
  by (simp add: lit_def)

lemma of_char_byte: "unat (of_char c :: byte) = of_char c"
proof -
  have "(of_char c :: byte) = word_of_nat (of_char c)" by (rule of_nat_of_char [symmetric])
  then show ?thesis by (simp add: unat_of_nat)
qed

lemma inj_lit: "inj lit"
proof -
  have "inj (of_char :: char \<Rightarrow> byte)"
    by (rule injI) (metis of_char_byte of_char_eq_iff)
  then show ?thesis unfolding lit_def by (rule inj_mapI)
qed

definition is_decimal :: "byte \<Rightarrow> bool" where
  "is_decimal c \<longleftrightarrow> 48 \<le> c \<and> c \<le> 57"

definition decimal_value :: "byte \<Rightarrow> nat" where
  "decimal_value c = unat c - 48"

definition decimal_digit :: "nat \<Rightarrow> byte" where
  "decimal_digit d = word_of_nat (48 + d)"

lemma unat_decimal_digit: "d < 10 \<Longrightarrow> unat (decimal_digit d) = 48 + d"
  unfolding decimal_digit_def by (subst unat_of_nat) simp

lemma decimal_digit [simp]:
  assumes "d < 10"
  shows "is_decimal (decimal_digit d)" "decimal_value (decimal_digit d) = d"
  using unat_decimal_digit [OF assms] assms
  by (simp_all add: is_decimal_def decimal_value_def word_le_nat_alt)

lemma decimal_digit_value: "is_decimal c \<Longrightarrow> decimal_digit (decimal_value c) = c \<and> decimal_value c < 10"
  by (auto simp: is_decimal_def decimal_value_def decimal_digit_def word_le_nat_alt)

section \<open>Printing integers: the verb \<open>%d\<close>\<close>

fun dec_nat :: "nat \<Rightarrow> bytes" where
  "dec_nat n =
     (if n < 10 then [decimal_digit n] else dec_nat (n div 10) @ [decimal_digit (n mod 10)])"

declare dec_nat.simps [simp del]

definition dec_int :: "int \<Rightarrow> bytes" where
  "dec_int i = (if i < 0 then 45 # dec_nat (nat (- i)) else dec_nat (nat i))"

text \<open>The number that a string of digits denotes.\<close>

definition digits_value :: "nat \<Rightarrow> bytes \<Rightarrow> nat" where
  "digits_value = foldl (\<lambda>n c. n * 10 + decimal_value c)"

lemma digits_value_simps [simp]:
  "digits_value n [] = n"
  "digits_value n (c # cs) = digits_value (n * 10 + decimal_value c) cs"
  "digits_value n (cs @ ds) = digits_value (digits_value n cs) ds"
  by (simp_all add: digits_value_def)

lemma digits_value_mono: "n \<le> digits_value n cs"
proof (induction cs arbitrary: n)
  case (Cons c cs)
  have "n \<le> n * 10 + decimal_value c" by simp
  also have "\<dots> \<le> digits_value (n * 10 + decimal_value c) cs" by (rule Cons)
  finally show ?case by simp
qed simp

lemma dec_nat_digits: "list_all is_decimal (dec_nat n)"
proof (induction n rule: dec_nat.induct)
  case (1 n)
  then show ?case by (cases "n < 10") (simp_all add: dec_nat.simps [of n])
qed

lemma dec_nat_value: "digits_value 0 (dec_nat n) = n"
proof (induction n rule: dec_nat.induct)
  case (1 n)
  then show ?case by (cases "n < 10") (simp_all add: dec_nat.simps [of n])
qed

lemma dec_nat_not_Nil [simp]: "dec_nat n \<noteq> []"
  by (cases "n < 10") (simp_all add: dec_nat.simps [of n])

lemma inj_dec_nat: "dec_nat m = dec_nat n \<Longrightarrow> m = n"
  by (metis dec_nat_value)

lemma dec_nat_hd: "is_decimal (hd (dec_nat n))"
  using dec_nat_digits [of n] by (cases "dec_nat n") simp_all

section \<open>Parsing integers: \<open>strconv.ParseUint\<close> and \<open>ParseInt\<close> in base 10\<close>

definition syntax_error :: go_error where
  "syntax_error = Errorf ''invalid syntax'' []"

definition range_error :: go_error where
  "range_error = Errorf ''value out of range'' []"

text \<open>
  The loop over the bytes stops at the first byte that is no digit and at the first digit that
  makes the number exceed the maximum, whichever comes first.
\<close>

fun parse_digits :: "nat \<Rightarrow> nat \<Rightarrow> bytes \<Rightarrow> go_error + nat" where
  "parse_digits maxVal n [] = Inr n"
| "parse_digits maxVal n (c # cs) =
     (if \<not> is_decimal c then Inl syntax_error
      else if n * 10 + decimal_value c > maxVal then Inl range_error
      else parse_digits maxVal (n * 10 + decimal_value c) cs)"

definition parse_uint :: "nat \<Rightarrow> bytes \<Rightarrow> go_error + nat" where
  "parse_uint bitSize s = (if s = [] then Inl syntax_error else parse_digits (2 ^ bitSize - 1) 0 s)"

text \<open>
  \<open>ParseInt\<close> reads an optional sign and the magnitude; a magnitude out of the unsigned range is
  out of the signed range too.
\<close>

definition parse_int :: "nat \<Rightarrow> bytes \<Rightarrow> go_error + int" where
  "parse_int bitSize s =
     (if s = [] then Inl syntax_error
      else let neg = (hd s = 45); digits = (if hd s = 43 \<or> hd s = 45 then tl s else s)
           in (case parse_uint bitSize digits of
                 Inl e \<Rightarrow> Inl e
               | Inr un \<Rightarrow>
                   if \<not> neg \<and> un \<ge> 2 ^ (bitSize - 1) then Inl range_error
                   else if neg \<and> un > 2 ^ (bitSize - 1) then Inl range_error
                   else Inr (if neg then - int un else int un)))"

definition parse_bool :: "bytes \<Rightarrow> go_error + bool" where
  "parse_bool s =
     (if s \<in> {lit ''1'', lit ''t'', lit ''T'', lit ''true'', lit ''TRUE'', lit ''True''}
      then Inr True
      else if s \<in> {lit ''0'', lit ''f'', lit ''F'', lit ''false'', lit ''FALSE'', lit ''False''}
      then Inr False
      else Inl syntax_error)"

lemma parse_digits_Inr:
  "parse_digits m n cs = Inr k \<longleftrightarrow>
     list_all is_decimal cs \<and> k = digits_value n cs \<and> (cs = [] \<or> k \<le> m)"
proof (induction cs arbitrary: n)
  case (Cons c cs)
  let ?m = "n * 10 + decimal_value c"
  have "?m \<le> digits_value ?m cs" by (rule digits_value_mono)
  with Cons [of ?m] show ?case by (cases "is_decimal c"; cases cs) auto
qed auto

text \<open>What \<open>ParseUint\<close> accepts: digits whose number has at most the given width.\<close>

lemma parse_uint_Inr:
  "parse_uint k s = Inr n \<longleftrightarrow> s \<noteq> [] \<and> list_all is_decimal s \<and> n = digits_value 0 s \<and> n < 2 ^ k"
proof -
  have "0 < (2 :: nat) ^ k" by simp
  then have "n \<le> 2 ^ k - 1 \<longleftrightarrow> n < 2 ^ k" by linarith
  then show ?thesis by (auto simp: parse_uint_def parse_digits_Inr simp del: One_nat_def)
qed

lemma parse_uint_dec: "n < 2 ^ k \<Longrightarrow> parse_uint k (dec_nat n) = Inr n"
  by (simp add: parse_uint_Inr dec_nat_digits dec_nat_value)

lemma not_decimal_sign [simp]: "\<not> is_decimal 45" "\<not> is_decimal 43"
  by (simp_all add: is_decimal_def word_le_nat_alt)

lemma parse_int_unsigned:
  assumes "s \<noteq> []" and "is_decimal (hd s)"
  shows "parse_int k s = (case parse_uint k s of
      Inl e \<Rightarrow> Inl e
    | Inr un \<Rightarrow> if un \<ge> 2 ^ (k - 1) then Inl range_error else Inr (int un))"
proof -
  have "hd s \<noteq> 43" "hd s \<noteq> 45" using assms(2) by auto
  then show ?thesis using assms(1) by (simp add: parse_int_def split: sum.split)
qed

lemma parse_int_dec:
  assumes "- (2 ^ (k - 1)) \<le> i" and "i < 2 ^ (k - 1)" and "0 < k"
  shows "parse_int k (dec_int i) = Inr i"
proof -
  show ?thesis
  proof (cases "i < 0")
    case True
    then have le: "nat (- i) \<le> 2 ^ (k - 1)" using assms(1) by simp
    moreover have "(2 :: nat) ^ (k - 1) < 2 ^ k" using assms(3) by (cases k) simp_all
    ultimately have "nat (- i) < 2 ^ k" by linarith
    then show ?thesis
      using True le parse_uint_dec [of "nat (- i)" k]
      by (simp add: parse_int_def dec_int_def)
  next
    case False
    then have lt: "nat i < 2 ^ (k - 1)" using assms(2) by (simp add: nat_less_iff)
    moreover have "(2 :: nat) ^ (k - 1) < 2 ^ k" using assms(3) by (cases k) simp_all
    ultimately have "nat i < 2 ^ k" by linarith
    moreover have "is_decimal (hd (dec_nat (nat i)))"
      by (rule dec_nat_hd)
    ultimately show ?thesis
      using False lt parse_uint_dec [of "nat i" k]
      by (simp add: dec_int_def parse_int_unsigned)
  qed
qed

text \<open>Nothing that \<open>ParseInt\<close> accepts is outside the range of the width.\<close>

lemma parse_int_range:
  assumes "parse_int k s = Inr i"
  shows "- (2 ^ (k - 1)) \<le> i" "i < 2 ^ (k - 1)"
proof -
  obtain un where un: "i = (if hd s = 45 then - int un else int un)"
    "hd s = 45 \<longrightarrow> un \<le> 2 ^ (k - 1)" "hd s \<noteq> 45 \<longrightarrow> un < 2 ^ (k - 1)"
    using assms by (auto simp: parse_int_def Let_def not_less not_le split: if_splits sum.splits)
  have le: "int un \<le> 2 ^ (k - 1)" if "un \<le> 2 ^ (k - 1)"
    using that by (metis of_nat_le_iff of_nat_numeral of_nat_power)
  have lt: "int un < 2 ^ (k - 1)" if "un < 2 ^ (k - 1)"
    using that by (metis of_nat_less_iff of_nat_numeral of_nat_power)
  have pos: "(0 :: int) < 2 ^ (k - 1)" by simp
  show "- (2 ^ (k - 1)) \<le> i"
  proof (cases "hd s = 45")
    case False
    then have "0 \<le> i" using un(1) by simp
    with pos show ?thesis by linarith
  qed (use un le in simp)
  show "i < 2 ^ (k - 1)"
  proof (cases "hd s = 45")
    case True
    then have "i \<le> 0" using un(1) by simp
    with pos show ?thesis by linarith
  qed (use un lt in simp)
qed

section \<open>What is printed is parsed back\<close>

text \<open>
  A printer and a parser that agree on the values satisfying \<open>ok\<close>: the parser returns what was
  printed.  Hence different values print differently.
\<close>

locale printed =
  fixes shown :: "'a \<Rightarrow> bytes"
    and parsed :: "bytes \<Rightarrow> go_error + 'a"
    and ok :: "'a \<Rightarrow> bool"
  assumes parse_print: "ok x \<Longrightarrow> parsed (shown x) = Inr x"
begin

lemma print_inj: "ok x \<Longrightarrow> ok y \<Longrightarrow> shown x = shown y \<Longrightarrow> x = y"
  by (metis parse_print sum.inject(2))

lemma reprint: "ok x \<Longrightarrow> parsed (shown x) = Inr y \<Longrightarrow> shown y = shown x"
  by (metis parse_print sum.inject(2))

end

interpretation unsigned: printed dec_nat "parse_uint k" "\<lambda>n. n < 2 ^ k" for k
  by unfold_locales (rule parse_uint_dec)

interpretation signed: printed dec_int "parse_int k"
    "\<lambda>i. - (2 ^ (k - 1)) \<le> i \<and> i < 2 ^ (k - 1) \<and> 0 < k" for k
  by unfold_locales (simp add: parse_int_dec)

definition bool_text :: "bool \<Rightarrow> bytes" where
  "bool_text b = lit (if b then ''true'' else ''false'')"

interpretation bools: printed bool_text parse_bool "\<lambda>_. True"
  by unfold_locales (simp add: bool_text_def parse_bool_def)

text \<open>The verb \<open>%d\<close> of a signed and of an unsigned integer of any width.\<close>

definition dec_signed :: "'a::len word \<Rightarrow> bytes" where
  "dec_signed w = dec_int (sint w)"

definition dec_unsigned :: "'a::len word \<Rightarrow> bytes" where
  "dec_unsigned w = dec_nat (unat w)"

lemma parse_dec_signed: "parse_int LENGTH('a) (dec_signed w) = Inr (sint (w :: 'a::len word))"
  unfolding dec_signed_def
  by (rule parse_int_dec) (use sint_ge [of w] sint_lt [of w] in \<open>simp_all\<close>)

lemma parse_dec_unsigned: "parse_uint LENGTH('a) (dec_unsigned w) = Inr (unat (w :: 'a::len word))"
  unfolding dec_unsigned_def by (rule parse_uint_dec) (rule unsigned_less)

text \<open>Converting a parsed number to the width it was parsed for loses nothing.\<close>

lemma parse_int_word:
  assumes "parse_int LENGTH('a) s = Inr i"
  shows "sint (word_of_int i :: 'a::len word) = i"
  using parse_int_range [OF assms] by (simp add: signed_of_int signed_take_bit_int_eq_self)

lemma parse_uint_word:
  assumes "parse_uint LENGTH('a) s = Inr n"
  shows "unat (word_of_nat n :: 'a::len word) = n"
proof -
  have "n < 2 ^ LENGTH('a)" using assms by (simp add: parse_uint_Inr)
  then show ?thesis by (rule of_nat_inverse [OF refl])
qed

section \<open>The verb \<open>%f\<close>\<close>

text \<open>
  A floating point number is printed with six decimals, correctly rounded from its exact value,
  a tie to the even digit.
\<close>

definition round_half_even :: "nat \<Rightarrow> nat \<Rightarrow> nat" where
  "round_half_even n d =
     (let q = n div d; r = n mod d
      in if 2 * r > d \<or> (2 * r = d \<and> odd q) then q + 1 else q)"

fun dec_fixed :: "nat \<Rightarrow> nat \<Rightarrow> bytes" where
  "dec_fixed 0 n = []"
| "dec_fixed (Suc k) n = dec_fixed k (n div 10) @ [decimal_digit (n mod 10)]"

definition fixed6 :: "nat \<Rightarrow> nat \<Rightarrow> bytes" where
  "fixed6 n d =
     (let s = round_half_even (n * 1000000) d
      in dec_nat (s div 1000000) @ lit ''.'' @ dec_fixed 6 (s mod 1000000))"

text \<open>The IEEE format with e exponent bits and m fraction bits.\<close>

definition fmt_f :: "nat \<Rightarrow> nat \<Rightarrow> nat \<Rightarrow> bytes" where
  "fmt_f e m b =
     (let neg = b div 2 ^ (e + m) = 1;
          ex = b div 2 ^ m mod 2 ^ e;
          frac = b mod 2 ^ m;
          bias = 2 ^ (e - 1) - 1
      in if ex = 2 ^ e - 1
         then (if frac \<noteq> 0 then lit ''NaN'' else if neg then lit ''-Inf'' else lit ''+Inf'')
         else let mant = (if ex = 0 then frac else 2 ^ m + frac); x = max ex 1
              in (if neg then lit ''-'' else []) @
                 (if x \<ge> bias + m then fixed6 (mant * 2 ^ (x - (bias + m))) 1
                  else fixed6 mant (2 ^ (bias + m - x))))"

definition fmt_f32 :: "u32 \<Rightarrow> bytes" where
  "fmt_f32 w = fmt_f 8 23 (unat w)"

definition fmt_f64 :: "u64 \<Rightarrow> bytes" where
  "fmt_f64 w = fmt_f 11 52 (unat w)"

lemma round_half_even_error:
  assumes "0 < d"
  shows "2 * \<bar>int (round_half_even n d) * int d - int n\<bar> \<le> int d"
proof -
  let ?q = "n div d" and ?r = "n mod d"
  have n: "int n = int ?q * int d + int ?r"
    by (metis div_mult_mod_eq of_nat_add of_nat_mult)
  have r: "int ?r < int d" using assms by simp
  show ?thesis
  proof (cases "2 * ?r > d \<or> (2 * ?r = d \<and> odd ?q)")
    case True
    then have up: "round_half_even n d = ?q + 1" and "2 * int ?r \<ge> int d"
      by (auto simp: round_half_even_def Let_def)
    then show ?thesis using n r by (simp add: algebra_simps)
  next
    case False
    then have "round_half_even n d = ?q" and "2 * int ?r \<le> int d"
      by (auto simp: round_half_even_def Let_def)
    then show ?thesis using n by simp
  qed
qed

section \<open>Strings: \<open>Split\<close>, \<open>ToLower\<close>, the verb \<open>%X\<close>\<close>

fun split_on :: "byte \<Rightarrow> bytes \<Rightarrow> bytes list" where
  "split_on sep [] = [[]]"
| "split_on sep (c # cs) =
     (if c = sep then [] # split_on sep cs
      else (c # hd (split_on sep cs)) # tl (split_on sep cs))"

text \<open>
  \<open>strings.ToLower\<close> as far as the result can be ASCII: the letters A to Z, and the two other code
  points whose lower case is an ASCII letter, U+0130 and the Kelvin sign, in UTF-8.
\<close>

fun to_lower :: "bytes \<Rightarrow> bytes" where
  "to_lower [] = []"
| "to_lower (c # cs) =
     (if c = 0xC4 \<and> take 1 cs = [0xB0] then 0x69 # to_lower (drop 1 cs)
      else if c = 0xE2 \<and> take 2 cs = [0x84, 0xAA] then 0x6B # to_lower (drop 2 cs)
      else (if 65 \<le> c \<and> c \<le> 90 then c + 32 else c) # to_lower cs)"

text \<open>The verbs \<open>%04X\<close> and \<open>%08X\<close> of integers of 16 and 32 bits.\<close>

definition hex_word16 :: "u16 \<Rightarrow> bytes" where
  "hex_word16 w = lit (hex4 w)"

definition hex_word32 :: "u32 \<Rightarrow> bytes" where
  "hex_word32 w = lit (hex4 (ucast (drop_bit 16 w)) @ hex4 (ucast w))"

text \<open>The verb \<open>% X\<close> of a byte slice: pairs of digits separated by spaces.\<close>

fun hex_spaced :: "bytes \<Rightarrow> bytes" where
  "hex_spaced [] = []"
| "hex_spaced [b] = lit (hex2 b)"
| "hex_spaced (b # bs) = lit (hex2 b) @ 32 # hex_spaced bs"

lemma split_on_not_Nil [simp]: "split_on sep s \<noteq> []"
  by (cases s) simp_all

lemma split_on_line: "sep \<notin> set l \<Longrightarrow> split_on sep (l @ sep # r) = l # split_on sep r"
  by (induction l) auto

lemma split_on_lines:
  "\<forall>l\<in>set ls. sep \<notin> set l \<Longrightarrow> split_on sep (concat (map (\<lambda>l. l @ [sep]) ls)) = ls @ [[]]"
  by (induction ls) (simp_all add: split_on_line)

end
