(* ===== verification/Logger.thy ===== *)
theory Logger
  imports Go_Text
begin

text \<open>
  Logging, \<open>internal/logger.go\<close>, and what a program writes: a list of events in order.  A line of
  the console logger goes to standard output, behind the date and time that package \<open>log\<close> adds;
  \<open>Stdout\<close> and \<open>Stderr\<close> are texts that \<open>fmt\<close> writes.
\<close>

datatype out_event = LogLine bytes | Stdout bytes | Stderr bytes

type_synonym outputs = "out_event list"

datatype logger = NopLogger | ConsoleLogger

text \<open>\<open>log.Printf\<close> ends a message with a newline unless it has one.\<close>

definition log_line :: "bytes \<Rightarrow> bytes" where
  "log_line s = (if s = [] \<or> last s \<noteq> 10 then s @ [10] else s)"

fun debugf :: "logger \<Rightarrow> bytes \<Rightarrow> outputs" where
  "debugf NopLogger msg = []"
| "debugf ConsoleLogger msg = [LogLine (log_line (lit ''[DEBUG] '' @ msg))]"

fun infof :: "logger \<Rightarrow> bytes \<Rightarrow> outputs" where
  "infof NopLogger msg = []"
| "infof ConsoleLogger msg = [LogLine (log_line (lit ''[INFO]  '' @ msg))]"

fun warnf :: "logger \<Rightarrow> bytes \<Rightarrow> outputs" where
  "warnf NopLogger msg = []"
| "warnf ConsoleLogger msg = [LogLine (log_line (lit ''[WARN]  '' @ msg))]"

fun errorf :: "logger \<Rightarrow> bytes \<Rightarrow> outputs" where
  "errorf NopLogger msg = []"
| "errorf ConsoleLogger msg = [LogLine (log_line (lit ''[ERROR] '' @ msg))]"

text \<open>
  The standard logger writes a line on standard error; after it, \<open>log.Fatalf\<close> exits with 1.
\<close>

definition log_printf :: "bytes \<Rightarrow> outputs" where
  "log_printf msg = [Stderr (log_line msg)]"

definition fatalf :: "bytes \<Rightarrow> outputs" where
  "fatalf msg = log_printf msg"

text \<open>The texts that a program prints on standard output, without its log lines.\<close>

fun stdout_texts :: "outputs \<Rightarrow> bytes list" where
  "stdout_texts [] = []"
| "stdout_texts (Stdout t # out) = t # stdout_texts out"
| "stdout_texts (_ # out) = stdout_texts out"

lemma stdout_texts_append [simp]: "stdout_texts (a @ b) = stdout_texts a @ stdout_texts b"
  by (induction a rule: stdout_texts.induct) simp_all

lemma stdout_texts_log [simp]:
  "stdout_texts (debugf l m) = []" "stdout_texts (infof l m) = []"
  "stdout_texts (warnf l m) = []" "stdout_texts (errorf l m) = []"
  by (cases l; simp)+

text \<open>The level of a line can be read off it: the prefixes of the methods differ.\<close>

lemma log_levels_distinct:
  "errorf ConsoleLogger m \<noteq> infof ConsoleLogger n" "errorf ConsoleLogger m \<noteq> warnf ConsoleLogger n"
  "errorf ConsoleLogger m \<noteq> debugf ConsoleLogger n" "warnf ConsoleLogger m \<noteq> infof ConsoleLogger n"
  by (simp_all add: log_line_def)

end
