(* ===== verification/Cip_Logix.thy ===== *)
theory Cip_Logix
  imports Go_Prelude
begin

text \<open>
  The Logix structures Timer and Counter, \<open>pkg/cip/timer.go\<close> and \<open>pkg/cip/counter.go\<close>: 14 bytes
  with the flags packed into the high bits of a status word.  The \<open>int32\<close> fields are their 32-bit
  two's complement words.
\<close>

text \<open>The mask \<open>1 << k\<close> of 32 bits.\<close>

definition shl1 :: "nat \<Rightarrow> u32" where
  "shl1 k = push_bit k 1"

lemma flag_set [simp]: "w AND shl1 n \<noteq> 0 \<longleftrightarrow> bit w n"
  by (simp add: shl1_def push_bit_eq_mult and_exp_eq_0_iff_not_bit)

lemma bit_shl1 [simp]: "bit (shl1 k) n \<longleftrightarrow> n = k \<and> k < 32"
  by (auto simp: shl1_def bit_simps)

record timer =
  tm_PRE :: u32
  tm_ACC :: u32
  tm_EN :: bool
  tm_TT :: bool
  tm_DN :: bool

definition TimerStatusEN :: nat where [simp]: "TimerStatusEN = 31"
definition TimerStatusTT :: nat where [simp]: "TimerStatusTT = 30"
definition TimerStatusDN :: nat where [simp]: "TimerStatusDN = 29"

definition decode_timer :: "bytes \<Rightarrow> go_error + timer" where
  "decode_timer data =
     (if length data < 14
      then Inl (Errorf ''insufficient data for Timer: expected at least 14 bytes, got %d''
                  [length data])
      else let status = get_u32 (take 4 (drop 2 data));
               pre = get_u32 (take 4 (drop 6 data));
               acc = get_u32 (take 4 (drop 10 data))
           in Inr \<lparr>tm_PRE = pre, tm_ACC = acc,
                   tm_EN = (status AND shl1 TimerStatusEN \<noteq> 0),
                   tm_TT = (status AND shl1 TimerStatusTT \<noteq> 0),
                   tm_DN = (status AND shl1 TimerStatusDN \<noteq> 0)\<rparr>)"

text \<open>\<open>UnmarshalCIP\<close> overwrites the receiver only when the decoding succeeds.\<close>

definition timer_unmarshal :: "timer \<Rightarrow> bytes \<Rightarrow> go_error option \<times> timer" where
  "timer_unmarshal t data =
     (case decode_timer data of Inl e \<Rightarrow> (Some e, t) | Inr d \<Rightarrow> (None, d))"

definition timer_status :: "timer \<Rightarrow> u32" where
  "timer_status t =
     (let status = 0;
          status = (if tm_EN t then status OR shl1 TimerStatusEN else status);
          status = (if tm_TT t then status OR shl1 TimerStatusTT else status);
          status = (if tm_DN t then status OR shl1 TimerStatusDN else status)
      in status)"

definition timer_marshal :: "timer \<Rightarrow> bytes" where
  "timer_marshal t = le16 0 @ le32 (timer_status t) @ le32 (tm_PRE t) @ le32 (tm_ACC t)"

record counter =
  ct_PRE :: u32
  ct_ACC :: u32
  ct_CU :: bool
  ct_CD :: bool
  ct_DN :: bool
  ct_OV :: bool
  ct_UN :: bool

definition CounterStatusCU :: nat where [simp]: "CounterStatusCU = 31"
definition CounterStatusCD :: nat where [simp]: "CounterStatusCD = 30"
definition CounterStatusDN :: nat where [simp]: "CounterStatusDN = 29"
definition CounterStatusOV :: nat where [simp]: "CounterStatusOV = 28"
definition CounterStatusUN :: nat where [simp]: "CounterStatusUN = 27"

definition decode_counter :: "bytes \<Rightarrow> go_error + counter" where
  "decode_counter data =
     (if length data < 14
      then Inl (Errorf ''insufficient data for Counter: expected at least 14 bytes, got %d''
                  [length data])
      else let status = get_u32 (take 4 (drop 2 data));
               pre = get_u32 (take 4 (drop 6 data));
               acc = get_u32 (take 4 (drop 10 data))
           in Inr \<lparr>ct_PRE = pre, ct_ACC = acc,
                   ct_CU = (status AND shl1 CounterStatusCU \<noteq> 0),
                   ct_CD = (status AND shl1 CounterStatusCD \<noteq> 0),
                   ct_DN = (status AND shl1 CounterStatusDN \<noteq> 0),
                   ct_OV = (status AND shl1 CounterStatusOV \<noteq> 0),
                   ct_UN = (status AND shl1 CounterStatusUN \<noteq> 0)\<rparr>)"

definition counter_unmarshal :: "counter \<Rightarrow> bytes \<Rightarrow> go_error option \<times> counter" where
  "counter_unmarshal c data =
     (case decode_counter data of Inl e \<Rightarrow> (Some e, c) | Inr d \<Rightarrow> (None, d))"

definition counter_status :: "counter \<Rightarrow> u32" where
  "counter_status c =
     (let status = 0;
          status = (if ct_CU c then status OR shl1 CounterStatusCU else status);
          status = (if ct_CD c then status OR shl1 CounterStatusCD else status);
          status = (if ct_DN c then status OR shl1 CounterStatusDN else status);
          status = (if ct_OV c then status OR shl1 CounterStatusOV else status);
          status = (if ct_UN c then status OR shl1 CounterStatusUN else status)
      in status)"

definition counter_marshal :: "counter \<Rightarrow> bytes" where
  "counter_marshal c = le16 0 @ le32 (counter_status c) @ le32 (ct_PRE c) @ le32 (ct_ACC c)"

section \<open>Flags as bits\<close>

lemma timer_status_bits:
  "bit (timer_status t) n \<longleftrightarrow>
     (n = 31 \<and> tm_EN t) \<or> (n = 30 \<and> tm_TT t) \<or> (n = 29 \<and> tm_DN t)"
  by (auto simp: timer_status_def Let_def bit_or_iff)

lemma counter_status_bits:
  "bit (counter_status c) n \<longleftrightarrow>
     (n = 31 \<and> ct_CU c) \<or> (n = 30 \<and> ct_CD c) \<or> (n = 29 \<and> ct_DN c) \<or>
     (n = 28 \<and> ct_OV c) \<or> (n = 27 \<and> ct_UN c)"
  by (auto simp: counter_status_def Let_def bit_or_iff)

text \<open>The 14-byte layout both structures share.\<close>

lemma logix_layout:
  fixes z :: u16 and s p a :: u32 and r :: bytes
  defines "b \<equiv> le16 z @ le32 s @ le32 p @ le32 a @ r"
  shows "\<not> length b < 14" "get_u32 (take 4 (drop 2 b)) = s"
    "get_u32 (take 4 (drop 6 b)) = p" "get_u32 (take 4 (drop 10 b)) = a"
  by (simp_all add: b_def)

lemma decode_timer_layout:
  "decode_timer (le16 z @ le32 s @ le32 p @ le32 a @ r) =
     Inr \<lparr>tm_PRE = p, tm_ACC = a, tm_EN = bit s 31, tm_TT = bit s 30, tm_DN = bit s 29\<rparr>"
  unfolding decode_timer_def Let_def logix_layout flag_set
  by simp

lemma decode_counter_layout:
  "decode_counter (le16 z @ le32 s @ le32 p @ le32 a @ r) =
     Inr \<lparr>ct_PRE = p, ct_ACC = a, ct_CU = bit s 31, ct_CD = bit s 30, ct_DN = bit s 29,
          ct_OV = bit s 28, ct_UN = bit s 27\<rparr>"
  unfolding decode_counter_def Let_def logix_layout flag_set
  by simp

lemma timer_decode_marshal: "decode_timer (timer_marshal t @ r) = Inr t"
  using decode_timer_layout [of 0 "timer_status t" "tm_PRE t" "tm_ACC t" r]
  by (simp add: timer_marshal_def timer_status_bits)

lemma counter_decode_marshal: "decode_counter (counter_marshal c @ r) = Inr c"
  using decode_counter_layout [of 0 "counter_status c" "ct_PRE c" "ct_ACC c" r]
  by (simp add: counter_marshal_def counter_status_bits)

lemma logix_marshal_length [simp]:
  "length (timer_marshal t) = 14" "length (counter_marshal c) = 14"
  by (simp_all add: timer_marshal_def counter_marshal_def)

section \<open>Properties\<close>

text \<open>
  Every timer and every counter survives marshalling and decoding, also with data behind
  it, and the marshalled form has the canonical 14 bytes.
\<close>

theorem logix_roundtrip:
  "decode_timer (timer_marshal t @ r) = Inr t \<and> length (timer_marshal t) = 14 \<and>
   decode_counter (counter_marshal c @ r) = Inr c \<and> length (counter_marshal c) = 14"
  by (simp add: timer_decode_marshal counter_decode_marshal)

end
