(* ===== verification/Cip_Value.thy ===== *)
theory Cip_Value
  imports Cip_Types Cip_Logix
begin

text \<open>
  Go values on the wire, \<open>pkg/cip/encode.go\<close> and \<open>pkg/cip/decode.go\<close>: \<open>Marshal\<close>,
  \<open>GoTypeToCIPType\<close> and \<open>Unmarshal\<close>.  A value of type \<open>any\<close> is a basic value, a composite
  (struct, array or slice) of basic values, a value whose type implements Marshaler (given by
  the result of its method), or a value of a type that \<open>binary.Write\<close> does not know.  Integers are two's complement words, floats their IEEE bits.
\<close>

datatype go_basic =
    GBool bool
  | GInt8 u8 | GInt16 u16 | GInt32 u32 | GInt64 u64
  | GUint8 u8 | GUint16 u16 | GUint32 u32 | GUint64 u64
  | GFloat32 u32 | GFloat64 u64
  | GInt u64
  | GString bytes

datatype go_value =
    Basic go_basic
  | Struct "go_basic list"
  | Marshaler "go_error + bytes"
  | OtherValue

text \<open>
  What \<open>binary.Write\<close> accepts: values of fixed size.  The types \<open>int\<close> and \<open>string\<close> are not.
\<close>

fun basic_bytes :: "go_basic \<Rightarrow> bytes option" where
  "basic_bytes (GBool b) = Some [if b then 1 else 0]"
| "basic_bytes (GInt8 w) = Some (le8 w)"
| "basic_bytes (GInt16 w) = Some (le16 w)"
| "basic_bytes (GInt32 w) = Some (le32 w)"
| "basic_bytes (GInt64 w) = Some (le64 w)"
| "basic_bytes (GUint8 w) = Some (le8 w)"
| "basic_bytes (GUint16 w) = Some (le16 w)"
| "basic_bytes (GUint32 w) = Some (le32 w)"
| "basic_bytes (GUint64 w) = Some (le64 w)"
| "basic_bytes (GFloat32 w) = Some (le32 w)"
| "basic_bytes (GFloat64 w) = Some (le64 w)"
| "basic_bytes (GInt w) = None"
| "basic_bytes (GString s) = None"

fun struct_bytes :: "go_basic list \<Rightarrow> bytes option" where
  "struct_bytes [] = Some []"
| "struct_bytes (f # fs) =
     (case basic_bytes f of None \<Rightarrow> None
      | Some b \<Rightarrow> (case struct_bytes fs of None \<Rightarrow> None | Some bs \<Rightarrow> Some (b @ bs)))"

definition write_failed :: go_error where
  "write_failed = Wrapf ''cip: binary.Write failed''
     (Errorf ''binary.Write: some values are not fixed-sized in type'' [])"

definition go_marshal :: "go_value \<Rightarrow> go_error + bytes" where
  "go_marshal v =
     (case v of
        Marshaler r \<Rightarrow> r
      | Basic b \<Rightarrow> (case basic_bytes b of None \<Rightarrow> Inl write_failed | Some bs \<Rightarrow> Inr bs)
      | Struct fs \<Rightarrow> (case struct_bytes fs of None \<Rightarrow> Inl write_failed | Some bs \<Rightarrow> Inr bs)
      | OtherValue \<Rightarrow> Inl write_failed)"

definition unsupported_type :: go_error where
  "unsupported_type = Errorf ''cip: unsupported Go type for automatic mapping'' []"

definition go_type_to_cip_type :: "go_value \<Rightarrow> go_error + data_type" where
  "go_type_to_cip_type v =
     (case v of
        Basic b \<Rightarrow>
          (case b of
             GBool _ \<Rightarrow> Inr TypeBOOL
           | GInt8 _ \<Rightarrow> Inr TypeSINT
           | GInt16 _ \<Rightarrow> Inr TypeINT
           | GInt32 _ \<Rightarrow> Inr TypeDINT
           | GInt _ \<Rightarrow> Inr TypeDINT
           | GInt64 _ \<Rightarrow> Inr TypeLINT
           | GUint8 _ \<Rightarrow> Inr TypeUSINT
           | GUint16 _ \<Rightarrow> Inr TypeUINT
           | GUint32 _ \<Rightarrow> Inr TypeUDINT
           | GUint64 _ \<Rightarrow> Inr TypeULINT
           | GFloat32 _ \<Rightarrow> Inr TypeREAL
           | GFloat64 _ \<Rightarrow> Inr TypeLREAL
           | GString _ \<Rightarrow> Inr TypeSTRING)
      | _ \<Rightarrow> Inl unsupported_type)"

section \<open>Unmarshalling\<close>

text \<open>
  The destination: not a usable pointer, a pointer to a type with \<open>UnmarshalCIP\<close> (given by that
  method), or a pointer to a variable whose current value shows its type.
\<close>

datatype go_dest =
    NonPointer
  | UnmarshalerDest "bytes \<Rightarrow> go_error + go_value"
  | PtrTo "go_basic list" bool

fun basic_size :: "go_basic \<Rightarrow> nat option" where
  "basic_size (GBool _) = Some 1"
| "basic_size (GInt8 _) = Some 1"
| "basic_size (GInt16 _) = Some 2"
| "basic_size (GInt32 _) = Some 4"
| "basic_size (GInt64 _) = Some 8"
| "basic_size (GUint8 _) = Some 1"
| "basic_size (GUint16 _) = Some 2"
| "basic_size (GUint32 _) = Some 4"
| "basic_size (GUint64 _) = Some 8"
| "basic_size (GFloat32 _) = Some 4"
| "basic_size (GFloat64 _) = Some 8"
| "basic_size (GInt _) = None"
| "basic_size (GString _) = None"

fun basic_value :: "go_basic \<Rightarrow> bytes \<Rightarrow> go_basic" where
  "basic_value (GBool _) b = GBool (hd b \<noteq> 0)"
| "basic_value (GInt8 _) b = GInt8 (hd b)"
| "basic_value (GInt16 _) b = GInt16 (get_u16 b)"
| "basic_value (GInt32 _) b = GInt32 (get_u32 b)"
| "basic_value (GInt64 _) b = GInt64 (get_u64 b)"
| "basic_value (GUint8 _) b = GUint8 (hd b)"
| "basic_value (GUint16 _) b = GUint16 (get_u16 b)"
| "basic_value (GUint32 _) b = GUint32 (get_u32 b)"
| "basic_value (GUint64 _) b = GUint64 (get_u64 b)"
| "basic_value (GFloat32 _) b = GFloat32 (get_u32 b)"
| "basic_value (GFloat64 _) b = GFloat64 (get_u64 b)"
| "basic_value (GInt w) b = GInt w"
| "basic_value (GString s) b = GString s"

fun fields_size :: "go_basic list \<Rightarrow> nat option" where
  "fields_size [] = Some 0"
| "fields_size (f # fs) =
     (case basic_size f of None \<Rightarrow> None
      | Some n \<Rightarrow> (case fields_size fs of None \<Rightarrow> None | Some m \<Rightarrow> Some (n + m)))"

fun fields_value :: "go_basic list \<Rightarrow> bytes \<Rightarrow> go_basic list" where
  "fields_value [] b = []"
| "fields_value (f # fs) b =
     basic_value f b # fields_value fs (drop (case basic_size f of None \<Rightarrow> 0 | Some n \<Rightarrow> n) b)"

text \<open>
  \<open>PtrTo fs s\<close> points to a struct with the fields fs when s holds, and to the one basic value in
  fs otherwise.  \<open>binary.Read\<close> reads all the bytes of the type in one go.
\<close>

definition go_unmarshal :: "bytes \<Rightarrow> go_dest \<Rightarrow> go_error + go_value" where
  "go_unmarshal data v =
     (case v of
        NonPointer \<Rightarrow> Inl (Errorf ''cip: Unmarshal(non-pointer)'' [])
      | UnmarshalerDest u \<Rightarrow> u data
      | PtrTo fs isStruct \<Rightarrow>
          (case fields_size fs of
             None \<Rightarrow> Inl (Wrapf ''cip: binary.Read failed''
                           (Errorf ''binary.Read: invalid type'' []))
           | Some n \<Rightarrow>
               (case read_full n data of
                  Inl e \<Rightarrow> Inl (Wrapf ''cip: binary.Read failed'' e)
                | Inr (b, _) \<Rightarrow>
                    Inr (if isStruct then Struct (fields_value fs b)
                         else Basic (hd (fields_value fs b))))))"

section \<open>Round trip\<close>

text \<open>Two values have the same type, and it is one of fixed size.\<close>

definition same_type :: "go_basic \<Rightarrow> go_basic \<Rightarrow> bool" where
  "same_type t v \<longleftrightarrow> basic_size t \<noteq> None \<and> basic_size v \<noteq> None \<and>
     go_type_to_cip_type (Basic t) = go_type_to_cip_type (Basic v)"

lemma basic_bytes_size:
  "same_type t v \<Longrightarrow> \<exists>b. basic_bytes v = Some b \<and> basic_size t = Some (length b)"
  by (cases t; cases v) (auto simp: le8_def same_type_def go_type_to_cip_type_def)

lemma basic_value_bytes:
  "same_type t v \<Longrightarrow> basic_bytes v = Some b \<Longrightarrow> basic_value t (b @ r) = v"
  by (cases t; cases v)
    (auto simp: le8_def same_type_def go_type_to_cip_type_def split: if_splits)

lemma fields_roundtrip:
  "list_all2 same_type ts vs \<Longrightarrow>
     \<exists>b. struct_bytes vs = Some b \<and> fields_size ts = Some (length b) \<and>
         (\<forall>r. fields_value ts (b @ r) = vs)"
proof (induction rule: list_all2_induct)
  case Nil
  then show ?case by simp
next
  case (Cons t ts v vs)
  then obtain b where b: "struct_bytes vs = Some b" "fields_size ts = Some (length b)"
    "\<forall>r. fields_value ts (b @ r) = vs" by blast
  obtain a where "basic_bytes v = Some a" "basic_size t = Some (length a)"
    using basic_bytes_size [OF Cons(1)] by blast
  with b basic_value_bytes [OF Cons(1)] show ?case by simp
qed

lemma marshal_struct_roundtrip:
  assumes "list_all2 same_type ts vs"
  obtains b where "go_marshal (Struct vs) = Inr b"
    and "\<And>r. go_unmarshal (b @ r) (PtrTo ts True) = Inr (Struct vs)"
proof -
  obtain b where b: "struct_bytes vs = Some b" "fields_size ts = Some (length b)"
    "\<forall>r. fields_value ts (b @ r) = vs" using fields_roundtrip [OF assms] by blast
  have "fields_value ts b = vs" using b(3) [rule_format, of "[]"] by simp
  with b show ?thesis
    by (intro that [of b]) (simp_all add: go_marshal_def go_unmarshal_def read_full_append)
qed

lemma marshal_basic_roundtrip:
  assumes "same_type t v"
  obtains b where "go_marshal (Basic v) = Inr b"
    and "\<And>r. go_unmarshal (b @ r) (PtrTo [t] False) = Inr (Basic v)"
proof -
  obtain b where b: "basic_bytes v = Some b" "basic_size t = Some (length b)"
    using basic_bytes_size [OF assms] by blast
  have "basic_value t b = v" using basic_value_bytes [OF assms b(1), of "[]"] by simp
  with b show ?thesis
    by (intro that [of b]) (simp_all add: go_marshal_def go_unmarshal_def read_full_append)
qed

section \<open>Properties\<close>

text \<open>A variable (a struct with fields, or a basic one) of the type of a value of fixed size.\<close>

fun variable_for :: "go_value \<Rightarrow> go_basic list \<Rightarrow> bool \<Rightarrow> bool" where
  "variable_for (Basic v) ts isStruct \<longleftrightarrow> \<not> isStruct \<and> list_all2 same_type ts [v]"
| "variable_for (Struct vs) ts isStruct \<longleftrightarrow> isStruct \<and> list_all2 same_type ts vs"
| "variable_for (Marshaler r) ts isStruct \<longleftrightarrow> False"
| "variable_for OtherValue ts isStruct \<longleftrightarrow> False"

text \<open>
  C40: \<open>Marshal\<close> writes every value that is a basic value of fixed size or a struct of such, and
  \<open>Unmarshal\<close> of what it wrote into a variable of the same type gives the value again, whatever
  that variable held and whatever bytes follow; of the values without a method of their own it
  writes no other.
\<close>

theorem marshal_roundtrip:
  assumes "variable_for v ts isStruct"
  shows "\<exists>b. go_marshal v = Inr b \<and> go_unmarshal (b @ trailing) (PtrTo ts isStruct) = Inr v"
proof (cases v)
  case (Basic w)
  then obtain t where t: "ts = [t]" "same_type t w" "\<not> isStruct"
    using assms by (auto simp: list_all2_Cons2)
  show ?thesis by (rule marshal_basic_roundtrip [OF t(2)]) (use Basic t in auto)
next
  case (Struct vs)
  then have s: "list_all2 same_type ts vs" "isStruct" using assms by simp_all
  show ?thesis by (rule marshal_struct_roundtrip [OF s(1)]) (use Struct s in auto)
qed (use assms in simp_all)

theorem marshal_roundtrip_witness:
  "(\<exists>b. go_marshal (Struct [GInt32 7, GBool True]) = Inr b \<and>
        go_unmarshal (b @ [1]) (PtrTo [GInt32 0, GBool False] True) =
          Inr (Struct [GInt32 7, GBool True])) \<and>
   (\<exists>b. go_marshal (Basic (GFloat64 7)) = Inr b \<and>
        go_unmarshal (b @ []) (PtrTo [GFloat64 0] False) = Inr (Basic (GFloat64 7)))"
  by (rule conjI; rule marshal_roundtrip) (simp_all add: same_type_def go_type_to_cip_type_def)

end
