(* ===== verification/Cip_Symbol.thy ===== *)
theory Cip_Symbol
  imports Cip_Message
begin

text \<open>
  The Symbol object (class 0x6B), \<open>pkg/cip/symbol.go\<close>: the requests for the attributes of the
  class and of one instance, and the decoders of the two attribute-list responses.
\<close>

definition ClassSymbol :: u16 where [simp]: "ClassSymbol = 0x6B"

record symbol_instance =
  si_id :: u32
  si_name :: bytes
  si_type :: data_type

definition new_get_symbol_class_attributes_request :: mr_request where
  "new_get_symbol_class_attributes_request =
     \<lparr>rq_service = 0x03,
      rq_path = add_instance (add_class new_path ClassSymbol) 0,
      rq_data = le16 2 @ le16 1 @ le16 2\<rparr>"

definition new_get_symbol_attributes_request :: "u32 \<Rightarrow> mr_request" where
  "new_get_symbol_attributes_request instanceID =
     \<lparr>rq_service = 0x03,
      rq_path = add_instance32 (add_class new_path ClassSymbol) instanceID,
      rq_data = le16 2 @ le16 1 @ le16 2\<rparr>"

text \<open>
  The loop of \<open>DecodeSymbolClassAttributesResponse\<close> over the announced attributes; the
  variables revision and maxInstance are threaded through it.
\<close>

fun symbol_class_loop :: "nat \<Rightarrow> u16 \<Rightarrow> u16 \<Rightarrow> (u16 \<times> u16) reader" where
  "symbol_class_loop 0 revision maxInstance = rd_return (revision, maxInstance)"
| "symbol_class_loop (Suc n) revision maxInstance =
     rd_bind read_u16 (\<lambda>attrID.
     rd_bind read_u16 (\<lambda>status.
       if status = 0 then
         (if attrID = 1 then
            rd_bind read_u16 (\<lambda>revision. symbol_class_loop n revision maxInstance)
          else if attrID = 2 then
            rd_bind read_u16 (\<lambda>maxInstance. symbol_class_loop n revision maxInstance)
          else symbol_class_loop n revision maxInstance)
       else symbol_class_loop n revision maxInstance))"

definition decode_symbol_class_attributes :: "bytes \<Rightarrow> go_error + (u16 \<times> u16)" where
  "decode_symbol_class_attributes data = rd_value (
     rd_bind read_u16 (\<lambda>count. symbol_class_loop (unat count) 0 0) data)"

fun symbol_loop :: "nat \<Rightarrow> bytes \<Rightarrow> u16 \<Rightarrow> (bytes \<times> u16) reader" where
  "symbol_loop 0 name typeCode = rd_return (name, typeCode)"
| "symbol_loop (Suc n) name typeCode =
     rd_bind read_u16 (\<lambda>attrID.
     rd_bind read_u16 (\<lambda>status.
       if status = 0 then
         (if attrID = 1 then
            rd_bind read_u16 (\<lambda>nameLen.
            rd_bind (read_full (unat nameLen)) (\<lambda>name. symbol_loop n name typeCode))
          else if attrID = 2 then
            rd_bind read_u16 (\<lambda>typeCode. symbol_loop n name typeCode)
          else symbol_loop n name typeCode)
       else symbol_loop n name typeCode))"

definition decode_symbol_attributes :: "bytes \<Rightarrow> go_error + (bytes \<times> data_type)" where
  "decode_symbol_attributes data = rd_value (
     rd_bind read_u16 (\<lambda>count. symbol_loop (unat count) [] 0) data)"

section \<open>Attribute lists as a device writes them\<close>

text \<open>
  One entry of a Get_Attribute_List response: identifier, status, and the value for status 0.
\<close>

datatype symbol_attr = NameAttr bytes | TypeAttr u16 | FailedAttr u16 u16

fun symbol_attr_bytes :: "symbol_attr \<Rightarrow> bytes" where
  "symbol_attr_bytes (NameAttr n) = le16 1 @ le16 0 @ le16 (word_of_nat (length n)) @ n"
| "symbol_attr_bytes (TypeAttr t) = le16 2 @ le16 0 @ le16 t"
| "symbol_attr_bytes (FailedAttr i st) = le16 i @ le16 st"

fun symbol_attr_ok :: "symbol_attr \<Rightarrow> bool" where
  "symbol_attr_ok (NameAttr n) \<longleftrightarrow> length n < 65536"
| "symbol_attr_ok (TypeAttr t) \<longleftrightarrow> True"
| "symbol_attr_ok (FailedAttr i st) \<longleftrightarrow> st \<noteq> 0"

fun symbol_attrs_value :: "symbol_attr list \<Rightarrow> bytes \<Rightarrow> u16 \<Rightarrow> bytes \<times> u16" where
  "symbol_attrs_value [] n t = (n, t)"
| "symbol_attrs_value (NameAttr m # as) n t = symbol_attrs_value as m t"
| "symbol_attrs_value (TypeAttr u # as) n t = symbol_attrs_value as n u"
| "symbol_attrs_value (FailedAttr i st # as) n t = symbol_attrs_value as n t"

lemma symbol_loop_attrs:
  "list_all symbol_attr_ok as \<Longrightarrow>
     symbol_loop (length as) n t (concat (map symbol_attr_bytes as) @ r) =
       Inr (symbol_attrs_value as n t, r)"
  by (induction as n t rule: symbol_attrs_value.induct)
    (simp_all add: rd_bind_def codec_simps)

lemma decode_symbol_attrs:
  assumes "list_all symbol_attr_ok as" and "length as < 65536"
  shows "decode_symbol_attributes
      (le16 (word_of_nat (length as)) @ concat (map symbol_attr_bytes as) @ r) =
      Inr (symbol_attrs_value as [] 0)"
  using assms by (simp add: decode_symbol_attributes_def rd_bind_def codec_simps symbol_loop_attrs)

lemma decode_class_two:
  "decode_symbol_class_attributes
     (le16 2 @ le16 1 @ le16 0 @ le16 rv @ le16 2 @ le16 0 @ le16 mx @ r) = Inr (rv, mx)"
proof -
  have two: "symbol_class_loop 2 = symbol_class_loop (Suc (Suc 0))"
    by (simp only: numeral_2_eq_2)
  show ?thesis
    unfolding decode_symbol_class_attributes_def
    by (simp add: rd_bind_def codec_simps two)
qed

lemma symbol_name_bytes:
  "length n < 65536 \<Longrightarrow> decode_symbol_attributes
     (le16 2 @ le16 1 @ le16 0 @ le16 (word_of_nat (length n)) @ n @ le16 2 @ le16 0 @ le16 t) =
     Inr (n, t)"
  using decode_symbol_attrs [of "[NameAttr n, TypeAttr t]" "[]"] by simp

section \<open>Properties\<close>

text \<open>
  The symbol decoder reads any attribute list a device may send (name, type and failed
  attributes in any order and number): the last name and the last type win, failed attributes
  are skipped, and what is missing is left at its zero value.
\<close>

theorem symbol_attributes_decoded:
  assumes "\<forall>a \<in> set as. symbol_attr_ok a" and "length as < 65536"
  shows "decode_symbol_attributes
      (le16 (word_of_nat (length as)) @ concat (map symbol_attr_bytes as) @ trailing) =
      Inr (symbol_attrs_value as [] 0)"
  using assms by (intro decode_symbol_attrs) (auto simp: list_all_iff)

theorem symbol_attributes_decoded_witness:
  "decode_symbol_attributes
     (le16 3 @ le16 9 @ le16 0x14 @ le16 2 @ le16 0 @ le16 0xC4 @
      le16 1 @ le16 0 @ le16 2 @ [0x61, 0x62]) = Inr ([0x61, 0x62], 0xC4)"
  using symbol_attributes_decoded
    [of "[FailedAttr 9 0x14, TypeAttr 0xC4, NameAttr [0x61, 0x62]]" "[]"] by simp

end
