(* ===== verification/Client.thy ===== *)
theory Client
  imports Session Cip_Value Cip_Symbol
begin

text \<open>
  The client, \<open>pkg/client/client.go\<close> and \<open>pkg/client/discovery.go\<close>: connecting, closing, reading
  and writing tags, and listing identities, services and tags.  A client holds its session and
  whether it was given a logger; a call of a method of a nil logger panics.
\<close>

record 't client =
  cl_session :: "'t session"
  cl_logger :: bool

definition new_client ::
  "'c net_conn \<Rightarrow> (string \<Rightarrow> go_error + 'c) \<Rightarrow> string \<Rightarrow> bool \<Rightarrow> (go_error + 'c client) \<times> 'c option" where
  "new_client nc dial address logger =
     (case new_tcp_transport dial address of
        Inl e \<Rightarrow> (Inl e, None)
      | Inr t \<Rightarrow>
          (case session_register (tcp_transport nc) (new_session t) of
             (Some e, s) \<Rightarrow> (Inl e, Some (snd (tcp_close nc (se_transport s))))
           | (None, s) \<Rightarrow> (Inr \<lparr>cl_session = s, cl_logger = logger\<rparr>, Some (se_transport s))))"

definition client_close :: "'t transport \<Rightarrow> 't client \<Rightarrow> go_error option go \<times> 't client" where
  "client_close tr c =
     (case session_unregister tr (cl_session c) of
        (e, s1) \<Rightarrow>
          if e \<noteq> None \<and> \<not> cl_logger c
          then (Panic ''nil pointer dereference'', c\<lparr>cl_session := s1\<rparr>)
          else (case session_close tr s1 of (e', s2) \<Rightarrow> (Return e', c\<lparr>cl_session := s2\<rparr>)))"

definition client_send_cip ::
  "'t transport \<Rightarrow> 't client \<Rightarrow> mr_request \<Rightarrow> (go_error + mr_response) \<times> 't client" where
  "client_send_cip tr c req =
     (let (r, s) = send_cip_request tr (cl_session c) req in (r, c\<lparr>cl_session := s\<rparr>))"

definition read_tag :: "'t transport \<Rightarrow> 't client \<Rightarrow> bytes \<Rightarrow> (go_error + bytes) \<times> 't client" where
  "read_tag tr c tagName =
     (case client_send_cip tr c
             (new_read_tag_request (add_symbolic_segment new_path tagName) 1) of
        (Inl e, c') \<Rightarrow> (Inl e, c')
      | (Inr resp, c') \<Rightarrow>
          (case response_error resp of
             Some e \<Rightarrow> (Inl e, c')
           | None \<Rightarrow> (Inr (rp_data resp), c')))"

definition write_tag ::
  "'t transport \<Rightarrow> 't client \<Rightarrow> bytes \<Rightarrow> go_value \<Rightarrow> go_error option \<times> 't client" where
  "write_tag tr c tagName value =
     (case go_type_to_cip_type value of
        Inl e \<Rightarrow> (Some e, c)
      | Inr dataType \<Rightarrow>
          (case go_marshal value of
             Inl e \<Rightarrow> (Some e, c)
           | Inr data \<Rightarrow>
               (case client_send_cip tr c
                       (new_write_tag_request (add_symbolic_segment new_path tagName) dataType 1
                          data) of
                  (Inl e, c') \<Rightarrow> (Some e, c')
                | (Inr resp, c') \<Rightarrow>
                    (case response_error resp of
                       Some e \<Rightarrow> (Some e, c')
                     | None \<Rightarrow> (None, c')))))"

definition read_tag_into ::
  "'t transport \<Rightarrow> 't client \<Rightarrow> bytes \<Rightarrow> go_dest \<Rightarrow> (go_error + go_value) \<times> 't client" where
  "read_tag_into tr c tagName dst =
     (case read_tag tr c tagName of
        (Inl e, c') \<Rightarrow> (Inl e, c')
      | (Inr data, c') \<Rightarrow>
          if length data < 2
          then (Inl (Errorf ''response too short to contain type code'' []), c')
          else (go_unmarshal (drop 2 data) dst, c'))"

definition read_timer :: "'t transport \<Rightarrow> 't client \<Rightarrow> bytes \<Rightarrow> (go_error + timer) \<times> 't client" where
  "read_timer tr c tagName =
     (case read_tag tr c tagName of
        (Inl e, c') \<Rightarrow> (Inl e, c')
      | (Inr data, c') \<Rightarrow>
          if length data < 2
          then (Inl (Errorf ''response too short to contain type code'' []), c')
          else (decode_timer (drop 2 data), c'))"

section \<open>Discovery\<close>

definition client_list_identity ::
  "'t transport \<Rightarrow> 't client \<Rightarrow> (go_error + list_identity_item list) \<times> 't client" where
  "client_list_identity tr c =
     (let (r, s) = session_list_identity tr (cl_session c) in (r, c\<lparr>cl_session := s\<rparr>))"

definition client_list_services ::
  "'t transport \<Rightarrow> 't client \<Rightarrow> (go_error + list_services_item list) \<times> 't client" where
  "client_list_services tr c =
     (let (r, s) = session_list_services tr (cl_session c) in (r, c\<lparr>cl_session := s\<rparr>))"

text \<open>
  The loop of \<open>ListTags\<close> over the remaining number of instances: instances that cannot be
  fetched or decoded, and those without a name, are skipped.
\<close>

fun list_tags_loop ::
  "'t transport \<Rightarrow> nat \<Rightarrow> u32 \<Rightarrow> symbol_instance list \<Rightarrow> 't client
   \<Rightarrow> symbol_instance list \<times> 't client" where
  "list_tags_loop tr 0 iid allSymbols c = (allSymbols, c)"
| "list_tags_loop tr (Suc n) iid allSymbols c =
     (case client_send_cip tr c (new_get_symbol_attributes_request iid) of
        (Inl e, c') \<Rightarrow> list_tags_loop tr n (iid + 1) allSymbols c'
      | (Inr resp, c') \<Rightarrow>
          if \<not> response_is_success resp then list_tags_loop tr n (iid + 1) allSymbols c'
          else
            (case decode_symbol_attributes (rp_data resp) of
               Inl e \<Rightarrow> list_tags_loop tr n (iid + 1) allSymbols c'
             | Inr (name, typeCode) \<Rightarrow>
                 if name \<noteq> []
                 then list_tags_loop tr n (iid + 1)
                        (allSymbols @ [\<lparr>si_id = iid, si_name = name, si_type = typeCode\<rparr>]) c'
                 else list_tags_loop tr n (iid + 1) allSymbols c'))"

definition list_tags ::
  "'t transport \<Rightarrow> 't client \<Rightarrow> (go_error + symbol_instance list) go \<times> 't client" where
  "list_tags tr c =
     (case client_send_cip tr c new_get_symbol_class_attributes_request of
        (Inl e, c1) \<Rightarrow> (Return (Inl (Wrapf ''failed to get symbol class attributes'' e)), c1)
      | (Inr respClass, c1) \<Rightarrow>
          (case response_error respClass of
             Some e \<Rightarrow> (Return (Inl e), c1)
           | None \<Rightarrow>
               (case decode_symbol_class_attributes (rp_data respClass) of
                  Inl e \<Rightarrow>
                    (Return (Inl (Wrapf ''failed to decode symbol class attributes'' e)), c1)
                | Inr (_, maxInstance) \<Rightarrow>
                    if \<not> cl_logger c1 then (Panic ''nil pointer dereference'', c1)
                    else
                      (case list_tags_loop tr (unat maxInstance) 1 [] c1 of
                         (symbols, c2) \<Rightarrow> (Return (Inr symbols), c2)))))"

section \<open>Requests and replies\<close>

text \<open>A transport on which a SendRRData packet is answered by the given response.\<close>

definition replies ::
  "'t transport \<Rightarrow> 't client \<Rightarrow> mr_request \<Rightarrow> mr_response \<Rightarrow> 't client \<Rightarrow> bool" where
  "replies tr c q r c' \<longleftrightarrow>
     (\<exists>t1 hdr. tr_send tr (se_transport (cl_session c)) CommandSendRRData
                 (rr_data (request_encode q)) (se_handle (cl_session c)) = (None, t1) \<and>
        tr_receive tr t1 = (Inr (hdr, rr_data (response_bytes r)), se_transport (cl_session c')) \<and>
        eh_status hdr = 0) \<and>
     unat (rp_ext_size r) = length (rp_ext r) \<and> length (response_bytes r) < 65536 \<and>
     se_handle (cl_session c') = se_handle (cl_session c) \<and> cl_logger c' = cl_logger c"

lemma client_send_cip_replies:
  assumes "replies tr c q r c'"
  shows "client_send_cip tr c q = (Inr r, c')"
proof -
  obtain t1 hdr where
    "tr_send tr (se_transport (cl_session c)) CommandSendRRData (rr_data (request_encode q))
       (se_handle (cl_session c)) = (None, t1)"
    "tr_receive tr t1 = (Inr (hdr, rr_data (response_bytes r)), se_transport (cl_session c'))"
    "eh_status hdr = 0"
    and r: "unat (rp_ext_size r) = length (rp_ext r)" "length (response_bytes r) < 65536"
    "se_handle (cl_session c') = se_handle (cl_session c)" "cl_logger c' = cl_logger c"
    using assms by (auto simp: replies_def)
  note reply = session_send_rr_data_reply [OF this(1, 2)] this(3)
  have s: "\<lparr>se_transport = se_transport (cl_session c), se_handle = se_handle (cl_session c)\<rparr> =
      cl_session c" by simp
  have "session_send_rr_data tr (cl_session c) (request_encode q) =
      (Inr (response_bytes r), cl_session c')"
    using reply r rr_data_length [of "response_bytes r"] rr_data_cpf [of "response_bytes r"]
    unfolding s by (simp add: find_item_two)
  then show ?thesis
    using r response_decode_bytes [OF r(1)]
    by (simp add: client_send_cip_def send_cip_request_def)
qed

lemma read_tag_replies:
  assumes "replies tr c (new_read_tag_request (add_symbolic_segment new_path name) 1) r c'"
  shows "read_tag tr c name =
    (if rp_status r = 0 then Inr (rp_data r) else Inl (CipError (rp_status r) (rp_ext r)), c')"
  by (simp add: read_tag_def client_send_cip_replies [OF assms] response_error_def
      response_is_success_def)

text \<open>
  A transport that records what is sent and answers with prepared packets, as the mock servers
  of the tests do.
\<close>

type_synonym script = "(u16 \<times> bytes \<times> u32) list \<times> (encap_header \<times> bytes) list"

definition scripted :: "script transport" where
  "scripted = \<lparr>
     tr_send = (\<lambda>(sent, ans) cmd d h. (None, (sent @ [(cmd, d, h)], ans))),
     tr_receive = (\<lambda>(sent, ans). case ans of [] \<Rightarrow> (Inl EOF, (sent, ans))
                                             | a # as \<Rightarrow> (Inr a, (sent, as))),
     tr_close = (\<lambda>t. (None, t))\<rparr>"

definition reply_header :: encap_header where
  "reply_header = \<lparr>eh_command = CommandSendRRData, eh_length = 0, eh_session = 7, eh_status = 0,
                   eh_context = replicate 8 0, eh_options = 0\<rparr>"

definition scripted_client :: "(u16 \<times> bytes \<times> u32) list \<Rightarrow> mr_response list \<Rightarrow> script client" where
  "scripted_client sent rs =
     \<lparr>cl_session =
        \<lparr>se_transport = (sent, map (\<lambda>r. (reply_header, rr_data (response_bytes r))) rs),
         se_handle = 7\<rparr>,
      cl_logger = True\<rparr>"

lemma scripted_replies:
  assumes "unat (rp_ext_size r) = length (rp_ext r)" and "length (response_bytes r) < 65536"
  shows "replies scripted (scripted_client sent (r # rs)) q r
    (scripted_client (sent @ [(CommandSendRRData, rr_data (request_encode q), 7)]) rs)"
  using assms
  by (simp add: replies_def scripted_def scripted_client_def reply_header_def)

section \<open>Properties\<close>

text \<open>
  Reading a tag sends one Read_Tag request for one element over the symbolic path of the
  name; it returns the data of a successful response, type code included, and for any other
  response an error with its status and extended status.
\<close>

theorem read_tag_result:
  assumes "replies tr c
    \<lparr>rq_service = 0x4C, rq_path = add_symbolic_segment [] name, rq_data = [1, 0]\<rparr> r c'"
  shows "read_tag tr c name =
    (if rp_status r = 0 then Inr (rp_data r) else Inl (CipError (rp_status r) (rp_ext r)), c')"
proof (rule read_tag_replies)
  have "new_read_tag_request (add_symbolic_segment new_path name) 1 =
      \<lparr>rq_service = 0x4C, rq_path = add_symbolic_segment [] name, rq_data = [1, 0]\<rparr>"
    by (simp add: new_read_tag_request_def new_path_def)
  with assms show "replies tr c (new_read_tag_request (add_symbolic_segment new_path name) 1) r c'"
    by simp
qed

theorem read_tag_result_witness:
  "fst (read_tag scripted
     (scripted_client [] [\<lparr>rp_service = 0xCC, rp_reserved = 0, rp_status = 5, rp_ext_size = 1,
        rp_ext = [0x1234], rp_data = []\<rparr>]) [0x41]) = Inl (CipError 5 [0x1234])"
  by (subst read_tag_result [OF scripted_replies])
    (simp_all add: response_bytes_def)

text \<open>
  Writing a value that has a CIP type and a binary form sends type code, element count 1
  and the value in one Write_Tag request, and reports the status of the response.
\<close>

theorem write_tag_result:
  assumes "go_type_to_cip_type v = Inr t" and "go_marshal v = Inr b"
    and "replies tr c \<lparr>rq_service = 0x4D, rq_path = add_symbolic_segment [] name,
                        rq_data = le16 t @ [1, 0] @ b\<rparr> r c'"
  shows "write_tag tr c name v =
    (if rp_status r = 0 then None else Some (CipError (rp_status r) (rp_ext r)), c')"
proof -
  have "new_write_tag_request (add_symbolic_segment new_path name) t 1 b =
      \<lparr>rq_service = 0x4D, rq_path = add_symbolic_segment [] name, rq_data = le16 t @ [1, 0] @ b\<rparr>"
    by (simp add: new_write_tag_request_def new_path_def le16_def)
  then show ?thesis
    using assms
    by (simp add: write_tag_def client_send_cip_replies response_error_def
        response_is_success_def)
qed

theorem write_tag_result_witness:
  "fst (write_tag scripted
     (scripted_client [] [\<lparr>rp_service = 0xCD, rp_reserved = 0, rp_status = 0, rp_ext_size = 0,
        rp_ext = [], rp_data = []\<rparr>]) [0x41] (Basic (GInt32 500))) = None"
  by (subst write_tag_result [of _ TypeDINT "le32 500", OF _ _ scripted_replies])
    (simp_all add: go_type_to_cip_type_def go_marshal_def response_bytes_def)

text \<open>
  Strings and values of type int cannot be written, although they are given CIP types, and
  values that implement Marshaler cannot either: \<open>WriteTag\<close> fails and sends nothing.
\<close>

theorem write_tag_unsupported:
  "write_tag tr c name (Basic (GString s)) = (Some write_failed, c) \<and>
   go_type_to_cip_type (Basic (GString s)) = Inr TypeSTRING \<and>
   write_tag tr c name (Basic (GInt w)) = (Some write_failed, c) \<and>
   go_type_to_cip_type (Basic (GInt w)) = Inr TypeDINT \<and>
   write_tag tr c name (Marshaler m) = (Some unsupported_type, c)"
  by (simp add: write_tag_def go_type_to_cip_type_def go_marshal_def)

text \<open>
  A basic value that a device returns for a tag, behind its type code, is read into a
  variable of the same type unchanged.
\<close>

theorem tag_value_roundtrip:
  assumes "same_type x v" and "go_marshal (Basic v) = Inr b"
    and "replies tr c
      \<lparr>rq_service = 0x4C, rq_path = add_symbolic_segment [] name, rq_data = [1, 0]\<rparr> r c'"
    and "rp_status r = 0" and "rp_data r = le16 code @ b"
  shows "read_tag_into tr c name (PtrTo [x] False) = (Inr (Basic v), c')"
proof -
  have q: "new_read_tag_request (add_symbolic_segment new_path name) 1 =
      \<lparr>rq_service = 0x4C, rq_path = add_symbolic_segment [] name, rq_data = [1, 0]\<rparr>"
    by (simp add: new_read_tag_request_def new_path_def)
  have "read_tag tr c name = (Inr (le16 code @ b), c')"
    using read_tag_replies [of tr c name r c'] assms(3, 4, 5) by (simp add: q)
  moreover have "go_unmarshal b (PtrTo [x] False) = Inr (Basic v)"
  proof (rule marshal_basic_roundtrip [OF assms(1)])
    fix b' assume b': "go_marshal (Basic v) = Inr b'"
      and r: "\<And>r. go_unmarshal (b' @ r) (PtrTo [x] False) = Inr (Basic v)"
    show ?thesis using r [of "[]"] b' assms(2) by simp
  qed
  ultimately show ?thesis by (simp add: read_tag_into_def)
qed

theorem tag_value_roundtrip_witness:
  "fst (read_tag_into scripted
     (scripted_client [] [\<lparr>rp_service = 0xCC, rp_reserved = 0, rp_status = 0, rp_ext_size = 0,
        rp_ext = [], rp_data = le16 0xC4 @ le32 100000\<rparr>]) [0x41, 0x42] (PtrTo [GInt32 0] False)) =
   Inr (Basic (GInt32 100000))"
  by (subst tag_value_roundtrip [of "GInt32 0" "GInt32 100000" "le32 100000",
        OF _ _ scripted_replies])
    (simp_all add: go_type_to_cip_type_def go_marshal_def response_bytes_def same_type_def)

text \<open>
  The symbol that the response to the request for one instance describes, if any.
\<close>

definition listed_symbol :: "u32 \<Rightarrow> go_error + mr_response \<Rightarrow> symbol_instance list" where
  "listed_symbol iid res =
     (case res of
        Inl e \<Rightarrow> []
      | Inr resp \<Rightarrow>
          if response_is_success resp then
            (case decode_symbol_attributes (rp_data resp) of
               Inl e \<Rightarrow> []
             | Inr (name, t) \<Rightarrow>
                 if name = [] then [] else [\<lparr>si_id = iid, si_name = name, si_type = t\<rparr>])
          else [])"

lemma list_tags_loop_respond:
  assumes "\<And>c q. fst (client_send_cip tr c q) = respond q"
  shows "fst (list_tags_loop tr n iid syms c) =
    syms @ concat (map (\<lambda>k. listed_symbol (iid + word_of_nat k)
      (respond (new_get_symbol_attributes_request (iid + word_of_nat k)))) [0..<n])"
proof (induction n arbitrary: iid syms c)
  case 0
  then show ?case by simp
next
  case (Suc n)
  obtain res c' where r: "client_send_cip tr c (new_get_symbol_attributes_request iid) = (res, c')"
    by fastforce
  then have res: "respond (new_get_symbol_attributes_request iid) = res"
    using assms [of c "new_get_symbol_attributes_request iid"] by simp
  have up: "[0..<Suc n] = 0 # map Suc [0..<n]"
    by (simp add: upt_conv_Cons map_Suc_upt del: upt_Suc)
  have step: "fst (list_tags_loop tr (Suc n) iid syms c) =
      fst (list_tags_loop tr n (iid + 1) (syms @ listed_symbol iid res) c')"
    by (simp add: r listed_symbol_def split: sum.split prod.split)
  show ?case
    unfolding step Suc.IH up by (simp add: res comp_def add.assoc)
qed

text \<open>
  C28: with a device whose answers depend on the request only, \<open>ListTags\<close> returns the named
  symbols of the instances 1 to the announced maximum, in order; an instance that is missing,
  refused, unreadable or nameless is left out and does not stop the listing.
\<close>

theorem list_tags_complete:
  assumes "\<And>c q. fst (client_send_cip tr c q) = respond q"
    and "\<And>c q. cl_logger (snd (client_send_cip tr c q)) = cl_logger c"
    and "cl_logger c"
    and "respond new_get_symbol_class_attributes_request = Inr r" and "rp_status r = 0"
    and "decode_symbol_class_attributes (rp_data r) = Inr (revision, maxInstance)"
  shows "fst (list_tags tr c) = Return (Inr (concat (map (\<lambda>k. listed_symbol (word_of_nat k)
    (respond (new_get_symbol_attributes_request (word_of_nat k)))) [1..<Suc (unat maxInstance)])))"
proof -
  obtain c1 where c1: "client_send_cip tr c new_get_symbol_class_attributes_request = (Inr r, c1)"
    using assms(1) [of c new_get_symbol_class_attributes_request] assms(4)
    by (cases "client_send_cip tr c new_get_symbol_class_attributes_request") simp
  have log: "cl_logger c1"
    using assms(2) [of c new_get_symbol_class_attributes_request] assms(3) c1 by simp
  have up: "[1..<Suc n] = map Suc [0..<n]" for n by (simp add: map_Suc_upt)
  have loop: "fst (list_tags_loop tr (unat maxInstance) 1 [] c1) =
      concat (map (\<lambda>k. listed_symbol (word_of_nat k)
        (respond (new_get_symbol_attributes_request (word_of_nat k))))
        [1..<Suc (unat maxInstance)])"
    unfolding up by (simp add: list_tags_loop_respond [OF assms(1)] comp_def)
  have "fst (list_tags tr c) = Return (Inr (fst (list_tags_loop tr (unat maxInstance) 1 [] c1)))"
    using log assms(5, 6)
    by (simp add: list_tags_def c1 response_error_def response_is_success_def
        split: prod.split)
  then show ?thesis unfolding loop .
qed

text \<open>A device that computes its answers from the data of the last packet.\<close>

definition device :: "(bytes \<Rightarrow> mr_response) \<Rightarrow> bytes transport" where
  "device f = \<lparr>
     tr_send = (\<lambda>t cmd d h. (None, d)),
     tr_receive = (\<lambda>t. (Inr (reply_header, rr_data (response_bytes (f t))), t)),
     tr_close = (\<lambda>t. (None, t))\<rparr>"

lemma device_replies:
  assumes "\<And>d. unat (rp_ext_size (f d)) = length (rp_ext (f d)) \<and>
                length (response_bytes (f d)) < 65536"
  shows "replies (device f) c q (f (rr_data (request_encode q)))
    (c\<lparr>cl_session := (cl_session c)\<lparr>se_transport := rr_data (request_encode q)\<rparr>\<rparr>)"
  using assms by (simp add: replies_def device_def reply_header_def)

theorem list_tags_complete_witness:
  fixes ok :: "bytes \<Rightarrow> mr_response" and f :: "bytes \<Rightarrow> mr_response"
  defines "ok d \<equiv> \<lparr>rp_service = 0x83, rp_reserved = 0, rp_status = 0, rp_ext_size = 0,
                   rp_ext = [], rp_data = d\<rparr>"
    and "f d \<equiv> if d = rr_data (request_encode new_get_symbol_class_attributes_request)
               then ok (le16 2 @ le16 1 @ le16 0 @ le16 7 @ le16 2 @ le16 0 @ le16 1)
               else ok (le16 2 @ le16 1 @ le16 0 @ le16 1 @ [0x41] @ le16 2 @ le16 0 @ le16 0xC4)"
  shows "fst (list_tags (device f)
      \<lparr>cl_session = \<lparr>se_transport = [], se_handle = 7\<rparr>, cl_logger = True\<rparr>) =
    Return (Inr [\<lparr>si_id = 1, si_name = [0x41], si_type = 0xC4\<rparr>])"
proof -
  let ?respond = "\<lambda>q. Inr (f (rr_data (request_encode q)))"
  let ?c = "\<lparr>cl_session = \<lparr>se_transport = [] :: bytes, se_handle = 7\<rparr>, cl_logger = True\<rparr>"
  let ?req = "new_get_symbol_class_attributes_request"
  have ok: "unat (rp_ext_size (f d)) = length (rp_ext (f d)) \<and> length (response_bytes (f d)) < 65536"
    for d by (simp add: f_def ok_def response_bytes_def)
  note send = client_send_cip_replies [OF device_replies [OF ok]]
  have class_data: "rp_data (f (rr_data (request_encode ?req))) =
      le16 2 @ le16 1 @ le16 0 @ le16 7 @ le16 2 @ le16 0 @ le16 1 @ []"
    by (simp add: f_def ok_def)
  have sym: "rr_data (request_encode (new_get_symbol_attributes_request 1)) \<noteq>
      rr_data (request_encode ?req)"
    by (simp add: rr_data_def cpf_encode_def new_cpf_def cpf_item_encode_def new_cpf_item_def
        request_encode_eq new_get_symbol_attributes_request_def add_class_def add_instance_def
        add_instance32_def new_path_def new_get_symbol_class_attributes_request_def)
  have "decode_symbol_class_attributes (rp_data (f (rr_data (request_encode ?req)))) = Inr (7, 1)"
    unfolding class_data by (rule decode_class_two)
  moreover have "rp_status (f (rr_data (request_encode ?req))) = 0"
    by (simp add: f_def ok_def)
  ultimately have "fst (list_tags (device f) ?c) =
    Return (Inr (concat (map (\<lambda>k. listed_symbol (word_of_nat k)
      (?respond (new_get_symbol_attributes_request (word_of_nat k)))) [1..<Suc (unat (1 :: u16))])))"
    by (intro list_tags_complete) (simp_all add: send)
  moreover have "decode_symbol_attributes (le16 2 @ le16 1 @ le16 0 @ le16 1 @ [0x41] @ le16 2 @ le16 0 @
      le16 0xC4) = Inr ([0x41], 0xC4)"
    using symbol_name_bytes [of "[0x41]" "0xC4"] by simp
  ultimately show ?thesis
    using sym by (simp add: listed_symbol_def f_def ok_def response_is_success_def)
qed

end
