(* ===== verification/Tools.thy ===== *)
theory Tools
  imports Logger Client
begin

text \<open>
  What the command line tools under \<open>cmd\<close> have in common: they connect a client, work with it and
  end.  A run gives the exit code, the output in order and the state of the network.  A main
  function that returns runs the deferred \<open>Close\<close> of its client; one that calls \<open>os.Exit\<close> does
  not.  Flags are parameters; the usage text and the lines that library functions log are left out.
\<close>

text \<open>
  The world of a program: the network, and the texts of errors, of clock times and of durations
  (nanoseconds) as the verb \<open>%v\<close> and \<open>time.Format\<close> print them.
\<close>

record 'c host =
  ho_net :: "'c net_conn"
  ho_dial :: "string \<Rightarrow> go_error + 'c"
  ho_error :: "go_error \<Rightarrow> bytes"
  ho_time :: "int \<Rightarrow> bytes"
  ho_duration :: "int \<Rightarrow> bytes"

record 'c tool_run =
  tl_exit :: nat
  tl_out :: outputs
  tl_conn :: "'c option"

text \<open>
  The work with the client gives output and, when it ends in \<open>os.Exit\<close>, the code.  The tools that
  call \<open>log.Fatalf\<close> instead end with code 1 as well.
\<close>

type_synonym 'c tool_body = "'c client \<Rightarrow> outputs \<times> nat option \<times> 'c client"

definition client_conn :: "'c client \<Rightarrow> 'c" where
  "client_conn c = se_transport (cl_session c)"

definition run_client_tool ::
  "'c host \<Rightarrow> string \<Rightarrow> outputs \<Rightarrow> (go_error \<Rightarrow> outputs) \<Rightarrow> 'c tool_body \<Rightarrow> 'c tool_run" where
  "run_client_tool h address out failed body =
     (case new_client (ho_net h) (ho_dial h) address True of
        (Inl e, c) \<Rightarrow> \<lparr>tl_exit = 1, tl_out = out @ failed e, tl_conn = c\<rparr>
      | (Inr c, _) \<Rightarrow>
          (case body c of
             (out', Some code, c') \<Rightarrow>
               \<lparr>tl_exit = code, tl_out = out @ out', tl_conn = Some (client_conn c')\<rparr>
           | (out', None, c') \<Rightarrow>
               \<lparr>tl_exit = 0, tl_out = out @ out',
                tl_conn = Some (client_conn (snd (client_close (tcp_transport (ho_net h)) c')))\<rparr>))"

text \<open>The messages that the tools share.\<close>

definition connecting :: "string \<Rightarrow> bytes" where
  "connecting address = lit ''Connecting to '' @ lit address @ lit ''...''"

definition connect_failed :: "'c host \<Rightarrow> logger \<Rightarrow> go_error \<Rightarrow> outputs" where
  "connect_failed h lg e = errorf lg (lit ''Failed to connect: '' @ ho_error h e)"

definition quoted :: "bytes \<Rightarrow> bytes" where
  "quoted s = lit [CHR 0x27] @ s @ lit [CHR 0x27]"

section \<open>A whole run over a plain connection\<close>

definition packet :: "encap_header \<Rightarrow> bytes \<Rightarrow> bytes" where
  "packet hdr d = header_encode hdr @ d"

text \<open>The packets of a tool: registration, a CIP request, and the end of the session.\<close>

definition register_packet :: bytes where
  "register_packet = packet (request_header CommandRegisterSession
     (register_session_encode new_register_session_data) 0)
     (register_session_encode new_register_session_data)"

definition cip_packet :: "u32 \<Rightarrow> mr_request \<Rightarrow> bytes" where
  "cip_packet s q = packet (request_header CommandSendRRData (rr_data (request_encode q)) s)
     (rr_data (request_encode q))"

definition unregister_packet :: "u32 \<Rightarrow> bytes" where
  "unregister_packet s = packet (request_header CommandUnregisterSession [] s) []"

text \<open>What a device sends: well-formed packets with status 0.\<close>

definition good_packet :: "encap_header \<Rightarrow> bytes \<Rightarrow> bool" where
  "good_packet hdr d \<longleftrightarrow> wf_header hdr \<and> unat (eh_length hdr) = length d \<and> eh_status hdr = 0"

abbreviation tcp_plain :: "bytes \<Rightarrow> bytes \<Rightarrow> bool \<Rightarrow> tcp_conn" where
  "tcp_plain i out cl \<equiv> \<lparr>tc_in = i, tc_out = out, tc_room = None, tc_closed = cl\<rparr>"

abbreviation plain_client :: "bytes \<Rightarrow> bytes \<Rightarrow> u32 \<Rightarrow> tcp_conn client" where
  "plain_client i out s \<equiv>
     \<lparr>cl_session = \<lparr>se_transport = tcp_plain i out False, se_handle = s\<rparr>, cl_logger = True\<rparr>"

lemma new_client_plain:
  assumes "dial (dial_address address) = Inr (tcp_plain (packet hdr d @ rest) [] False)"
    and "good_packet hdr d"
  shows "new_client plain_conn dial address True =
    (Inr (plain_client rest register_packet (eh_session hdr)),
     Some (tcp_plain rest register_packet False))"
  using assms
  by (simp add: new_client_def new_tcp_transport_def session_register_def new_session_def
      tcp_transport_def tcp_send_plain tcp_receive_plain packet_def good_packet_def
      register_packet_def)

lemma tcp_send_empty:
  "tcp_send plain_conn (tcp_plain i out cl) cmd [] s =
     (None, tcp_plain i (out @ packet (request_header cmd [] s) []) cl)"
  by (simp add: tcp_send_plain packet_def)

lemma tcp_close_plain [simp]: "tcp_close plain_conn c = (None, conn_close c)"
  by (simp add: tcp_close_def plain_conn_def)

lemma client_close_plain:
  "client_close (tcp_transport plain_conn) (plain_client i out s) =
     (Return None,
      \<lparr>cl_session = \<lparr>se_transport = tcp_plain i (out @ unregister_packet s) True, se_handle = s\<rparr>,
       cl_logger = True\<rparr>)"
  by (simp add: client_close_def session_unregister_def session_close_def tcp_transport_def
      tcp_send_empty unregister_packet_def conn_close_def)

lemma plain_replies:
  assumes "good_packet hdr (rr_data (response_bytes r))"
    and "unat (rp_ext_size r) = length (rp_ext r)" and "length (response_bytes r) < 65536"
  shows "replies (tcp_transport plain_conn)
    (plain_client (packet hdr (rr_data (response_bytes r)) @ rest) out s) q r
    (plain_client rest (out @ cip_packet s q) s)"
  using assms
  by (simp add: replies_def tcp_transport_def tcp_send_plain tcp_receive_plain packet_def
      good_packet_def cip_packet_def)

text \<open>A run whose work succeeds sends what it sent, unregisters and closes the connection.\<close>

lemma run_client_tool_returns:
  assumes "ho_net h = plain_conn"
    and "ho_dial h (dial_address address) = Inr (tcp_plain (packet hdr d @ i) [] False)"
    and "good_packet hdr d"
    and "body (plain_client i register_packet (eh_session hdr)) =
           (out', None, plain_client i' o' (eh_session hdr))"
  shows "run_client_tool h address out failed body =
    \<lparr>tl_exit = 0, tl_out = out @ out',
     tl_conn = Some (tcp_plain i' (o' @ unregister_packet (eh_session hdr)) True)\<rparr>"
  using new_client_plain [of "ho_dial h", OF assms(2,3)] assms(1,4)
  by (simp add: run_client_tool_def client_close_plain client_conn_def)

text \<open>A run that exits has not unregistered and has not closed the connection.\<close>

lemma run_client_tool_exits:
  assumes "ho_net h = plain_conn"
    and "ho_dial h (dial_address address) = Inr (tcp_plain (packet hdr d @ i) [] False)"
    and "good_packet hdr d"
    and "body (plain_client i register_packet (eh_session hdr)) =
           (out', Some code, plain_client i' o' (eh_session hdr))"
  shows "run_client_tool h address out failed body =
    \<lparr>tl_exit = code, tl_out = out @ out', tl_conn = Some (tcp_plain i' o' False)\<rparr>"
  using new_client_plain [of "ho_dial h", OF assms(2,3)] assms(1,4)
  by (simp add: run_client_tool_def client_conn_def)

text \<open>A tool that gets no connection reports it and exits with code 1.\<close>

lemma run_client_tool_refused:
  assumes "ho_dial h (dial_address address) = Inl e"
  shows "run_client_tool h address out failed body =
    \<lparr>tl_exit = 1, tl_out = out @ failed e, tl_conn = None\<rparr>"
  using assms by (simp add: run_client_tool_def new_client_def new_tcp_transport_def)

text \<open>For witnesses: a host whose device has sent the bytes i.\<close>

definition device_host :: "bytes \<Rightarrow> tcp_conn host" where
  "device_host i =
     \<lparr>ho_net = plain_conn, ho_dial = \<lambda>_. Inr (tcp_plain i [] False), ho_error = \<lambda>_. [],
      ho_time = \<lambda>_. [], ho_duration = \<lambda>_. []\<rparr>"

lemma good_packet_header: "length d < 65536 \<Longrightarrow> good_packet (request_header cmd d s) d"
  unfolding good_packet_def by (simp add: wf_request_header) (simp add: request_header_def unat_of_nat)

definition register_reply :: bytes where
  "register_reply = packet (request_header CommandRegisterSession [1, 0, 0, 0] 7) [1, 0, 0, 0]"

definition cip_reply :: "u8 \<Rightarrow> u8 \<Rightarrow> bytes \<Rightarrow> mr_response" where
  "cip_reply service st d =
     \<lparr>rp_service = service, rp_reserved = 0, rp_status = st, rp_ext_size = 0, rp_ext = [], rp_data = d\<rparr>"

definition cip_reply_packet :: "mr_response \<Rightarrow> bytes" where
  "cip_reply_packet r =
     packet (request_header CommandSendRRData (rr_data (response_bytes r)) 7)
       (rr_data (response_bytes r))"

end
