(* ===== verification/Scanner.thy ===== *)
theory Scanner
  imports Adapter Io_Interleaving Tools "HOL-Library.Signed_Division"
begin

text \<open>
  The scanner, \<open>cmd/scanner/main.go\<close>: it registers a session, opens an I/O connection with
  Forward_Open and adds a producer to its own runtime.  Here it meets the adapter of \<open>Adapter\<close>.
\<close>

text \<open>
  The request, for the RPI in nanoseconds and the two options; the path names the class, the
  output assembly and, as connection point, the input assembly.
\<close>

definition scanner_open_request :: "int \<Rightarrow> int \<Rightarrow> int \<Rightarrow> u16 forward_open_request" where
  "scanner_open_request rpi inputAssembly outputAssembly =
     (let path = [0x20, 0x04, 0x24, word_of_int outputAssembly, 0x2C, word_of_int inputAssembly] in
      \<lparr>fo_priority_time_tick = 0x0A, fo_timeout_ticks = 249, fo_ot_connection_id = 0x10000001,
       fo_to_connection_id = 0, fo_connection_serial = 1234, fo_vendor_id = 0x1337,
       fo_originator_serial = 5678, fo_timeout_multiplier = 1, fo_reserved = [0, 0, 0],
       fo_ot_rpi = word_of_int (rpi sdiv 1000), fo_ot_params = 0x4200 OR 36,
       fo_to_rpi = word_of_int (rpi sdiv 1000), fo_to_params = 0x4200 OR 36,
       fo_transport_trigger = 0x01, fo_path_size = word_of_nat (length path div 2),
       fo_path = path\<rparr>)"

definition scanner_request :: "int \<Rightarrow> int \<Rightarrow> int \<Rightarrow> mr_request" where
  "scanner_request rpi inputAssembly outputAssembly =
     \<lparr>rq_service = ServiceForwardOpen, rq_path = [0x20, 0x06, 0x24, 0x01],
      rq_data = encode_forward_open (scanner_open_request rpi inputAssembly outputAssembly)\<rparr>"

text \<open>
  The producer, with data at the address a; zero is the zero value of \<open>time.Time\<close>.
\<close>

definition scanner_connection :: "int \<Rightarrow> int \<Rightarrow> address \<Rightarrow> io_connection" where
  "scanner_connection zero rpi a =
     \<lparr>io_id = 0x10000001, io_rpi = word_of_int rpi, io_seq = 0, io_run_idle = True,
      io_remote = Some ''127.0.0.1:2222'', io_assembly = Some \<lparr>ai_id = 0, ai_data = a\<rparr>,
      io_last_receive = zero, io_last_send = zero, io_timeout_mult = 0, io_producer = True,
      io_consumer = False\<rparr>"

text \<open>
  \<open>main\<close> up to the start of its ten seconds of sleep, and its return.  The times are the zero value
  of \<open>time.Time\<close>, the start of the runtime and the call of \<open>AddConnection\<close>; the connection is
  allocated at ref and its data at a.  A return unregisters the session and closes the connection;
  \<open>log.Fatalf\<close> exits without either.
\<close>

definition scanner_fatal :: "bytes \<Rightarrow> 'c session \<Rightarrow> 'c tool_run" where
  "scanner_fatal msg s = \<lparr>tl_exit = 1, tl_out = fatalf msg, tl_conn = Some (se_transport s)\<rparr>"

definition scanner_main ::
  "'c host \<Rightarrow> udp_net \<Rightarrow> int \<times> int \<times> int \<Rightarrow> string \<Rightarrow> int \<Rightarrow> int \<Rightarrow> int \<Rightarrow> conn_ref \<Rightarrow> address \<Rightarrow> runtime
   \<Rightarrow> 'c tool_run \<times> io_system option" where
  "scanner_main h un tms addr rpi inputAssembly outputAssembly ref a rt =
     (let tr = tcp_transport (ho_net h); (zero, started, added) = tms
      in case new_tcp_transport (ho_dial h) addr of
           Inl e \<Rightarrow>
             (\<lparr>tl_exit = 1, tl_out = fatalf (lit ''Failed to connect: '' @ ho_error h e),
               tl_conn = None\<rparr>, None)
         | Inr t \<Rightarrow>
             (case session_register tr (new_session t) of
                (Some e, s1) \<Rightarrow>
                  (scanner_fatal (lit ''Failed to register session: '' @ ho_error h e) s1, None)
              | (None, s1) \<Rightarrow>
                  (case runtime_start un '':0'' rt started of
                     Inl e \<Rightarrow>
                       (scanner_fatal (lit ''Failed to start UDP runtime: '' @ ho_error h e) s1, None)
                   | Inr sys \<Rightarrow>
                       (case send_cip_request tr s1
                               (scanner_request rpi inputAssembly outputAssembly) of
                          (Inl e, s2) \<Rightarrow>
                            (scanner_fatal (lit ''Forward_Open failed: '' @ ho_error h e) s2, Some sys)
                        | (Inr resp, s2) \<Rightarrow>
                            if rp_status resp \<noteq> StatusSuccess
                            then (scanner_fatal
                                    (lit ''Forward_Open error: 0x'' @ lit (hex2 (rp_status resp))) s2,
                                  Some sys)
                            else
                              let rt1 = (sy_rt sys)
                                    \<lparr>rt_store := (rt_store (sy_rt sys))
                                       (ref := scanner_connection zero rpi a),
                                     rt_assemblies := (rt_assemblies (sy_rt sys))
                                       \<lparr>as_heap := (as_heap (rt_assemblies (sy_rt sys)))
                                          (a := replicate 32 0)\<rparr>\<rparr>;
                                  (_, s3) = session_unregister tr s2;
                                  (_, t') = tr_close tr (se_transport s3)
                              in (\<lparr>tl_exit = 0,
                                   tl_out = log_printf (lit ''Forward_Open Successful!''),
                                   tl_conn = Some t'\<rparr>,
                                  Some (sys\<lparr>sy_rt := add_connection added ref rt1\<rparr>))))))"

section \<open>The scanner and the adapter\<close>

lemma scanner_open_length:
  "length (encode_forward_open (scanner_open_request rpi i out)) = 42"
  by (simp add: encode_forward_open_def scanner_open_request_def Let_def le8_def)

lemma scanner_request_client:
  "client_request (scanner_request rpi i out)"
  "length (request_encode (scanner_request rpi i out)) \<le> 4080"
  "rq_path (scanner_request rpi i out) = segment 0x20 6 @ segment 0x24 1"
  by (simp_all add: scanner_request_def client_request_def request_encode_eq segment_small
      scanner_open_length)

text \<open>The adapter after the Forward_Open.\<close>

definition opened :: "device_state \<Rightarrow> device_state" where
  "opened dv = dv\<lparr>dv_connmgr :=
     (let n = cm_next_conn_id (dv_connmgr dv) + 1
      in \<lparr>cm_connections = (cm_connections (dv_connmgr dv))
            (n \<mapsto> \<lparr>cn_ot_id = 0x10000001, cn_to_id = n\<rparr>),
          cm_next_conn_id = n\<rparr>)\<rparr>"

lemma scanner_dispatch:
  "\<exists>d. dispatch device_handle adapter_router dv (scanner_request rpi i out) =
    (Inr (object_response ServiceForwardOpen (Inr d)), opened dv) \<and> length d < 65000"
proof -
  let ?req = "scanner_open_request rpi i out"
  have "length (fo_reserved ?req) = 3" "fo_path ?req \<noteq> []"
    "length (fo_path ?req) = unat (fo_path_size ?req) * 2"
    by (simp_all add: scanner_open_request_def Let_def)
  note handle = handle_open_encoded [OF this, of "dv_connmgr dv"]
  have "rq_service (scanner_request rpi i out) = ServiceForwardOpen"
    "rq_data (scanner_request rpi i out) = encode_forward_open ?req"
    by (simp_all add: scanner_request_def)
  then have "dispatch device_handle adapter_router dv (scanner_request rpi i out) =
      (Inr (object_response ServiceForwardOpen (Inr (fst (open_connection (dv_connmgr dv) ?req)))),
       dv\<lparr>dv_connmgr := snd (open_connection (dv_connmgr dv) ?req)\<rparr>)"
    using adapter_dispatch(2) [OF scanner_request_client(3), of dv]
      handle [of "segment 0x24 1"] by simp
  moreover have "dv\<lparr>dv_connmgr := snd (open_connection (dv_connmgr dv) ?req)\<rparr> = opened dv"
    "length (fst (open_connection (dv_connmgr dv) ?req)) < 65000"
    by (simp_all add: open_connection_def opened_def Let_def forward_open_response_bytes_def
        scanner_open_request_def le8_def)
  ultimately show ?thesis by metis
qed

lemma scanner_register:
  "session_register (loop_transport device_handle adapter_router) (new_session (idle dv)) =
    (None, \<lparr>se_transport = idle dv, se_handle = 0x01020304\<rparr>)"
proof -
  let ?p = "(request_header CommandRegisterSession [1, 0, 0, 0] 0, [1, 0, 0, 0])"
  have "server_reply device_handle adapter_router dv ?p =
    ((\<lparr>eh_command = CommandRegisterSession, eh_length = 4, eh_session = 0x01020304, eh_status = 0,
       eh_context = replicate 8 0, eh_options = 0\<rparr>, le16 1 @ le16 0), dv)"
    by (simp add: server_reply_def server_command_def request_header_def)
  from loop.register_ok [OF refl _ this] show ?thesis by auto
qed

lemma scanner_forward_open:
  "\<exists>d. send_cip_request (loop_transport device_handle adapter_router)
      \<lparr>se_transport = idle dv, se_handle = h\<rparr> (scanner_request rpi i out) =
    (Inr (object_response ServiceForwardOpen (Inr d)), \<lparr>se_transport = idle (opened dv), se_handle = h\<rparr>)"
proof -
  obtain d where d: "dispatch device_handle adapter_router dv (scanner_request rpi i out) =
    (Inr (object_response ServiceForwardOpen (Inr d)), opened dv)" "length d < 65000"
    using scanner_dispatch by blast
  have "unat (rp_ext_size (object_response ServiceForwardOpen (Inr d))) =
      length (rp_ext (object_response ServiceForwardOpen (Inr d)))"
    "length (response_bytes (object_response ServiceForwardOpen (Inr d))) < 65520"
    using d(2) by (simp_all add: object_response_data)
  from loop_cip_request [OF scanner_request_client(1,2) d(1) this] show ?thesis by blast
qed

lemma loop_unregister:
  "tr_send (tcp_transport (loop_conn h r)) (idle w) CommandUnregisterSession [] s =
     (None, (idle w)\<lparr>lb_pending := unregister_packet s\<rparr>)"
  "tr_close (tcp_transport (loop_conn h r)) c = (None, c)"
proof -
  have "tcp_send (loop_conn h r) (idle w) CommandUnregisterSession [] s =
      (None, (idle w)\<lparr>lb_pending := unregister_packet s\<rparr>)"
    by (simp only: loop_send) (simp add: unregister_packet_def packet_def packet_bytes_def idle_def)
  then show "tr_send (tcp_transport (loop_conn h r)) (idle w) CommandUnregisterSession [] s =
      (None, (idle w)\<lparr>lb_pending := unregister_packet s\<rparr>)"
    by (simp add: tcp_transport_def)
qed (simp add: tcp_transport_def tcp_close_def loop_conn_def)

text \<open>For a run: a host whose network is the adapter itself, and a system with free UDP ports.\<close>

definition loop_host :: "device_state \<Rightarrow> device_state loopback host" where
  "loop_host dv =
     \<lparr>ho_net = loop_conn device_handle adapter_router, ho_dial = \<lambda>_. Inr (idle dv),
      ho_error = \<lambda>_. [], ho_time = \<lambda>_. [], ho_duration = \<lambda>_. []\<rparr>"

definition free_udp :: udp_net where
  "free_udp = \<lparr>un_resolve = Inr, un_listen = \<lambda>_. None\<rparr>"

section \<open>Properties\<close>

text \<open>
  C23: scanner and adapter over the wire.  Whatever the state of the adapter, the options and the
  interval, the scanner's program registers its session and its Forward_Open is accepted: the
  adapter records the connection under its next identifier, the scanner's runtime has a producer
  for it, and the program ends with code 0 after unregistering.  Nothing is sent by that: no
  scheduler is created, so no producer is pending, and the connection is not closed in the adapter.
\<close>

theorem scanner_opens_connection:
  "case scanner_main (loop_host dv) free_udp tms addr rpi i out ref a rt of
     (run, sys) \<Rightarrow>
       tl_exit run = 0 \<and> stdout_texts (tl_out run) = [] \<and>
       tl_conn run = Some ((idle (opened dv))\<lparr>lb_pending := unregister_packet 0x01020304\<rparr>) \<and>
       (\<exists>s. sys = Some s \<and> sy_pending s = [] \<and>
          rt_connections (sy_rt s) = (rt_connections rt)(0x10000001 \<mapsto> ref) \<and>
          io_producer (rt_store (sy_rt s) ref) \<and> rt_sent (sy_rt s) = rt_sent rt)"
proof -
  obtain d where d: "send_cip_request (loop_transport device_handle adapter_router)
      \<lparr>se_transport = idle dv, se_handle = 0x01020304\<rparr> (scanner_request rpi i out) =
    (Inr (object_response ServiceForwardOpen (Inr d)),
     \<lparr>se_transport = idle (opened dv), se_handle = 0x01020304\<rparr>)"
    using scanner_forward_open by blast
  obtain zero started added where tms: "tms = (zero, started, added)" by (cases tms)
  note [simp] = scanner_register [unfolded loop_transport_def] d [unfolded loop_transport_def]
  show ?thesis
    by (simp add: scanner_main_def tms loop_host_def new_tcp_transport_def runtime_start_def
        free_udp_def object_response_data Let_def start_system_def add_connection_def
        update_conn_def scanner_connection_def session_unregister_def
        loop_unregister [unfolded CommandUnregisterSession_def]
        log_printf_def)
qed

end
