(* ===== verification/Server_Calls.thy ===== *)
theory Server_Calls
  imports Eip_Server
begin

text \<open>
  One packet, one call: the server handles a packet on its own goroutine, except for at most one
  call of an object's \<open>HandleRequest\<close>.  What a packet asks of the objects is the object called and
  its arguments, found by running the code of the server against objects that only record their
  call; then there is what the server answers when that call has the result res.
\<close>

definition record_call :: "'o \<Rightarrow> ('o \<times> u8 \<times> cip_path \<times> bytes) option handler" where
  "record_call ob w service path data = (Inl EOF, Some (ob, service, path, data))"

definition with_result :: "go_error + bytes \<Rightarrow> 'o \<Rightarrow> unit handler" where
  "with_result res ob w service path data = (res, ())"

definition server_call :: "'o router \<Rightarrow> u16 \<Rightarrow> bytes \<Rightarrow> ('o \<times> u8 \<times> cip_path \<times> bytes) option" where
  "server_call router command data =
     snd (snd (snd (server_command record_call router None command 0 data)))"

definition server_answer ::
  "'o router \<Rightarrow> u16 \<Rightarrow> u32 \<Rightarrow> bytes \<Rightarrow> go_error + bytes \<Rightarrow> u32 \<times> u32 \<times> bytes" where
  "server_answer router command session data res =
     (case server_command (with_result res) router () command session data of
        (session', status, respData, _) \<Rightarrow> (session', status, respData))"

text \<open>
  A run makes at most one call and does the rest without the objects: it ends in x over the world
  w, in rec when calls are recorded, and in u res when the call has the result res.
\<close>

definition one_call ::
  "('o \<Rightarrow> 'w handler) \<Rightarrow> 'w \<Rightarrow> 'a \<times> 'w \<Rightarrow> 'a \<times> ('o \<times> u8 \<times> cip_path \<times> bytes) option \<Rightarrow>
   (go_error + bytes \<Rightarrow> 'a \<times> unit) \<Rightarrow> bool" where
  "one_call h w x rec u \<longleftrightarrow>
     (case snd rec of
        None \<Rightarrow> \<forall>r. x = (fst (u r), w)
      | Some (ob, s, p, d) \<Rightarrow> x = (fst (u (fst (h ob w s p d))), snd (h ob w s p d)))"

lemma one_call_none [simp]: "one_call h w (a, w) (a, None) (\<lambda>_. (a, ()))"
  by (simp add: one_call_def)

lemma one_call_map:
  "one_call h w x rec u \<Longrightarrow> one_call h w (map_prod f id x) (map_prod f id rec) (\<lambda>r. map_prod f id (u r))"
  by (auto simp: one_call_def split: option.splits prod.splits)

lemma case_map_result:
  "(case x of (Inl e, w') \<Rightarrow> (Inl e, w') | (Inr r, w') \<Rightarrow> (Inr (g r), w')) = map_prod (map_sum id g) id x"
  by (cases x) (auto split: sum.split)

lemma dispatch_call:
  "one_call h w (dispatch h router w q) (dispatch record_call router None q)
     (\<lambda>r. dispatch (with_result r) router () q)"
  by (cases "parse_class (rq_path q)")
    (auto simp: one_call_def dispatch_def record_call_def with_result_def
      split: option.split prod.split sum.split go_error.split)

lemma serve_message_call:
  "one_call h w (serve_message h router w m) (serve_message record_call router None m)
     (\<lambda>r. serve_message (with_result r) router () m)"
  by (cases "server_request_read m")
    (auto simp: serve_message_def case_map_result intro!: one_call_map dispatch_call)

lemma send_rr_data_call:
  "one_call h w (handle_send_rr_data h router w d) (handle_send_rr_data record_call router None d)
     (\<lambda>r. handle_send_rr_data (with_result r) router () d)"
  by (auto simp: handle_send_rr_data_def case_map_result intro!: one_call_map serve_message_call
      split: option.split sum.split)

lemma send_unit_data_call:
  "one_call h w (handle_send_unit_data h router w d) (handle_send_unit_data record_call router None d)
     (\<lambda>r. handle_send_unit_data (with_result r) router () d)"
  by (auto simp: handle_send_unit_data_def case_map_result intro!: one_call_map serve_message_call
      split: option.split sum.split)

definition command_status :: "u32 \<Rightarrow> go_error + bytes \<Rightarrow> u32 \<times> u32 \<times> bytes" where
  "command_status session r = (case r of Inl e \<Rightarrow> (session, 1, []) | Inr d \<Rightarrow> (session, 0, d))"

definition answer_of :: "u32 \<times> u32 \<times> bytes \<times> 'w \<Rightarrow> (u32 \<times> u32 \<times> bytes) \<times> 'w" where
  "answer_of x = (case x of (s, st, d, w) \<Rightarrow> ((s, st, d), w))"

lemma answer_of_case:
  "answer_of (case x of (Inl e, w') \<Rightarrow> (session, 1, [], w') | (Inr d, w') \<Rightarrow> (session, 0, d, w')) =
     map_prod (command_status session) id x"
  by (cases x) (auto simp: answer_of_def command_status_def split: sum.split)

lemma one_call_rec: "one_call h w x rec u \<Longrightarrow> snd rec' = snd rec \<Longrightarrow> one_call h w x rec' u"
  by (simp add: one_call_def)

lemma server_command_one_call:
  "one_call h w (answer_of (server_command h router w command session data))
     (answer_of (server_command record_call router None command 0 data))
     (\<lambda>r. answer_of (server_command (with_result r) router () command session data))"
proof -
  consider "command = CommandSendRRData" | "command = CommandSendUnitData"
    | "command \<noteq> CommandSendRRData" "command \<noteq> CommandSendUnitData" by blast
  then show ?thesis
  proof cases
    case 1
    show ?thesis
      using 1 by (simp add: server_command_def answer_of_case)
        (rule one_call_rec [OF one_call_map [OF send_rr_data_call]], simp)
  next
    case 2
    show ?thesis
      using 2 by (simp add: server_command_def answer_of_case)
        (rule one_call_rec [OF one_call_map [OF send_unit_data_call]], simp)
  next
    case 3
    then show ?thesis by (simp add: server_command_def answer_of_def one_call_def)
  qed
qed

text \<open>The answer of the server and what it does to the objects, from its one call.\<close>

lemma server_command_call:
  "server_call router command data = None \<Longrightarrow>
   server_command h router w command session data =
     (case server_answer router command session data r of (s, st, d) \<Rightarrow> (s, st, d, w))"
  "server_call router command data = Some (ob, svc, p, d) \<Longrightarrow>
   server_command h router w command session data =
     (case server_answer router command session data (fst (h ob w svc p d)) of
        (s, st, x) \<Rightarrow> (s, st, x, snd (h ob w svc p d)))"
  using server_command_one_call [of h w router command session data]
  by (auto simp: one_call_def server_call_def server_answer_def answer_of_def split: prod.splits)

end
