(* ===== verification/Server_Steps.thy ===== *)
theory Server_Steps
  imports Adapter Server_Calls Runs
begin

text \<open>
  The server with many connections, \<open>Start\<close>, \<open>acceptLoop\<close> and the goroutines of
  \<open>handleConnection\<close> in \<open>pkg/server/server.go\<close>, as a step relation.  An iteration of a goroutine is
  not one step: it receives a packet, decodes it, enters the critical section of the object it
  calls, leaves it with a result, and writes the response; between these steps any other
  goroutine may run.  In its section a goroutine works on what it read of the object when it
  entered, and what it changed is seen when it leaves, so that without the object's lock updates
  would be lost.
\<close>

section \<open>Shared objects\<close>

text \<open>
  How a call uses the lock of its object: not at all, for reading, or for writing
  (\<open>sync.RWMutex\<close>).  The objects: their handlers, the part of the state that is an object's own
  (\<open>ob_put ob v w\<close> is w with that part taken from v), and the use of the lock.
\<close>

datatype lock_mode = Unlocked | RLocked | Locked

record ('o, 'w) objects =
  ob_handle :: "'o \<Rightarrow> 'w handler"
  ob_put :: "'o \<Rightarrow> 'w \<Rightarrow> 'w \<Rightarrow> 'w"
  ob_lock :: "'o \<Rightarrow> u8 \<Rightarrow> cip_path \<Rightarrow> bytes \<Rightarrow> lock_mode"

text \<open>Two holders of one lock: readers do not exclude each other.\<close>

fun compatible :: "lock_mode \<Rightarrow> lock_mode \<Rightarrow> bool" where
  "compatible Unlocked _ = True"
| "compatible _ Unlocked = True"
| "compatible RLocked RLocked = True"
| "compatible _ _ = False"

lemma compatible_sym: "compatible m m' = compatible m' m"
  by (cases m; cases m') simp_all

section \<open>The goroutines\<close>

record 'o server =
  sr_router :: "'o router"

definition new_server :: "'o router \<Rightarrow> 'o server" where
  "new_server router = \<lparr>sr_router = router\<rparr>"

text \<open>
  Where the goroutine of a connection is; a request is command, session handle, sender context
  and data, an answer session handle, status and data.
\<close>

type_synonym request = "u16 \<times> u32 \<times> bytes \<times> bytes"

datatype 'w phase =
    Receiving
  | Dispatching request
  | Inside request 'w
  | Responding request "u32 \<times> u32 \<times> bytes"
  | Finished

record 'w serving =
  sv_world :: 'w
  sv_conns :: "(tcp_conn \<times> 'w phase) list"

datatype srv_action = Accepted tcp_conn | AcceptFailed | Goroutine nat

text \<open>\<open>Start\<close>: it fails if the address cannot be listened on, and serves no connection at first.\<close>

definition server_start :: "(string \<Rightarrow> go_error option) \<Rightarrow> string \<Rightarrow> 'w \<Rightarrow> go_error + 'w serving" where
  "server_start listen address w =
     (case listen address of
        Some e \<Rightarrow> Inl e
      | None \<Rightarrow> Inr \<lparr>sv_world = w, sv_conns = []\<rparr>)"

definition request_call :: "'o router \<Rightarrow> request \<Rightarrow> ('o \<times> u8 \<times> cip_path \<times> bytes) option" where
  "request_call router q = (case q of (command, _, _, data) \<Rightarrow> server_call router command data)"

definition request_answer :: "'o router \<Rightarrow> request \<Rightarrow> go_error + bytes \<Rightarrow> u32 \<times> u32 \<times> bytes" where
  "request_answer router q res =
     (case q of (command, session, _, data) \<Rightarrow> server_answer router command session data res)"

text \<open>The section a goroutine is in, with the use of the lock; whether a lock can be taken.\<close>

definition section_of ::
  "('o, 'w) objects \<Rightarrow> 'o router \<Rightarrow> 'w phase \<Rightarrow> ('o \<times> lock_mode) option" where
  "section_of objs router ph =
     (case ph of
        Inside q _ \<Rightarrow>
          map_option (\<lambda>(ob, s, p, d). (ob, ob_lock objs ob s p d)) (request_call router q)
      | _ \<Rightarrow> None)"

definition lock_free ::
  "('o, 'w) objects \<Rightarrow> 'o router \<Rightarrow> (tcp_conn \<times> 'w phase) list \<Rightarrow> 'o \<Rightarrow> lock_mode \<Rightarrow> bool" where
  "lock_free objs router conns ob m \<longleftrightarrow>
     list_all (\<lambda>(c, ph). case section_of objs router ph of
        None \<Rightarrow> True
      | Some (ob', m') \<Rightarrow> ob' = ob \<longrightarrow> compatible m' m) conns"

definition conn_at :: "'w serving \<Rightarrow> nat \<Rightarrow> tcp_conn \<Rightarrow> 'w phase \<Rightarrow> bool" where
  "conn_at s i c ph \<longleftrightarrow> i < length (sv_conns s) \<and> sv_conns s ! i = (c, ph)"

definition set_conn :: "nat \<Rightarrow> tcp_conn \<Rightarrow> 'w phase \<Rightarrow> 'w serving \<Rightarrow> 'w serving" where
  "set_conn i c ph s = s\<lparr>sv_conns := (sv_conns s)[i := (c, ph)]\<rparr>"

inductive srv_step ::
  "('o, 'w) objects \<Rightarrow> 'o server \<Rightarrow> 'w serving \<Rightarrow> srv_action \<Rightarrow> 'w serving \<Rightarrow> bool"
  for objs srv where
  accepted: "srv_step objs srv s (Accepted c) (s\<lparr>sv_conns := sv_conns s @ [(c, Receiving)]\<rparr>)"
| failed: "srv_step objs srv s AcceptFailed s"
| received: "conn_at s i c Receiving \<Longrightarrow> server_receive c = (Some q, c') \<Longrightarrow>
    fst q \<noteq> CommandUnregisterSession \<Longrightarrow>
    srv_step objs srv s (Goroutine i) (set_conn i c' (Dispatching q) s)"
| returned: "conn_at s i c Receiving \<Longrightarrow> server_receive c = (r, c') \<Longrightarrow>
    (case r of None \<Rightarrow> True | Some q \<Rightarrow> fst q = CommandUnregisterSession) \<Longrightarrow>
    srv_step objs srv s (Goroutine i) (set_conn i (conn_close c') Finished s)"
| no_call: "conn_at s i c (Dispatching q) \<Longrightarrow> request_call (sr_router srv) q = None \<Longrightarrow>
    srv_step objs srv s (Goroutine i)
      (set_conn i c (Responding q (request_answer (sr_router srv) q (Inl EOF))) s)"
| entered: "conn_at s i c (Dispatching q) \<Longrightarrow>
    request_call (sr_router srv) q = Some (ob, service, path, data) \<Longrightarrow>
    lock_free objs (sr_router srv) (sv_conns s) ob (ob_lock objs ob service path data) \<Longrightarrow>
    srv_step objs srv s (Goroutine i) (set_conn i c (Inside q (sv_world s)) s)"
| left: "conn_at s i c (Inside q v) \<Longrightarrow>
    request_call (sr_router srv) q = Some (ob, service, path, data) \<Longrightarrow>
    ob_handle objs ob v service path data = (res, v') \<Longrightarrow>
    srv_step objs srv s (Goroutine i)
      (set_conn i c (Responding q (request_answer (sr_router srv) q res))
         (s\<lparr>sv_world := (if ob_lock objs ob service path data = Locked
                        then ob_put objs ob v' (sv_world s) else sv_world s)\<rparr>))"
| responded: "conn_at s i c (Responding (command, session, context', data) (session', status, respData)) \<Longrightarrow>
    server_respond c command session' status context' respData = (None, c') \<Longrightarrow>
    srv_step objs srv s (Goroutine i) (set_conn i c' Receiving s)"
| broken: "conn_at s i c (Responding (command, session, context', data) (session', status, respData)) \<Longrightarrow>
    server_respond c command session' status context' respData = (Some e, c') \<Longrightarrow>
    srv_step objs srv s (Goroutine i) (set_conn i (conn_close c') Finished s)"

abbreviation srv_run where
  "srv_run objs srv \<equiv> runs (srv_step objs srv)"

lemma set_conn_sel [simp]:
  "sv_world (set_conn i c ph s) = sv_world s"
  "sv_conns (set_conn i c ph s) = (sv_conns s)[i := (c, ph)]"
  by (simp_all add: set_conn_def)

lemma section_of_simps [simp]:
  "section_of objs r Receiving = None" "section_of objs r (Dispatching q) = None"
  "section_of objs r (Responding q a) = None" "section_of objs r Finished = None"
  by (simp_all add: section_of_def)

section \<open>The order of the requests\<close>

text \<open>
  The requests the server has handled, each with its connection, in the order it handled them;
  the replies to one connection among them.
\<close>

definition replies_to ::
  "('o \<Rightarrow> 'w handler) \<Rightarrow> 'o router \<Rightarrow> 'w \<Rightarrow> (nat \<times> packet) list \<Rightarrow> nat \<Rightarrow> packet list" where
  "replies_to h router w order i =
     map snd (filter (\<lambda>x. fst (fst x) = i) (zip order (fst (server_replies h router w (map snd order)))))"

definition requests_of :: "(nat \<times> packet) list \<Rightarrow> nat \<Rightarrow> packet list" where
  "requests_of order i = map snd (filter (\<lambda>x. fst x = i) order)"

text \<open>The request in a packet; the response that is still to be written.\<close>

definition packet_request :: "packet \<Rightarrow> request" where
  "packet_request p = (eh_command (fst p), eh_session (fst p), eh_context (fst p), snd p)"

definition answer_packet :: "request \<Rightarrow> u32 \<times> u32 \<times> bytes \<Rightarrow> packet" where
  "answer_packet q a =
     (case q of (command, _, context', _) \<Rightarrow> case a of (session, status, d) \<Rightarrow>
        (\<lparr>eh_command = command, eh_length = word_of_nat (length d), eh_session = session,
          eh_status = status, eh_context = context', eh_options = 0\<rparr>, d))"

definition unwritten :: "'w phase \<Rightarrow> bytes" where
  "unwritten ph = (case ph of Responding q a \<Rightarrow> packet_bytes (answer_packet q a) | _ \<Rightarrow> [])"

lemma unwritten_simps [simp]:
  "unwritten Receiving = []" "unwritten (Dispatching q) = []" "unwritten (Inside q v) = []"
  "unwritten Finished = []" "unwritten (Responding q a) = packet_bytes (answer_packet q a)"
  by (simp_all add: unwritten_def)

text \<open>
  Connection i brings the packets ps: a first part of them was handled, their replies were
  written or are about to be, one more may be in hand, and the connection ends only after all.
\<close>

definition conn_progress ::
  "('o \<Rightarrow> 'w handler) \<Rightarrow> 'o router \<Rightarrow> 'w \<Rightarrow> packet list \<Rightarrow> (nat \<times> packet) list \<Rightarrow> nat \<Rightarrow>
   tcp_conn \<Rightarrow> 'w phase \<Rightarrow> bool" where
  "conn_progress h router w ps order i c ph \<longleftrightarrow>
     (\<exists>k \<le> length ps. requests_of order i = take k ps \<and> tc_room c = None \<and>
        tc_out c @ unwritten ph = concat (map packet_bytes (replies_to h router w order i)) \<and>
        (case ph of
           Finished \<Rightarrow> k = length ps \<and> tc_closed c
         | Receiving \<Rightarrow> tc_in c = concat (map packet_bytes (drop k ps)) \<and> \<not> tc_closed c
         | Responding q a \<Rightarrow> tc_in c = concat (map packet_bytes (drop k ps)) \<and> \<not> tc_closed c
         | Dispatching q \<Rightarrow> k < length ps \<and> q = packet_request (ps ! k) \<and>
             tc_in c = concat (map packet_bytes (drop (Suc k) ps)) \<and> \<not> tc_closed c
         | Inside q v \<Rightarrow> k < length ps \<and> q = packet_request (ps ! k) \<and>
             tc_in c = concat (map packet_bytes (drop (Suc k) ps)) \<and> \<not> tc_closed c))"

definition handled_in_order ::
  "('o \<Rightarrow> 'w handler) \<Rightarrow> 'o router \<Rightarrow> 'w \<Rightarrow> packet list list \<Rightarrow> (nat \<times> packet) list \<Rightarrow> 'w serving \<Rightarrow> bool" where
  "handled_in_order h router w pss order s \<longleftrightarrow>
     length (sv_conns s) = length pss \<and> (\<forall>x \<in> set order. fst x < length pss) \<and>
     sv_world s = snd (server_replies h router w (map snd order)) \<and>
     (\<forall>i < length pss. \<forall>c ph. sv_conns s ! i = (c, ph) \<longrightarrow> conn_progress h router w (pss ! i) order i c ph)"

lemma server_replies_snoc:
  "server_replies h router w (ps @ [p]) =
     (fst (server_replies h router w ps) @ [fst (server_reply h router (snd (server_replies h router w ps)) p)],
      snd (server_reply h router (snd (server_replies h router w ps)) p))"
  by (induction ps arbitrary: w) (simp_all add: Let_def split: prod.split)

lemma length_server_replies [simp]: "length (fst (server_replies h router w ps)) = length ps"
  by (induction ps arbitrary: w) (simp_all add: Let_def case_prod_beta)

lemma requests_of_snoc:
  "requests_of (order @ [(j, p)]) i = requests_of order i @ (if j = i then [p] else [])"
  by (simp add: requests_of_def)

lemma replies_to_snoc:
  "replies_to h router w (order @ [(j, p)]) i = replies_to h router w order i @
     (if j = i then [fst (server_reply h router (snd (server_replies h router w (map snd order))) p)]
      else [])"
  by (simp add: replies_to_def server_replies_snoc)

lemma no_requests:
  assumes "\<forall>x \<in> set order. fst x < n"
  shows "requests_of order n = []" and "replies_to h router w order n = []"
  using assms by (fastforce simp: requests_of_def replies_to_def filter_empty_conv dest: set_zip_leftD)+

fun accepted_conns :: "srv_action list \<Rightarrow> tcp_conn list" where
  "accepted_conns [] = []"
| "accepted_conns (Accepted c # as) = c # accepted_conns as"
| "accepted_conns (AcceptFailed # as) = accepted_conns as"
| "accepted_conns (Goroutine i # as) = accepted_conns as"

abbreviation requests_ok :: "packet list \<Rightarrow> bool" where
  "requests_ok ps \<equiv> \<forall>p \<in> set ps. packet_ok p \<and> eh_command (fst p) \<noteq> CommandUnregisterSession"

text \<open>A connection whose peer sends the packets ps and then closes its side.\<close>

definition conn_with :: "packet list \<Rightarrow> tcp_conn" where
  "conn_with ps = \<lparr>tc_in = concat (map packet_bytes ps), tc_out = [], tc_room = None, tc_closed = False\<rparr>"

section \<open>Steps that handle no request\<close>

lemma accept_in_order:
  assumes "handled_in_order h router w pss order s"
  shows "handled_in_order h router w (pss @ [ps]) order
    (s\<lparr>sv_conns := sv_conns s @ [(conn_with ps, Receiving)]\<rparr>)"
proof -
  have len: "length (sv_conns s) = length pss" and o: "\<forall>x \<in> set order. fst x < length pss"
    using assms by (simp_all add: handled_in_order_def)
  note none = no_requests(1) [OF o] no_requests(2) [OF o, of h router w]
  have "conn_progress h router w ps order (length pss) (conn_with ps) Receiving"
    unfolding conn_progress_def by (intro exI [of _ 0]) (simp add: none conn_with_def)
  then show ?thesis
    using assms len by (auto simp: handled_in_order_def nth_append less_Suc_eq)
qed

text \<open>A step of goroutine i that leaves the objects and the order as they are.\<close>

lemma same_order:
  assumes "handled_in_order h router w pss order s" and "i < length pss"
    and "conn_progress h router w (pss ! i) order i c' ph'"
  shows "handled_in_order h router w pss order (set_conn i c' ph' s)"
  using assms by (auto simp: handled_in_order_def nth_list_update)

lemma progress_at:
  assumes "handled_in_order h router w pss order s" and "conn_at s i c ph"
  shows "i < length pss" and "conn_progress h router w (pss ! i) order i c ph"
  using assms by (auto simp: handled_in_order_def conn_at_def)

lemma receive_packets:
  assumes "requests_ok ps" and "tc_in c = concat (map packet_bytes (drop k ps))"
  shows "server_receive c = (if k < length ps
    then (Some (packet_request (ps ! k)), c\<lparr>tc_in := concat (map packet_bytes (drop (Suc k) ps))\<rparr>)
    else (None, c))"
proof (cases "k < length ps")
  case True
  have "concat (map packet_bytes (drop k ps)) =
      packet_bytes (ps ! k) @ concat (map packet_bytes (drop (Suc k) ps))"
    using True by (simp flip: Cons_nth_drop_Suc)
  moreover have "packet_ok (ps ! k)" using assms(1) True by (metis nth_mem)
  ultimately show ?thesis
    using True assms(2) by (cases c) (simp add: server_receive_packet packet_request_def)
next
  case False
  then show ?thesis using assms(2) by (cases c) (simp add: server_receive_short)
qed

lemma received_in_order:
  assumes "handled_in_order h router w pss order s" and "conn_at s i c Receiving"
    and "server_receive c = (Some q, c')" and ok: "\<forall>ps \<in> set pss. requests_ok ps"
  shows "handled_in_order h router w pss order (set_conn i c' (Dispatching q) s)"
proof (rule same_order [OF assms(1)])
  show i: "i < length pss" by (rule progress_at(1) [OF assms(1,2)])
  obtain k where k: "k \<le> length (pss ! i)" "requests_of order i = take k (pss ! i)"
    "tc_room c = None" "tc_out c = concat (map packet_bytes (replies_to h router w order i))"
    "tc_in c = concat (map packet_bytes (drop k (pss ! i)))" "\<not> tc_closed c"
    using progress_at(2) [OF assms(1,2)] by (auto simp: conn_progress_def)
  have "requests_ok (pss ! i)" by (rule bspec [OF ok nth_mem [OF i]])
  from receive_packets [OF this k(5)] show "conn_progress h router w (pss ! i) order i c' (Dispatching q)"
    using assms(3) k unfolding conn_progress_def by (intro exI [of _ k]) (auto split: if_splits)
qed

lemma returned_in_order:
  assumes "handled_in_order h router w pss order s" and "conn_at s i c Receiving"
    and "server_receive c = (r, c')"
    and "case r of None \<Rightarrow> True | Some q \<Rightarrow> fst q = CommandUnregisterSession"
    and ok: "\<forall>ps \<in> set pss. requests_ok ps"
  shows "handled_in_order h router w pss order (set_conn i (conn_close c') Finished s)"
proof (rule same_order [OF assms(1)])
  show i: "i < length pss" by (rule progress_at(1) [OF assms(1,2)])
  obtain k where k: "k \<le> length (pss ! i)" "requests_of order i = take k (pss ! i)"
    "tc_room c = None" "tc_out c = concat (map packet_bytes (replies_to h router w order i))"
    "tc_in c = concat (map packet_bytes (drop k (pss ! i)))" "\<not> tc_closed c"
    using progress_at(2) [OF assms(1,2)] by (auto simp: conn_progress_def)
  have ps: "requests_ok (pss ! i)" by (rule bspec [OF ok nth_mem [OF i]])
  have "\<not> k < length (pss ! i)"
  proof
    assume less: "k < length (pss ! i)"
    then have "eh_command (fst (pss ! i ! k)) \<noteq> CommandUnregisterSession" using ps by (metis nth_mem)
    then show False
      using receive_packets [OF ps k(5)] assms(3,4) less by (auto simp: packet_request_def)
  qed
  then show "conn_progress h router w (pss ! i) order i (conn_close c') Finished"
    using receive_packets [OF ps k(5)] assms(3) k unfolding conn_progress_def
    by (intro exI [of _ k]) (auto simp: conn_close_def)
qed

lemma respond_packet:
  assumes "tc_room c = None"
  shows "server_respond c command session status context' d =
    (None, c\<lparr>tc_out := tc_out c @
       packet_bytes (answer_packet (command, ses, context', dat) (session, status, d))\<rparr>)"
  using assms by (cases c) (simp add: server_respond_packet answer_packet_def)

lemma responded_in_order:
  assumes "handled_in_order h router w pss order s"
    and "conn_at s i c (Responding (command, session, context', data) (session', status, respData))"
    and "server_respond c command session' status context' respData = (r, c')"
  shows "r = None \<and> handled_in_order h router w pss order (set_conn i c' Receiving s)"
proof
  obtain k where k: "k \<le> length (pss ! i)" "requests_of order i = take k (pss ! i)"
    "tc_room c = None" "tc_out c @ packet_bytes (answer_packet (command, session, context', data)
      (session', status, respData)) = concat (map packet_bytes (replies_to h router w order i))"
    "tc_in c = concat (map packet_bytes (drop k (pss ! i)))" "\<not> tc_closed c"
    using progress_at(2) [OF assms(1,2)] by (auto simp: conn_progress_def)
  note resp = respond_packet [OF k(3), of command session' status context' respData session data]
  then show "r = None" using assms(3) by simp
  have "conn_progress h router w (pss ! i) order i c' Receiving"
    using resp assms(3) k unfolding conn_progress_def by (intro exI [of _ k]) auto
  then show "handled_in_order h router w pss order (set_conn i c' Receiving s)"
    using same_order [OF assms(1) progress_at(1) [OF assms(1,2)]] by simp
qed

text \<open>A request is handled: it is the next in the order.\<close>

lemma handle_in_order:
  assumes "handled_in_order h router w pss order s" and "i < length pss"
    and k: "k < length (pss ! i)" "requests_of order i = take k (pss ! i)"
      "tc_room c = None" "tc_out c = concat (map packet_bytes (replies_to h router w order i))"
      "tc_in c = concat (map packet_bytes (drop (Suc k) (pss ! i)))" "\<not> tc_closed c"
    and reply: "server_reply h router (sv_world s) (pss ! i ! k) =
      (answer_packet (packet_request (pss ! i ! k)) a, w')"
  shows "handled_in_order h router w pss (order @ [(i, pss ! i ! k)])
    (set_conn i c (Responding (packet_request (pss ! i ! k)) a) (s\<lparr>sv_world := w'\<rparr>))"
proof -
  let ?p = "pss ! i ! k" and ?order = "order @ [(i, pss ! i ! k)]"
  have world: "sv_world s = snd (server_replies h router w (map snd order))"
    and len: "length (sv_conns s) = length pss" and ord: "\<forall>x \<in> set order. fst x < length pss"
    using assms(1) by (simp_all add: handled_in_order_def)
  have "conn_progress h router w (pss ! i) ?order i c (Responding (packet_request ?p) a)"
    unfolding conn_progress_def
    using k reply world
    by (intro exI [of _ "Suc k"]) (simp add: requests_of_snoc replies_to_snoc take_Suc_conv_app_nth)
  moreover have "conn_progress h router w (pss ! j) ?order j d ph"
    if "j < length pss" "j \<noteq> i" "sv_conns s ! j = (d, ph)" for j d ph
    using assms(1) that by (simp add: handled_in_order_def conn_progress_def requests_of_snoc replies_to_snoc)
  moreover have "w' = snd (server_replies h router w (map snd ?order))"
    using reply world by (simp add: server_replies_snoc)
  ultimately show ?thesis
    using len ord assms(2) by (auto simp: handled_in_order_def nth_list_update)
qed

lemma answer_is_reply:
  "server_command h router w (eh_command (fst p)) (eh_session (fst p)) (snd p) =
     (case a of (s, st, d) \<Rightarrow> (s, st, d, w')) \<Longrightarrow>
   server_reply h router w p = (answer_packet (packet_request p) a, w')"
  by (cases a) (simp add: server_reply_def answer_packet_def packet_request_def)

section \<open>Sections\<close>

text \<open>
  What goroutines in sections know: what one has read of its object under the lock is still what
  the object is, and two that are in sections of one object use the lock compatibly.
\<close>

definition phase_at :: "'w serving \<Rightarrow> nat \<Rightarrow> 'w phase" where
  "phase_at s i = (if i < length (sv_conns s) then snd (sv_conns s ! i) else Finished)"

definition section_at :: "('o, 'w) objects \<Rightarrow> 'o router \<Rightarrow> 'w serving \<Rightarrow> nat \<Rightarrow> ('o \<times> lock_mode) option" where
  "section_at objs r s i = section_of objs r (phase_at s i)"

definition sections_ok :: "('o, 'w) objects \<Rightarrow> 'o router \<Rightarrow> 'w serving \<Rightarrow> bool" where
  "sections_ok objs r s \<longleftrightarrow>
     (\<forall>i q v ob m. phase_at s i = Inside q v \<and> section_at objs r s i = Some (ob, m) \<and> m \<noteq> Unlocked \<longrightarrow>
        ob_put objs ob v (sv_world s) = sv_world s) \<and>
     (\<forall>i j ob m m'. i \<noteq> j \<and> section_at objs r s i = Some (ob, m) \<and> section_at objs r s j = Some (ob, m') \<longrightarrow>
        compatible m m')"

lemma sections_okD:
  assumes "sections_ok objs r s"
  shows "phase_at s i = Inside q v \<Longrightarrow> section_at objs r s i = Some (ob, m) \<Longrightarrow> m \<noteq> Unlocked \<Longrightarrow>
      ob_put objs ob v (sv_world s) = sv_world s"
    and "i \<noteq> j \<Longrightarrow> section_at objs r s i = Some (ob, m) \<Longrightarrow> section_at objs r s j = Some (ob, m') \<Longrightarrow>
      compatible m m'"
  using assms unfolding sections_ok_def by metis+

lemma sections_okI:
  assumes "\<And>i q v ob m. phase_at s i = Inside q v \<Longrightarrow> section_at objs r s i = Some (ob, m) \<Longrightarrow>
      m \<noteq> Unlocked \<Longrightarrow> ob_put objs ob v (sv_world s) = sv_world s"
    and "\<And>i j ob m m'. i \<noteq> j \<Longrightarrow> section_at objs r s i = Some (ob, m) \<Longrightarrow>
      section_at objs r s j = Some (ob, m') \<Longrightarrow> compatible m m'"
  shows "sections_ok objs r s"
  using assms unfolding sections_ok_def by metis

lemma conn_at_phase: "conn_at s i c ph \<Longrightarrow> phase_at s i = ph \<and> i < length (sv_conns s)"
  by (simp add: conn_at_def phase_at_def)

lemma phase_at_set [simp]:
  "i < length (sv_conns s) \<Longrightarrow> phase_at (set_conn i c ph s) j = (if j = i then ph else phase_at s j)"
  by (simp add: phase_at_def nth_list_update)

lemma section_at_set:
  "i < length (sv_conns s) \<Longrightarrow>
   section_at objs r (set_conn i c ph s) j = (if j = i then section_of objs r ph else section_at objs r s j)"
  by (simp add: section_at_def)

lemma section_at_world [simp]:
  "phase_at (s\<lparr>sv_world := w\<rparr>) j = phase_at s j"
  "section_at objs r (s\<lparr>sv_world := w\<rparr>) j = section_at objs r s j"
  by (simp_all add: phase_at_def section_at_def)

text \<open>A goroutine that is in no section after its step, with the objects as they were.\<close>

lemma sections_no_section:
  assumes "sections_ok objs r s" and "section_of objs r ph = None" and i: "i < length (sv_conns s)"
  shows "sections_ok objs r (set_conn i c ph s)"
proof (rule sections_okI)
  fix j q v ob m
  assume "phase_at (set_conn i c ph s) j = Inside q v"
    "section_at objs r (set_conn i c ph s) j = Some (ob, m)" "m \<noteq> Unlocked"
  then show "ob_put objs ob v (sv_world (set_conn i c ph s)) = sv_world (set_conn i c ph s)"
    using sections_okD(1) [OF assms(1)] assms(2) i by (simp add: section_at_set split: if_splits)
next
  fix j k ob m m'
  assume "j \<noteq> k" "section_at objs r (set_conn i c ph s) j = Some (ob, m)"
    "section_at objs r (set_conn i c ph s) k = Some (ob, m')"
  then show "compatible m m'"
    using sections_okD(2) [OF assms(1)] assms(2) i by (simp add: section_at_set split: if_splits)
qed

lemma sections_accept:
  assumes "sections_ok objs r s"
  shows "sections_ok objs r (s\<lparr>sv_conns := sv_conns s @ [(c, Receiving)]\<rparr>)" (is "sections_ok _ _ ?s")
proof -
  have at: "phase_at ?s i = (if i = length (sv_conns s) then Receiving else phase_at s i)" for i
    by (simp add: phase_at_def nth_append)
  then have "section_at objs r ?s i = section_at objs r s i" for i
    by (simp add: section_at_def phase_at_def)
  note sec = this
  show ?thesis
  proof (rule sections_okI)
    fix j q v ob m
    assume "phase_at ?s j = Inside q v" "section_at objs r ?s j = Some (ob, m)" "m \<noteq> Unlocked"
    then show "ob_put objs ob v (sv_world ?s) = sv_world ?s"
      using sections_okD(1) [OF assms] sec by (simp add: at split: if_splits)
  next
    fix j k ob m m'
    assume "j \<noteq> k" "section_at objs r ?s j = Some (ob, m)" "section_at objs r ?s k = Some (ob, m')"
    then show "compatible m m'" unfolding sec by (rule sections_okD(2) [OF assms])
  qed
qed

text \<open>
  The contract of objects behind locks: each has a part of the state of its own, its handler
  depends on that part and changes no other, only a call with the lock for writing changes it,
  and a call without the lock does not depend on it.
\<close>

locale locked_objects =
  fixes objs :: "('o, 'w) objects"
  assumes put_same: "ob_put objs ob w w = w"
    and put_other: "ob \<noteq> ob' \<Longrightarrow>
      ob_put objs ob v (ob_put objs ob' v' w) = ob_put objs ob' v' (ob_put objs ob v w)"
    and handle_part: "ob_put objs ob v w = w \<Longrightarrow> ob_handle objs ob v s p d = (res, v') \<Longrightarrow>
      ob_handle objs ob w s p d = (res, ob_put objs ob v' w)"
    and handle_reader: "ob_lock objs ob s p d \<noteq> Locked \<Longrightarrow> snd (ob_handle objs ob w s p d) = w"
    and handle_unlocked: "ob_lock objs ob s p d = Unlocked \<Longrightarrow>
      fst (ob_handle objs ob v s p d) = fst (ob_handle objs ob w s p d)"
begin

lemma sections_enter:
  assumes "sections_ok objs r s" and "request_call r q = Some (ob, svc, p, d)"
    and "lock_free objs r (sv_conns s) ob (ob_lock objs ob svc p d)" and i: "i < length (sv_conns s)"
  shows "sections_ok objs r (set_conn i c (Inside q (sv_world s)) s)" (is "sections_ok _ _ ?s")
proof -
  let ?m = "ob_lock objs ob svc p d"
  have sec: "section_of objs r (Inside q (sv_world s)) = Some (ob, ?m)"
    using assms(2) by (simp add: section_of_def)
  have free: "compatible m' ?m" if "section_at objs r s j = Some (ob, m')" for j m'
  proof (cases "j < length (sv_conns s)")
    case True
    then show ?thesis
      using assms(3) that by (auto simp: lock_free_def list_all_length section_at_def phase_at_def
          case_prod_beta split: option.splits)
  qed (use that in \<open>simp add: section_at_def phase_at_def\<close>)
  show ?thesis
  proof (rule sections_okI)
    fix j q' v ob' m
    assume "phase_at ?s j = Inside q' v" "section_at objs r ?s j = Some (ob', m)" "m \<noteq> Unlocked"
    then show "ob_put objs ob' v (sv_world ?s) = sv_world ?s"
      using sections_okD(1) [OF assms(1)] put_same i by (simp add: section_at_set split: if_splits)
  next
    fix j k ob' m m'
    assume "j \<noteq> k" "section_at objs r ?s j = Some (ob', m)" "section_at objs r ?s k = Some (ob', m')"
    then consider "j \<noteq> i" "k \<noteq> i" "section_at objs r s j = Some (ob', m)" "section_at objs r s k = Some (ob', m')"
      | "j = i" "ob' = ob" "m = ?m" "section_at objs r s k = Some (ob, m')"
      | "k = i" "ob' = ob" "m' = ?m" "section_at objs r s j = Some (ob, m)"
      using sec i by (auto simp: section_at_set split: if_splits)
    then show "compatible m m'"
      by cases (use \<open>j \<noteq> k\<close> sections_okD(2) [OF assms(1)] free compatible_sym in blast)+
  qed
qed

lemma sections_leave:
  assumes "sections_ok objs r s" and at: "conn_at s i c (Inside q v)"
    and "request_call r q = Some (ob, svc, p, d)" and "section_of objs r ph = None"
  shows "sections_ok objs r (set_conn i c ph (s\<lparr>sv_world :=
    (if ob_lock objs ob svc p d = Locked then ob_put objs ob v' (sv_world s) else sv_world s)\<rparr>))"
    (is "sections_ok _ _ ?s")
proof -
  have i: "i < length (sv_conns s)" and ph: "phase_at s i = Inside q v"
    using conn_at_phase [OF at] by simp_all
  then have sec: "section_at objs r s i = Some (ob, ob_lock objs ob svc p d)"
    using assms(3) by (simp add: section_at_def section_of_def)
  have at': "section_at objs r ?s j = (if j = i then None else section_at objs r s j)"
    "phase_at ?s j = (if j = i then ph else phase_at s j)" for j
    using i assms(4) by (simp_all add: section_at_def)
  show ?thesis
  proof (rule sections_okI)
    fix j q' u ob' m
    assume j: "phase_at ?s j = Inside q' u" "section_at objs r ?s j = Some (ob', m)" "m \<noteq> Unlocked"
    then have ne: "j \<noteq> i" and old: "phase_at s j = Inside q' u" "section_at objs r s j = Some (ob', m)"
      by (auto simp: at' split: if_splits)
    have part: "ob_put objs ob' u (sv_world s) = sv_world s"
      by (rule sections_okD(1) [OF assms(1) old j(3)])
    have "ob' \<noteq> ob" if "ob_lock objs ob svc p d = Locked"
      using sections_okD(2) [OF assms(1) ne old(2)] sec that j(3) by (cases m) auto
    then show "ob_put objs ob' u (sv_world ?s) = sv_world ?s"
      using part by (simp add: put_other)
  next
    fix j k ob' m m'
    assume "j \<noteq> k" "section_at objs r ?s j = Some (ob', m)" "section_at objs r ?s k = Some (ob', m')"
    then show "compatible m m'"
      using sections_okD(2) [OF assms(1)] by (simp add: at' split: if_splits)
  qed
qed

text \<open>What a goroutine computes in its section is what the handler does to the objects then.\<close>

lemma section_atomic:
  assumes "sections_ok objs r s" and at: "conn_at s i c (Inside q v)"
    and call: "request_call r q = Some (ob, svc, p, d)"
    and res: "ob_handle objs ob v svc p d = (res, v')"
  shows "ob_handle objs ob (sv_world s) svc p d = (res,
    (if ob_lock objs ob svc p d = Locked then ob_put objs ob v' (sv_world s) else sv_world s))"
proof -
  have ph: "phase_at s i = Inside q v" using conn_at_phase [OF at] by simp
  then have sec: "section_at objs r s i = Some (ob, ob_lock objs ob svc p d)"
    using call by (simp add: section_at_def section_of_def)
  show ?thesis
  proof (cases "ob_lock objs ob svc p d")
    case Unlocked
    then show ?thesis
      using handle_unlocked [OF Unlocked, of v "sv_world s"] handle_reader [of ob svc p d "sv_world s"] res
      by (simp add: prod_eq_iff)
  next
    case RLocked
    have "ob_put objs ob v (sv_world s) = sv_world s"
      by (rule sections_okD(1) [OF assms(1) ph sec]) (simp add: RLocked)
    then show ?thesis
      using handle_part [OF _ res, of "sv_world s"] handle_reader [of ob svc p d "sv_world s"] RLocked
      by (simp add: prod_eq_iff)
  next
    case Locked
    have "ob_put objs ob v (sv_world s) = sv_world s"
      by (rule sections_okD(1) [OF assms(1) ph sec]) (simp add: Locked)
    then show ?thesis using handle_part [OF _ res, of "sv_world s"] Locked by simp
  qed
qed

lemma goroutine_in_order:
  assumes "srv_step objs srv s (Goroutine i) s'"
    and ho: "handled_in_order (ob_handle objs) (sr_router srv) w pss order s"
    and ok: "\<forall>ps \<in> set pss. requests_ok ps" and "sections_ok objs (sr_router srv) s"
  shows "\<exists>order'. handled_in_order (ob_handle objs) (sr_router srv) w pss order' s'"
  using assms(1)
proof cases
  case (received c q c')
  then show ?thesis using received_in_order [OF ho _ _ ok] by blast
next
  case (returned c r c')
  then show ?thesis using returned_in_order [OF ho _ _ _ ok] by blast
next
  case (entered c q ob service path data)
  have "handled_in_order (ob_handle objs) (sr_router srv) w pss order (set_conn i c (Inside q (sv_world s)) s)"
    using same_order [OF ho progress_at(1) [OF ho entered(2)]] progress_at(2) [OF ho entered(2)]
    by (simp add: conn_progress_def)
  then show ?thesis using entered(1) by blast
next
  case (responded c command session context' data session' status respData c')
  then show ?thesis using responded_in_order [OF ho responded(2,3)] by blast
next
  case (broken c command session context' data session' status respData e c')
  then show ?thesis using responded_in_order [OF ho broken(2,3)] by blast
next
  case (no_call c q)
  obtain k where k: "k < length (pss ! i)" "requests_of order i = take k (pss ! i)" "tc_room c = None"
      "tc_out c = concat (map packet_bytes (replies_to (ob_handle objs) (sr_router srv) w order i))"
      "tc_in c = concat (map packet_bytes (drop (Suc k) (pss ! i)))" "\<not> tc_closed c"
    and q: "q = packet_request (pss ! i ! k)"
    using progress_at(2) [OF ho no_call(2)] by (auto simp: conn_progress_def)
  have "server_reply (ob_handle objs) (sr_router srv) (sv_world s) (pss ! i ! k) =
      (answer_packet (packet_request (pss ! i ! k)) (request_answer (sr_router srv) q (Inl EOF)), sv_world s)"
    using server_command_call(1) [of "sr_router srv"] no_call(3)
    by (intro answer_is_reply) (simp add: q request_call_def request_answer_def packet_request_def)
  from handle_in_order [OF ho progress_at(1) [OF ho no_call(2)] k this] show ?thesis
    using no_call(1) q by auto
next
  case (left c q v ob service path data res v')
  obtain k where k: "k < length (pss ! i)" "requests_of order i = take k (pss ! i)" "tc_room c = None"
      "tc_out c = concat (map packet_bytes (replies_to (ob_handle objs) (sr_router srv) w order i))"
      "tc_in c = concat (map packet_bytes (drop (Suc k) (pss ! i)))" "\<not> tc_closed c"
    and q: "q = packet_request (pss ! i ! k)"
    using progress_at(2) [OF ho left(2)] by (auto simp: conn_progress_def)
  define w' where "w' = (if ob_lock objs ob service path data = Locked
      then ob_put objs ob v' (sv_world s) else sv_world s)"
  have h: "ob_handle objs ob (sv_world s) service path data = (res, w')"
    unfolding w'_def by (rule section_atomic [OF assms(4) left(2,3,4)])
  have "server_call (sr_router srv) (eh_command (fst (pss ! i ! k))) (snd (pss ! i ! k)) =
      Some (ob, service, path, data)"
    using left(3) by (simp add: q request_call_def packet_request_def)
  note answer = server_command_call(2) [OF this, of "ob_handle objs" "sv_world s" "eh_session (fst (pss ! i ! k))"]
  have "server_reply (ob_handle objs) (sr_router srv) (sv_world s) (pss ! i ! k) =
      (answer_packet (packet_request (pss ! i ! k)) (request_answer (sr_router srv) q res), w')"
    using answer unfolding h fst_conv snd_conv
    by (intro answer_is_reply) (simp add: q request_answer_def packet_request_def)
  from handle_in_order [OF ho progress_at(1) [OF ho left(2)] k this] show ?thesis
    using left(1) by (auto simp: q w'_def)
qed

lemma sections_step:
  assumes "srv_step objs srv s a s'" and sec: "sections_ok objs (sr_router srv) s"
  shows "sections_ok objs (sr_router srv) s'"
  using assms(1)
proof cases
  case (accepted c)
  then show ?thesis using sections_accept [OF sec] by simp
next
  case (entered i c q ob service path data)
  then show ?thesis using sections_enter [OF sec] conn_at_phase by blast
next
  case (left i c q v ob service path data res v')
  then show ?thesis using sections_leave [OF sec left(3,4)] by simp
qed (use sec sections_no_section [OF sec] conn_at_phase in \<open>auto dest!: conn_at_phase\<close>)

lemma run_in_order:
  assumes "srv_run objs srv s as s'"
    and "handled_in_order (ob_handle objs) (sr_router srv) w pss order s"
    and "sections_ok objs (sr_router srv) s"
    and "\<forall>ps \<in> set (pss @ qss). requests_ok ps" and "accepted_conns as = map conn_with qss"
  shows "\<exists>order. handled_in_order (ob_handle objs) (sr_router srv) w (pss @ qss) order s'"
  using assms
proof (induction arbitrary: pss order qss rule: runs.induct)
  case (Nil s)
  then show ?case by auto
next
  case (Cons s a s' as s'')
  have sec: "sections_ok objs (sr_router srv) s'" by (rule sections_step [OF Cons(1) Cons.prems(2)])
  show ?case
  proof (cases a)
    case (Accepted c)
    then obtain ps rest where qss: "qss = ps # rest" and c: "c = conn_with ps"
      using Cons.prems(4) by auto
    have "s' = s\<lparr>sv_conns := sv_conns s @ [(c, Receiving)]\<rparr>"
      using Cons(1) Accepted by (auto elim: srv_step.cases)
    then have "handled_in_order (ob_handle objs) (sr_router srv) w (pss @ [ps]) order s'"
      using accept_in_order [OF Cons.prems(1), of ps] c by simp
    from Cons.IH [OF this sec, of rest] Cons.prems(3, 4) show ?thesis
      by (simp add: qss Accepted)
  next
    case AcceptFailed
    then have "s' = s" using Cons(1) by (auto elim: srv_step.cases)
    then show ?thesis using Cons.IH [of pss order qss] Cons.prems AcceptFailed by simp
  next
    case (Goroutine i)
    then obtain order' where "handled_in_order (ob_handle objs) (sr_router srv) w pss order' s'"
      using goroutine_in_order [of srv s i s' w pss order] Cons(1) Cons.prems by auto
    then show ?thesis using Cons.IH [of pss order' qss] sec Cons.prems Goroutine by simp
  qed
qed

end

section \<open>The objects of the adapter\<close>

text \<open>
  The calls of the assembly object that take its lock: those that reach \<open>GetAttributeSingle\<close> and
  \<open>SetAttributeSingle\<close>; of the connection manager, a Forward_Open whose request can be read.
\<close>

definition assembly_lock :: "u8 \<Rightarrow> cip_path \<Rightarrow> lock_mode" where
  "assembly_lock service path =
     (case parse_instance path of
        Inl _ \<Rightarrow> Unlocked
      | Inr (_, remainingPath) \<Rightarrow>
          (case parse_attribute remainingPath of
             Inl _ \<Rightarrow> Unlocked
           | Inr attrID \<Rightarrow>
               if attrID = 0 then Unlocked
               else if service = ServiceGetAttributeSingle then RLocked
               else if service = ServiceSetAttributeSingle then Locked
               else Unlocked))"

definition connmgr_lock :: "u8 \<Rightarrow> bytes \<Rightarrow> lock_mode" where
  "connmgr_lock service data =
     (if service = ServiceForwardOpen \<and> (\<exists>r. forward_open_read read_u16 data = Inr r) \<or>
         service = ServiceLargeForwardOpen \<and> (\<exists>r. forward_open_read read_u32 data = Inr r)
      then Locked else Unlocked)"

definition device_put :: "object_ref \<Rightarrow> device_state \<Rightarrow> device_state \<Rightarrow> device_state" where
  "device_put ob v w =
     (case ob of
        AssemblyRef \<Rightarrow> w\<lparr>dv_assembly := dv_assembly v\<rparr>
      | ConnmgrRef \<Rightarrow> w\<lparr>dv_connmgr := dv_connmgr v\<rparr>)"

definition device_objects :: "(object_ref, device_state) objects" where
  "device_objects =
     \<lparr>ob_handle = device_handle, ob_put = device_put,
      ob_lock = (\<lambda>ob service path data. case ob of
         AssemblyRef \<Rightarrow> assembly_lock service path
       | ConnmgrRef \<Rightarrow> connmgr_lock service data)\<rparr>"

lemma assembly_lock_handle:
  "assembly_lock s p \<noteq> Locked \<Longrightarrow> snd (assembly_handle ao s p d) = ao"
  "assembly_lock s p = Unlocked \<Longrightarrow> fst (assembly_handle ao s p d) = fst (assembly_handle ao' s p d)"
  by (auto simp: assembly_lock_def assembly_handle_def split: sum.splits if_splits prod.splits)

lemma connmgr_lock_handle:
  "connmgr_lock s d \<noteq> Locked \<Longrightarrow> snd (connmgr_handle cm s p d) = cm"
  "connmgr_lock s d = Unlocked \<Longrightarrow> fst (connmgr_handle cm s p d) = fst (connmgr_handle cm' s p d)"
  by (auto simp: connmgr_lock_def connmgr_handle_def handle_forward_open_def
      handle_large_forward_open_def handle_forward_close_def split: sum.splits if_splits prod.splits)

interpretation adapter_objs: locked_objects device_objects
proof unfold_locales
  fix ob ob' v v' w s p d res
  show "ob_put device_objects ob w w = w"
    by (cases ob) (simp_all add: device_objects_def device_put_def)
  show "ob_put device_objects ob v (ob_put device_objects ob' v' w) =
      ob_put device_objects ob' v' (ob_put device_objects ob v w)" if "ob \<noteq> ob'"
    using that by (cases ob; cases ob') (simp_all add: device_objects_def device_put_def)
  show "ob_handle device_objects ob w s p d = (res, ob_put device_objects ob v' w)"
    if "ob_put device_objects ob v w = w" "ob_handle device_objects ob v s p d = (res, v')"
  proof (cases ob)
    case AssemblyRef
    then have "dv_assembly v = dv_assembly w"
      using that(1) by (simp add: device_objects_def device_put_def) (metis device_state.ext_inject device_state.surjective device_state.update_convs(1))
    then show ?thesis
      using that(2) AssemblyRef by (auto simp: device_objects_def device_put_def device_handle_unfold)
  next
    case ConnmgrRef
    then have "dv_connmgr v = dv_connmgr w"
      using that(1) by (simp add: device_objects_def device_put_def) (metis device_state.ext_inject device_state.surjective device_state.update_convs(2))
    then show ?thesis
      using that(2) ConnmgrRef by (auto simp: device_objects_def device_put_def device_handle_unfold)
  qed
  show "snd (ob_handle device_objects ob w s p d) = w" if "ob_lock device_objects ob s p d \<noteq> Locked"
    using that by (cases ob) (simp_all add: device_objects_def device_handle_unfold assembly_lock_handle connmgr_lock_handle)
  show "fst (ob_handle device_objects ob v s p d) = fst (ob_handle device_objects ob w s p d)"
    if "ob_lock device_objects ob s p d = Unlocked"
    using that by (cases ob) (simp_all add: device_objects_def device_handle_unfold
        assembly_lock_handle(2) [of s p "dv_assembly v" d "dv_assembly w"]
        connmgr_lock_handle(2) [of s d "dv_connmgr v" p "dv_connmgr w"])
qed

lemma server_start_state: "server_start listen address w = Inr s \<Longrightarrow> s = \<lparr>sv_world = w, sv_conns = []\<rparr>"
  by (simp add: server_start_def split: option.splits)

lemma start_in_order:
  assumes "server_start listen address w = Inr s"
  shows "handled_in_order h router w [] [] s" and "sections_ok objs r s"
  by (simp_all add: server_start_state [OF assms] handled_in_order_def sections_ok_def section_at_def phase_at_def)

text \<open>
  The objects of the adapter keep their invariant at every step, and so does what a goroutine
  has read of them.
\<close>

definition serving_inv :: "(address \<Rightarrow> nat) \<Rightarrow> device_state serving \<Rightarrow> bool" where
  "serving_inv sizes s \<longleftrightarrow> device_inv sizes (sv_world s) \<and>
     (\<forall>i q v. phase_at s i = Inside q v \<longrightarrow> device_inv sizes v)"

lemma serving_invD:
  "serving_inv sizes s \<Longrightarrow> device_inv sizes (sv_world s)"
  "serving_inv sizes s \<Longrightarrow> conn_at s i c (Inside q v) \<Longrightarrow> device_inv sizes v"
  using conn_at_phase unfolding serving_inv_def by metis+

lemma serving_inv_set:
  assumes "serving_inv sizes s" and "device_inv sizes w" and "\<And>q v. ph = Inside q v \<Longrightarrow> device_inv sizes v"
    and "conn_at s i c0 ph0"
  shows "serving_inv sizes (set_conn i c ph (s\<lparr>sv_world := w\<rparr>))"
proof -
  have "phase_at (set_conn i c ph (s\<lparr>sv_world := w\<rparr>)) j = (if j = i then ph else phase_at s j)" for j
    using conn_at_phase [OF assms(4)] by simp
  with assms(1-3) show ?thesis unfolding serving_inv_def set_conn_sel by simp
qed

lemma device_put_inv: "device_inv sizes v \<Longrightarrow> device_inv sizes w \<Longrightarrow> device_inv sizes (device_put ob v w)"
  by (cases ob) (simp_all add: device_inv_def device_put_def)

lemma serving_step_inv:
  assumes "srv_step device_objects srv s a s'" and inv: "serving_inv sizes s"
  shows "serving_inv sizes s'"
proof -
  have w: "device_inv sizes (sv_world s)" by (rule serving_invD(1) [OF inv])
  have same: "serving_inv sizes (set_conn i c ph s)"
    if "conn_at s i c0 ph0" "\<And>q v. ph = Inside q v \<Longrightarrow> v = sv_world s" for i c c0 ph ph0
    using serving_inv_set [OF inv w _ that(1), where ph = ph and c = c, simplified] that(2) w by metis
  from assms(1) show ?thesis
  proof cases
    case (accepted c)
    have "phase_at s' j = (if j = length (sv_conns s) then Receiving else phase_at s j)" for j
      by (simp add: accepted(2) phase_at_def nth_append)
    then show ?thesis using inv w accepted(2) by (simp add: serving_inv_def)
  next
    case failed
    then show ?thesis using inv by simp
  next
    case (left i c q v ob service path data res v')
    have "device_inv sizes v" by (rule serving_invD(2) [OF inv left(3)])
    then have "device_inv sizes v'"
      using device.obj_inv left(5) by (simp add: device_objects_def)
    then show ?thesis
      unfolding left(2) using w
      by (intro serving_inv_set [OF inv _ _ left(3)]) (simp_all add: device_objects_def device_put_inv)
  next
    case (received i c q c')
    show ?thesis unfolding received(2) by (rule same [OF received(3)]) simp
  next
    case (returned i c r c')
    show ?thesis unfolding returned(2) by (rule same [OF returned(3)]) simp
  next
    case (no_call i c q)
    show ?thesis unfolding no_call(2) by (rule same [OF no_call(3)]) simp
  next
    case (entered i c q ob service path data)
    show ?thesis unfolding entered(2) by (rule same [OF entered(3)]) simp
  next
    case (responded i c command session context' data session' status respData c')
    show ?thesis unfolding responded(2) by (rule same [OF responded(3)]) simp
  next
    case (broken i c command session context' data session' status respData e c')
    show ?thesis unfolding broken(2) by (rule same [OF broken(3)]) simp
  qed
qed

interpretation srv: step_invariant "srv_step device_objects srv" "serving_inv sizes" "\<lambda>_. True" for srv sizes
  by unfold_locales (auto intro: serving_step_inv)

section \<open>Properties\<close>

text \<open>
  C3: the adapter's server serves its connections at once.  A goroutine receives a packet, decodes
  it, takes the lock of the object it calls and reads what it needs, releases it with what it
  changed, and writes the response, and between any two of these steps any other goroutine may
  do some of its own.  After any number of steps in any order, the server has done what it would
  do for the requests one after another in some order: the objects are in the state that order
  leaves, and every connection has handled a first part of its packets, in their order, and has
  been written exactly the replies they have in it, apart from the one it is still to write; a
  connection ends only after all its packets.
\<close>

theorem server_serializable:
  assumes "server_start listen address dv = Inr s"
    and "srv_run device_objects (new_server router) s as s'"
    and "\<forall>ps \<in> set pss. requests_ok ps" and "accepted_conns as = map conn_with pss"
  shows "\<exists>order. sv_world s' = snd (server_replies device_handle router dv (map snd order)) \<and>
    length (sv_conns s') = length pss \<and>
    (\<forall>i < length pss. \<exists>k c ph. sv_conns s' ! i = (c, ph) \<and> requests_of order i = take k (pss ! i) \<and>
       tc_out c @ unwritten ph = concat (map packet_bytes (replies_to device_handle router dv order i)) \<and>
       (tc_closed c \<longrightarrow> ph = Finished) \<and> (ph = Finished \<longrightarrow> k = length (pss ! i)))"
proof -
  have h: "ob_handle device_objects = device_handle" by (simp add: device_objects_def)
  obtain order where o: "handled_in_order device_handle router dv pss order s'"
    using adapter_objs.run_in_order [OF assms(2), unfolded h, OF start_in_order [OF assms(1)], of pss]
      assms(3, 4) by (auto simp: new_server_def)
  have "\<exists>k c ph. sv_conns s' ! i = (c, ph) \<and> requests_of order i = take k (pss ! i) \<and>
       tc_out c @ unwritten ph = concat (map packet_bytes (replies_to device_handle router dv order i)) \<and>
       (tc_closed c \<longrightarrow> ph = Finished) \<and> (ph = Finished \<longrightarrow> k = length (pss ! i))"
    if i: "i < length pss" for i
  proof -
    obtain c ph where c: "sv_conns s' ! i = (c, ph)" by (cases "sv_conns s' ! i")
    then have "conn_progress device_handle router dv (pss ! i) order i c ph"
      using o i by (simp add: handled_in_order_def)
    then show ?thesis unfolding conn_progress_def using c by (cases ph) auto
  qed
  with o show ?thesis by (intro exI [of _ order]) (simp add: handled_in_order_def)
qed


theorem server_serializable_witness:
  fixes reg :: packet
  defines "reg \<equiv> (\<lparr>eh_command = CommandRegisterSession, eh_length = 4, eh_session = 0,
      eh_status = 0, eh_context = [1, 2, 3, 4, 5, 6, 7, 8], eh_options = 0\<rparr>, [1, 0, 0, 0])"
  shows "\<exists>s' (order :: (nat \<times> packet) list). srv_run device_objects (new_server adapter_router)
      \<lparr>sv_world = adapter_device [] [], sv_conns = []\<rparr>
      [Accepted (conn_with [reg]), AcceptFailed, Accepted (conn_with [reg]), Goroutine 1, Goroutine 0,
       Goroutine 1] s' \<and>
    length (sv_conns s') = 2 \<and>
    sv_world s' = snd (server_replies device_handle adapter_router (adapter_device [] []) (map snd order))"
proof -
  let ?srv = "new_server adapter_router" and ?dv = "adapter_device [] []" and ?c = "conn_with [reg]"
  let ?q = "packet_request reg" and ?d = "(conn_with [reg])\<lparr>tc_in := []\<rparr>"
  let ?s = "\<lambda>cs. \<lparr>sv_world = ?dv, sv_conns = cs\<rparr>"
  have ok: "requests_ok [reg]" by (simp add: reg_def packet_ok_def wf_header_def)
  have recv: "server_receive ?c = (Some ?q, ?d)"
    using receive_packets [OF ok, of ?c 0] by (simp add: conn_with_def)
  have cmd: "fst ?q \<noteq> CommandUnregisterSession" using ok by (simp add: packet_request_def)
  have call: "request_call (sr_router ?srv) ?q = None"
    by (simp add: request_call_def packet_request_def server_call_def server_command_def reg_def)
  have r1: "srv_step device_objects ?srv (?s [(?c, Receiving), (?c, Receiving)]) (Goroutine 1)
      (?s [(?c, Receiving), (?d, Dispatching ?q)])"
    using srv_step.received [OF _ recv cmd, of "?s [(?c, Receiving), (?c, Receiving)]" 1 device_objects ?srv]
    by (simp add: conn_at_def set_conn_def)
  have r0: "srv_step device_objects ?srv (?s [(?c, Receiving), (?d, Dispatching ?q)]) (Goroutine 0)
      (?s [(?d, Dispatching ?q), (?d, Dispatching ?q)])"
    using srv_step.received [OF _ recv cmd, of "?s [(?c, Receiving), (?d, Dispatching ?q)]" 0 device_objects ?srv]
    by (simp add: conn_at_def set_conn_def)
  obtain s' where n1: "srv_step device_objects ?srv (?s [(?d, Dispatching ?q), (?d, Dispatching ?q)])
      (Goroutine 1) s'"
    using srv_step.no_call [OF _ call, of "?s [(?d, Dispatching ?q), (?d, Dispatching ?q)]" 1 ?d device_objects]
    by (simp add: conn_at_def)
  have a: "srv_step device_objects ?srv (?s []) (Accepted ?c) (?s [(?c, Receiving)])"
      "srv_step device_objects ?srv (?s [(?c, Receiving)]) (Accepted ?c) (?s [(?c, Receiving), (?c, Receiving)])"
    using srv_step.accepted [of device_objects ?srv "?s []" ?c]
      srv_step.accepted [of device_objects ?srv "?s [(?c, Receiving)]" ?c] by simp_all
  have run: "srv_run device_objects ?srv (?s [])
      [Accepted ?c, AcceptFailed, Accepted ?c, Goroutine 1, Goroutine 0, Goroutine 1] s'"
    by (rule runs.Cons, rule a(1), rule runs.Cons, rule srv_step.failed, rule runs.Cons, rule a(2),
        rule runs.Cons, rule r1, rule runs.Cons, rule r0, rule runs.Cons, rule n1, rule runs.Nil)
  have start: "server_start (\<lambda>_. None) '':44818'' ?dv = Inr (?s [])"
    by (simp add: server_start_def)
  have oks: "\<forall>ps \<in> set [[reg], [reg]]. requests_ok ps" using ok by simp
  have acc: "accepted_conns [Accepted ?c, AcceptFailed, Accepted ?c, Goroutine 1, Goroutine 0, Goroutine 1] =
      map conn_with [[reg], [reg]]" by simp
  from server_serializable [OF start run oks acc] obtain order :: "(nat \<times> packet) list" where
    o: "sv_world s' = snd (server_replies device_handle adapter_router ?dv (map snd order))"
      "length (sv_conns s') = length [[reg], [reg]]" by (elim exE conjE) (erule that, assumption)
  have "length (sv_conns s') = 2" using o(2) by simp
  with run o(1) show ?thesis by (intro exI conjI)
qed

text \<open>
  C6: whatever bytes arrive on any number of connections to the adapter, in whatever interleaving
  the server handles them and wherever connections break, the assemblies keep their sizes and
  identifiers, and every connection of the connection manager is found under its own identifier.
\<close>

theorem concurrent_adapter_invariant:
  assumes "server_start listen address (adapter_device i out) = Inr s"
    and "srv_run device_objects (new_server adapter_router) s as s'"
  shows "(\<forall>a. length (as_heap (dv_assembly (sv_world s')) a) =
              length (as_heap (dv_assembly (adapter_device i out)) a)) \<and>
         (\<forall>n inst. as_instances (dv_assembly (sv_world s')) n = Some inst \<longrightarrow> ai_id inst = n) \<and>
         (\<forall>n c. cm_connections (dv_connmgr (sv_world s')) n = Some c \<longrightarrow> cn_to_id c = n)"
proof -
  have "serving_inv (adapter_sizes i out) s"
    using adapter_device_inv [of i out]
    by (simp add: server_start_state [OF assms(1)] serving_inv_def phase_at_def)
  then have "device_inv (adapter_sizes i out) (sv_world s')"
    using srv.run_inv [OF assms(2)] serving_invD(1) by blast
  then show ?thesis
    using adapter_device_inv [of i out]
    by (simp add: device_inv_def assembly_inv_def connmgr_inv_def)
qed

theorem concurrent_adapter_invariant_witness:
  "\<exists>s'. srv_run device_objects (new_server adapter_router)
      \<lparr>sv_world = adapter_device ''100=in.bin'' [], sv_conns = []\<rparr>
      [Accepted \<lparr>tc_in = [], tc_out = [], tc_room = Some 0, tc_closed = False\<rparr>, AcceptFailed] s' \<and>
    length (as_heap (dv_assembly (sv_world s')) 0) = 32"
proof -
  let ?c = "\<lparr>tc_in = [], tc_out = [], tc_room = Some 0, tc_closed = False\<rparr>"
  let ?s = "\<lparr>sv_world = adapter_device ''100=in.bin'' [], sv_conns = []\<rparr>"
  have run: "srv_run device_objects (new_server adapter_router) ?s [Accepted ?c, AcceptFailed]
      (?s\<lparr>sv_conns := [(?c, Receiving)]\<rparr>)"
    using srv_step.accepted [of device_objects "new_server adapter_router" ?s ?c]
    by (auto intro!: runs.intros srv_step.failed)
  have "server_start (\<lambda>_. None) '':44818'' (adapter_device ''100=in.bin'' []) = Inr ?s"
    by (simp add: server_start_def)
  from concurrent_adapter_invariant [OF this run] run show ?thesis
    by (intro exI [of _ "?s\<lparr>sv_conns := [(?c, Receiving)]\<rparr>"])
      (simp add: adapter_device_def adapter_option_def register_assembly_def new_assembly_object_def)
qed

end
