(* ===== verification/Adapter_Program.thy ===== *)
theory Adapter_Program
  imports Scanner Server_Steps
begin

text \<open>
  The whole program of \<open>cmd/adapter/main.go\<close>: a main function that creates the objects, starts the
  UDP runtime and the TCP server on them and waits for a signal, beside the goroutines these have
  started.  A main function is the list of its calls; what may happen in a program, connections
  added and ticks of a scheduler included, follows from the calls alone.
\<close>

section \<open>Programs\<close>

text \<open>
  The calls of the library a main function can make: a slice of n zero bytes at an address,
  registered as an assembly, the three that start goroutines, the connections of the runtime,
  a line of the log, and the wait for a signal.  The text of a start is that of its fatal error.
\<close>

datatype call =
    RegisterAssembly u32 address nat
  | StartRuntime string bytes
  | StartServer string bytes
  | StartScheduler
  | AddConnection conn_ref
  | RemoveConnection u32
  | Printf bytes
  | AwaitSignal

datatype routine = ListenLoop | WatchdogLoop | SchedulerLoop | AcceptLoop

text \<open>
  A program: the calls still to be made, what was logged, the exit code, the goroutines that were
  started, the runtime and the server with the objects.  The assembly object is one, shared by
  both: it is in the state of the server, and the runtime works on it there (\<open>runtime_view\<close>,
  \<open>put_runtime\<close>).  A runtime that was not started has no socket, and what is written to it is lost.
\<close>

record program =
  pg_calls :: "call list"
  pg_out :: outputs
  pg_exit :: "int option"
  pg_routines :: "routine set"
  pg_io :: io_system
  pg_tcp :: "device_state serving"

definition runtime_view :: "program \<Rightarrow> io_system" where
  "runtime_view s =
     (pg_io s)\<lparr>sy_rt := (sy_rt (pg_io s))\<lparr>rt_assemblies := dv_assembly (sv_world (pg_tcp s))\<rparr>\<rparr>"

definition put_runtime :: "io_system \<Rightarrow> program \<Rightarrow> program" where
  "put_runtime io s = s
     \<lparr>pg_io := (if ListenLoop \<in> pg_routines s then io
        else io\<lparr>sy_rt := (sy_rt io)\<lparr>rt_sent := rt_sent (sy_rt (pg_io s))\<rparr>\<rparr>),
      pg_tcp := (pg_tcp s)\<lparr>sv_world := (sv_world (pg_tcp s))\<lparr>dv_assembly := rt_assemblies (sy_rt io)\<rparr>\<rparr>\<rparr>"

text \<open>What the surroundings say: the texts of errors, the two networks.\<close>

record surroundings =
  su_error :: "go_error \<Rightarrow> bytes"
  su_udp :: udp_net
  su_listen :: "string \<Rightarrow> go_error option"

definition program_fatal :: "bytes \<Rightarrow> program \<Rightarrow> program" where
  "program_fatal msg s = s\<lparr>pg_calls := [], pg_out := pg_out s @ fatalf msg, pg_exit := Some 1\<rparr>"

definition register_data :: "u32 \<Rightarrow> address \<Rightarrow> nat \<Rightarrow> device_state \<Rightarrow> device_state" where
  "register_data n a k dv = dv\<lparr>dv_assembly := register_assembly
     ((dv_assembly dv)\<lparr>as_heap := (as_heap (dv_assembly dv))(a := replicate k 0)\<rparr>) n a\<rparr>"

text \<open>One call of main.\<close>

fun make_call :: "surroundings \<Rightarrow> call \<Rightarrow> program \<Rightarrow> program" where
  "make_call su (RegisterAssembly n a k) s =
     s\<lparr>pg_tcp := (pg_tcp s)\<lparr>sv_world := register_data n a k (sv_world (pg_tcp s))\<rparr>\<rparr>"
| "make_call su (StartRuntime address msg) s =
     (case runtime_start (su_udp su) address (sy_rt (pg_io s)) (sy_now (pg_io s)) of
        Inl e \<Rightarrow> program_fatal (msg @ su_error su e) s
      | Inr _ \<Rightarrow> s\<lparr>pg_routines := {ListenLoop, WatchdogLoop} \<union> pg_routines s\<rparr>)"
| "make_call su (StartServer address msg) s =
     (case server_start (su_listen su) address (sv_world (pg_tcp s)) of
        Inl e \<Rightarrow> program_fatal (msg @ su_error su e) s
      | Inr tcp \<Rightarrow> s\<lparr>pg_tcp := tcp, pg_routines := {AcceptLoop} \<union> pg_routines s\<rparr>)"
| "make_call su StartScheduler s = s\<lparr>pg_routines := {SchedulerLoop} \<union> pg_routines s\<rparr>"
| "make_call su (AddConnection ref) s =
     s\<lparr>pg_io := (pg_io s)\<lparr>sy_rt := add_connection (sy_now (pg_io s)) ref (sy_rt (pg_io s))\<rparr>\<rparr>"
| "make_call su (RemoveConnection cid) s =
     s\<lparr>pg_io := (pg_io s)\<lparr>sy_rt := remove_connection cid (sy_rt (pg_io s))\<rparr>\<rparr>"
| "make_call su (Printf msg) s = s\<lparr>pg_out := pg_out s @ log_printf msg\<rparr>"
| "make_call su AwaitSignal s = s"

text \<open>
  What the goroutines of the runtime do: \<open>listenLoop\<close> receives packets and handles each,
  \<open>watchdogLoop\<close> checks the timeouts, the scheduler's \<open>run\<close> serves ticks.
\<close>

fun routine_does :: "routine \<Rightarrow> action \<Rightarrow> bool" where
  "routine_does ListenLoop a = (case a of Receive _ _ \<Rightarrow> True | Touch \<Rightarrow> True | Deliver \<Rightarrow> True | _ \<Rightarrow> False)"
| "routine_does WatchdogLoop a = (a = Watchdog)"
| "routine_does SchedulerLoop a = (case a of TickStart _ \<Rightarrow> True | TickSend _ \<Rightarrow> True | _ \<Rightarrow> False)"
| "routine_does AcceptLoop a = False"

text \<open>A write to an assembly waits for the lock that requests of the server may hold.\<close>

definition assembly_free :: "program \<Rightarrow> bool" where
  "assembly_free s \<longleftrightarrow>
     lock_free device_objects adapter_router (sv_conns (pg_tcp s)) AssemblyRef Locked"

datatype program_action = Main | Signal | Tcp srv_action | Udp routine action | Time int

inductive program_step ::
  "surroundings \<Rightarrow> program \<Rightarrow> program_action \<Rightarrow> program \<Rightarrow> bool" for su where
  main: "pg_exit s = None \<Longrightarrow> pg_calls s = c # cs \<Longrightarrow> c \<noteq> AwaitSignal \<Longrightarrow>
    (\<forall>n a k. c = RegisterAssembly n a k \<longrightarrow> assembly_free s) \<Longrightarrow>
    program_step su s Main (make_call su c (s\<lparr>pg_calls := cs\<rparr>))"
| signal: "pg_exit s = None \<Longrightarrow> pg_calls s = AwaitSignal # cs \<Longrightarrow>
    program_step su s Signal (s\<lparr>pg_calls := cs\<rparr>)"
| returned: "pg_exit s = None \<Longrightarrow> pg_calls s = [] \<Longrightarrow>
    program_step su s Main (s\<lparr>pg_exit := Some 0\<rparr>)"
| tcp: "pg_exit s = None \<Longrightarrow> AcceptLoop \<in> pg_routines s \<Longrightarrow>
    srv_step device_objects (new_server adapter_router) (pg_tcp s) a tcp' \<Longrightarrow>
    program_step su s (Tcp a) (s\<lparr>pg_tcp := tcp'\<rparr>)"
| udp: "pg_exit s = None \<Longrightarrow> r \<in> pg_routines s \<Longrightarrow> routine_does r a \<Longrightarrow>
    (a = Deliver \<longrightarrow> assembly_free s) \<Longrightarrow> io_step (runtime_view s) a io' \<Longrightarrow>
    program_step su s (Udp r a) (put_runtime io' s)"
| time: "pg_exit s = None \<Longrightarrow> sy_now (pg_io s) \<le> now \<Longrightarrow>
    program_step su s (Time now) (s\<lparr>pg_io := (pg_io s)\<lparr>sy_now := now\<rparr>\<rparr>)"

abbreviation program_run :: "surroundings \<Rightarrow> program \<Rightarrow> program_action list \<Rightarrow> program \<Rightarrow> bool" where
  "program_run su \<equiv> runs (program_step su)"

fun tcp_actions :: "program_action list \<Rightarrow> srv_action list" where
  "tcp_actions [] = []"
| "tcp_actions (Tcp a # as) = a # tcp_actions as"
| "tcp_actions (_ # as) = tcp_actions as"

text \<open>A program before its first call: new objects, a new runtime on them; memory and time are given.\<close>

definition program_start :: "(conn_ref \<Rightarrow> io_connection) \<Rightarrow> int \<Rightarrow> call list \<Rightarrow> program" where
  "program_start store now calls =
     (let ao = new_assembly_object (\<lambda>_. []) in
      \<lparr>pg_calls = calls, pg_out = [], pg_exit = None, pg_routines = {},
       pg_io = start_system (new_runtime store ao) now,
       pg_tcp = \<lparr>sv_world = \<lparr>dv_assembly = ao, dv_connmgr = new_connection_manager\<rparr>, sv_conns = []\<rparr>\<rparr>)"

section \<open>The adapter\<close>

text \<open>
  One of the two options: the line of the log (for the input assembly only behind an equals sign),
  then the assembly.
\<close>

definition option_calls :: "string \<Rightarrow> bool \<Rightarrow> bytes \<Rightarrow> address \<Rightarrow> call list" where
  "option_calls opt logged kind a =
     (if opt = [] then []
      else
        let id = atoi (takeWhile (\<lambda>c. c \<noteq> CHR ''='') opt) in
          (if logged then [Printf (lit ''Registered '' @ kind @ lit '' Assembly '' @ dec_int id)] else []) @
          [RegisterAssembly (word_of_int id) a 32])"

definition adapter_calls :: "string \<Rightarrow> string \<Rightarrow> string \<Rightarrow> string \<Rightarrow> call list" where
  "adapter_calls addr udpAddr inputAssembly outputAssembly =
     option_calls inputAssembly (CHR ''='' \<in> set inputAssembly) (lit ''Input'') 0 @
     option_calls outputAssembly True (lit ''Output'') 1 @
     [StartRuntime udpAddr (lit ''Failed to start UDP runtime: ''),
      Printf (lit ''UDP Runtime listening on '' @ lit udpAddr),
      StartServer addr (lit ''Failed to start TCP server: ''),
      Printf (lit ''TCP Server listening on '' @ lit addr),
      AwaitSignal,
      Printf (lit ''Shutting down...'')]"

section \<open>Programs that add no connection and start no scheduler\<close>

text \<open>
  A runtime without connections has nothing to do: whatever one of its goroutines, the scheduler
  too, does in it leaves it so, and the assemblies as they are.
\<close>

definition idle_io :: "io_system \<Rightarrow> bool" where
  "idle_io s \<longleftrightarrow> rt_connections (sy_rt s) = Map.empty \<and>
     sy_listener s = Listening \<and> sy_pending s = []"

lemma idle_io_sel [simp]:
  "idle_io (s\<lparr>sy_rt := (sy_rt s)\<lparr>rt_assemblies := ao\<rparr>\<rparr>) = idle_io s"
  "idle_io (s\<lparr>sy_rt := (sy_rt s)\<lparr>rt_sent := ps\<rparr>\<rparr>) = idle_io s"
  "idle_io (s\<lparr>sy_now := n\<rparr>) = idle_io s"
  by (simp_all add: idle_io_def)

lemma idle_step:
  "io_step s a s' \<Longrightarrow> routine_does r a \<Longrightarrow> idle_io s \<Longrightarrow>
   idle_io s' \<and> rt_assemblies (sy_rt s') = rt_assemblies (sy_rt s)"
  by (induction rule: io_step.induct; cases r)
    (auto simp: idle_io_def check_timeouts_def tick_producers_def simp flip: fun_upd_def)

text \<open>Only the scheduler sends.\<close>

lemma silent_step:
  "io_step s a s' \<Longrightarrow> routine_does r a \<Longrightarrow> r \<noteq> SchedulerLoop \<Longrightarrow>
   rt_sent (sy_rt s') = rt_sent (sy_rt s)"
  by (induction rule: io_step.induct; cases r) auto

text \<open>No connection is added: the runtime stays without any.\<close>

definition no_connection :: "program \<Rightarrow> bool" where
  "no_connection s \<longleftrightarrow> (\<forall>ref. AddConnection ref \<notin> set (pg_calls s)) \<and> idle_io (pg_io s)"

lemma no_connection_call:
  "no_connection s \<Longrightarrow> pg_calls s = c # cs \<Longrightarrow> no_connection (make_call su c (s\<lparr>pg_calls := cs\<rparr>))"
  by (cases c) (auto simp: no_connection_def program_fatal_def idle_io_def remove_connection_def split: sum.split)

lemma no_connection_step:
  assumes "program_step su s a s'" and "no_connection s"
  shows "no_connection s'"
  using assms(1)
proof cases
  case (main c cs)
  then show ?thesis using no_connection_call [OF assms(2)] by simp
next
  case (udp r a io')
  have "idle_io (runtime_view s)" using assms(2) by (simp add: no_connection_def runtime_view_def)
  then have "idle_io io'" using idle_step [OF udp(7,5)] by simp
  then show ?thesis using assms(2) udp(2) by (simp add: no_connection_def put_runtime_def)
qed (use assms(2) in \<open>auto simp: no_connection_def\<close>)

text \<open>No scheduler is started: nothing is sent, whatever connections are added.\<close>

definition no_scheduler :: "program \<Rightarrow> bool" where
  "no_scheduler s \<longleftrightarrow> StartScheduler \<notin> set (pg_calls s) \<and> SchedulerLoop \<notin> pg_routines s \<and>
     rt_sent (sy_rt (pg_io s)) = []"

lemma no_scheduler_call:
  "no_scheduler s \<Longrightarrow> pg_calls s = c # cs \<Longrightarrow> no_scheduler (make_call su c (s\<lparr>pg_calls := cs\<rparr>))"
  by (cases c) (auto simp: no_scheduler_def program_fatal_def remove_connection_def split: sum.split)

lemma no_scheduler_step:
  assumes "program_step su s a s'" and "no_scheduler s"
  shows "no_scheduler s'"
  using assms(1)
proof cases
  case (main c cs)
  then show ?thesis using no_scheduler_call [OF assms(2)] by simp
next
  case (udp r a io')
  have "r \<noteq> SchedulerLoop" using udp(4) assms(2) by (auto simp: no_scheduler_def)
  then have "rt_sent (sy_rt io') = []"
    using silent_step [OF udp(7,5)] assms(2) by (simp add: no_scheduler_def runtime_view_def)
  then show ?thesis using assms(2) udp(2) by (simp add: no_scheduler_def put_runtime_def)
qed (use assms(2) in \<open>auto simp: no_scheduler_def\<close>)

interpretation prog: step_invariant "program_step su" "\<lambda>s. no_connection s \<and> no_scheduler s" "\<lambda>_. True" for su
  by unfold_locales (auto intro: no_connection_step no_scheduler_step)

section \<open>The server of a program\<close>

text \<open>
  The objects as they are when the server starts, for calls that register assemblies before that
  and neither register one nor start a server after it.
\<close>

fun quiet :: "call \<Rightarrow> bool" where
  "quiet (RegisterAssembly n a k) = False"
| "quiet (StartServer address msg) = False"
| "quiet _ = True"

fun world_at_start :: "call list \<Rightarrow> device_state \<Rightarrow> device_state option" where
  "world_at_start [] dv = None"
| "world_at_start (RegisterAssembly n a k # cs) dv = world_at_start cs (register_data n a k dv)"
| "world_at_start (StartServer address msg # cs) dv = (if list_all quiet cs then Some dv else None)"
| "world_at_start (_ # cs) dv = world_at_start cs dv"

text \<open>Once it serves, what the program does to the server is a run of the server alone.\<close>

lemma quiet_call:
  assumes "quiet c"
  shows "pg_tcp (make_call su c s) = pg_tcp s"
    and "AcceptLoop \<in> pg_routines (make_call su c s) \<longleftrightarrow> AcceptLoop \<in> pg_routines s"
    and "pg_calls (make_call su c s) = pg_calls s \<or> pg_calls (make_call su c s) = []"
  using assms by (cases c; auto simp: program_fatal_def split: sum.split)+

lemma udp_same_tcp:
  assumes "io_step (runtime_view s) a io'" and "routine_does r a" and "no_connection s"
  shows "pg_tcp (put_runtime io' s) = pg_tcp s"
proof -
  have "idle_io (runtime_view s)" using assms(3) by (simp add: no_connection_def runtime_view_def)
  then have "rt_assemblies (sy_rt io') = dv_assembly (sv_world (pg_tcp s))"
    using idle_step [OF assms(1,2)] by (simp add: runtime_view_def)
  then show ?thesis by (simp add: put_runtime_def)
qed

lemma served_alone:
  assumes "program_run su s as s'" and "no_connection s" and "list_all quiet (pg_calls s)"
  shows "srv_run device_objects (new_server adapter_router) (pg_tcp s) (tcp_actions as) (pg_tcp s')"
  using assms
proof (induction rule: runs.induct)
  case (Nil s)
  then show ?case by (simp add: runs.Nil)
next
  case (Cons s a s' as s'')
  have inv: "no_connection s'" by (rule no_connection_step [OF Cons(1) Cons.prems(1)])
  from Cons(1) show ?case
  proof cases
    case (main c cs)
    then have "list_all quiet (pg_calls s')" "pg_tcp s' = pg_tcp s"
      using Cons.prems(2) quiet_call(1,3) [of c su "s\<lparr>pg_calls := cs\<rparr>"] by auto
    then show ?thesis using Cons.IH [OF inv] main(1) by simp
  next
    case (tcp b tcp')
    then show ?thesis using Cons.IH [OF inv] Cons.prems(2) by (auto intro: runs.Cons)
  next
    case (udp r b io')
    have "pg_tcp s' = pg_tcp s"
      unfolding udp(2) by (rule udp_same_tcp [OF udp(7,5) Cons.prems(1)])
    then show ?thesis using Cons.IH [OF inv] Cons.prems(2) udp(1,2) by (simp add: put_runtime_def)
  qed (use Cons.IH [OF inv] Cons.prems(2) in auto)
qed

text \<open>Before that, nothing but its own calls changes what the program will serve.\<close>

definition will_serve :: "device_state \<Rightarrow> program \<Rightarrow> bool" where
  "will_serve dv s \<longleftrightarrow> AcceptLoop \<notin> pg_routines s \<and>
     (pg_exit s \<noteq> None \<or> world_at_start (pg_calls s) (sv_world (pg_tcp s)) = Some dv)"

lemma will_serve_call:
  assumes "will_serve dv s" and "pg_exit s = None" and "pg_calls s = c # cs"
  shows "will_serve dv (make_call su c (s\<lparr>pg_calls := cs\<rparr>)) \<or>
    pg_tcp (make_call su c (s\<lparr>pg_calls := cs\<rparr>)) = \<lparr>sv_world = dv, sv_conns = []\<rparr> \<and>
    list_all quiet (pg_calls (make_call su c (s\<lparr>pg_calls := cs\<rparr>)))"
  using assms
  by (cases c) (auto simp: will_serve_def program_fatal_def dest!: server_start_state
      split: sum.split if_splits)

lemma served_from_start:
  assumes "program_run su s as s'" and "no_connection s" and "will_serve dv s"
    and "AcceptLoop \<in> pg_routines s'"
  shows "srv_run device_objects (new_server adapter_router) \<lparr>sv_world = dv, sv_conns = []\<rparr>
    (tcp_actions as) (pg_tcp s')"
  using assms
proof (induction rule: runs.induct)
  case (Nil s)
  then show ?case by (simp add: will_serve_def)
next
  case (Cons s a s' as s'')
  have inv: "no_connection s'" by (rule no_connection_step [OF Cons(1) Cons.prems(1)])
  have later: ?case if "will_serve dv s'" "tcp_actions (a # as) = tcp_actions as"
    using Cons.IH [OF inv that(1) Cons.prems(3)] that(2) by simp
  from Cons(1) show ?case
  proof cases
    case (main c cs)
    then consider "will_serve dv s'"
      | "pg_tcp s' = \<lparr>sv_world = dv, sv_conns = []\<rparr>" "list_all quiet (pg_calls s')"
      using will_serve_call [OF Cons.prems(2) main(3,4)] by blast
    then show ?thesis
    proof cases
      case 1
      then show ?thesis using later main(1) by simp
    next
      case 2
      then show ?thesis using served_alone [OF Cons(2) inv] main(1) by simp
    qed
  next
    case (signal cs)
    then show ?thesis using later Cons.prems(2) by (simp add: will_serve_def)
  next
    case returned
    then show ?thesis using Cons.prems(2) by (simp add: will_serve_def)
  next
    case (tcp b tcp')
    then show ?thesis using Cons.prems(2) by (simp add: will_serve_def)
  next
    case (udp r b io')
    have "pg_tcp s' = pg_tcp s"
      unfolding udp(2) by (rule udp_same_tcp [OF udp(7,5) Cons.prems(1)])
    then show ?thesis
      using later Cons.prems(2) udp(1,2) by (simp add: will_serve_def put_runtime_def)
  next
    case (time now)
    then show ?thesis using later Cons.prems(2) by (simp add: will_serve_def)
  qed
qed

text \<open>The calls of the adapter: no connection, no scheduler, and the objects of \<open>adapter_device\<close>.\<close>

lemma adapter_start:
  "no_connection (program_start store now (adapter_calls addr udpAddr i out))"
  "no_scheduler (program_start store now (adapter_calls addr udpAddr i out))"
  "will_serve (adapter_device i out) (program_start store now (adapter_calls addr udpAddr i out))"
  by (auto simp: no_connection_def no_scheduler_def will_serve_def idle_io_def program_start_def
      start_system_def new_runtime_def adapter_calls_def option_calls_def Let_def
      split: if_splits)
    (simp_all add: adapter_device_def adapter_option_def register_data_def)

text \<open>A connection and a scheduler are what it takes: with these two calls after the start of the runtime a program sends.\<close>

lemma scheduled_program_sends:
  "\<exists>s. program_run \<lparr>su_error = \<lambda>_. [], su_udp = free_udp, su_listen = \<lambda>_. None\<rparr>
       (program_start (\<lambda>_. example_conn True 0) 5000 [StartRuntime '':2222'' [], AddConnection 0, StartScheduler])
       [Main, Main, Main, Udp SchedulerLoop (TickStart [7]), Udp SchedulerLoop (TickSend 5001)] s \<and>
     rt_sent (sy_rt (pg_io s)) \<noteq> []"
proof -
  let ?su = "\<lparr>su_error = \<lambda>_. [], su_udp = free_udp, su_listen = \<lambda>_. None\<rparr>"
  let ?p = "program_start (\<lambda>_. example_conn True 0) 5000 [StartRuntime '':2222'' [], AddConnection 0, StartScheduler]"
  define p0 where "p0 = make_call ?su (StartRuntime '':2222'' []) (?p\<lparr>pg_calls := [AddConnection 0, StartScheduler]\<rparr>)"
  define p1 where "p1 = make_call ?su (AddConnection 0) (p0\<lparr>pg_calls := [StartScheduler]\<rparr>)"
  define p2 where "p2 = make_call ?su StartScheduler (p1\<lparr>pg_calls := []\<rparr>)"
  note defs = p0_def program_start_def Let_def runtime_start_def free_udp_def
  have m0: "program_step ?su ?p Main p0"
    unfolding p0_def by (rule program_step.main) (simp_all add: program_start_def Let_def)
  have m1: "program_step ?su p0 Main p1"
    unfolding p1_def by (rule program_step.main) (simp_all add: defs)
  have m2: "program_step ?su p1 Main p2"
    unfolding p2_def by (rule program_step.main) (simp_all add: p1_def defs)
  let ?v = "runtime_view p2"
  have p2: "pg_exit p2 = None" "SchedulerLoop \<in> pg_routines p2" "ListenLoop \<in> pg_routines p2" "sy_pending ?v = []" "sy_now ?v = 5000"
      "rt_connections (sy_rt ?v) = [7 \<mapsto> 0]" "rt_sent (sy_rt ?v) = []"
      "rt_store (sy_rt ?v) 0 = (example_conn True 0)\<lparr>io_last_receive := 5000\<rparr>"
      "as_heap (rt_assemblies (sy_rt ?v)) = (\<lambda>_. [])"
    by (simp_all add: p2_def p1_def defs runtime_view_def start_system_def
        new_runtime_def add_connection_def new_assembly_object_def) (simp add: example_conn_def)
  define io1 where "io1 = ?v\<lparr>sy_pending := tick_producers [7] (sy_rt ?v)\<rparr>"
  have "io_step ?v (TickStart [7]) io1"
    unfolding io1_def by (rule io_step.tick_start) (simp_all add: p2)
  then have u1: "program_step ?su p2 (Udp SchedulerLoop (TickStart [7])) (put_runtime io1 p2)"
    by (intro program_step.udp) (simp_all add: p2)
  have view: "runtime_view (put_runtime io1 p2) = io1" by (simp add: runtime_view_def put_runtime_def p2)
  have io1: "sy_pending io1 = [0]" "sy_now io1 = 5000" "sy_rt io1 = sy_rt ?v"
    by (simp_all add: io1_def p2 tick_producers_def) (simp add: example_conn_def)
  have "length (due_data (rt_assemblies (sy_rt io1)) (rt_store (sy_rt io1) 0)) \<le> 2000"
    by (simp add: io1 p2 due_data_def example_conn_def)
  note due = tick_connection_due [OF this, of "(sy_now io1, 5001)"]
  have "due_packets (rt_assemblies (sy_rt io1)) (sy_now io1, 5001) (rt_store (sy_rt io1) 0) \<noteq> []"
    by (simp add: io1 p2 due_packets_def is_due_def time_sub_def example_conn_def)
  then obtain io2 where send: "io_step io1 (TickSend 5001) io2" and sent: "rt_sent (sy_rt io2) \<noteq> []"
    using io_step.tick_send [OF io1(1) due] by fastforce
  have "io_step (runtime_view (put_runtime io1 p2)) (TickSend 5001) io2"
    using send by (simp only: view)
  then have u2: "program_step ?su (put_runtime io1 p2) (Udp SchedulerLoop (TickSend 5001))
      (put_runtime io2 (put_runtime io1 p2))"
    by (intro program_step.udp) (simp_all add: p2 put_runtime_def)
  have "program_run ?su ?p [Main, Main, Main, Udp SchedulerLoop (TickStart [7]), Udp SchedulerLoop (TickSend 5001)]
      (put_runtime io2 (put_runtime io1 p2))"
    by (rule runs.Cons, rule m0, rule runs.Cons, rule m1, rule runs.Cons, rule m2, rule runs.Cons, rule u1,
        rule runs.Cons, rule u2, rule runs.Nil)
  then show ?thesis using sent by (intro exI conjI) (assumption, simp add: put_runtime_def p2)
qed

section \<open>Properties\<close>

text \<open>
  C16: the adapter takes no part in implicit messaging.  Its main function makes the calls it
  makes, and what may happen follows from them: in every interleaving of main and of the
  goroutines of its server and its runtime, whatever arrives by TCP and UDP and whichever start
  fails, the runtime sends nothing and keeps no connection, and the server, once it is started,
  runs as if there were no runtime: what it does to the objects and writes to its connections is
  a run of the server alone, from the objects of the two options.
\<close>

theorem adapter_io_idle:
  assumes "program_run su (program_start store now (adapter_calls addr udpAddr i out)) as s"
  shows "rt_sent (sy_rt (pg_io s)) = [] \<and> rt_connections (sy_rt (pg_io s)) = Map.empty \<and>
    (AcceptLoop \<in> pg_routines s \<longrightarrow>
       srv_run device_objects (new_server adapter_router)
         \<lparr>sv_world = adapter_device i out, sv_conns = []\<rparr> (tcp_actions as) (pg_tcp s))"
  using prog.run_inv [OF assms] adapter_start served_from_start [OF assms]
  by (simp add: no_connection_def no_scheduler_def idle_io_def)

text \<open>In the witness a packet arrives by UDP and a connection of the server fails.\<close>

definition free_surroundings :: surroundings where
  "free_surroundings = \<lparr>su_error = \<lambda>_. [], su_udp = free_udp, su_listen = \<lambda>_. None\<rparr>"

theorem adapter_io_idle_witness:
  "\<exists>s. program_run free_surroundings
       (program_start (\<lambda>_. example_conn True 0) 0 (adapter_calls '':44818'' '':2222'' ''100'' []))
       [Main, Main, Main, Main, Udp ListenLoop (Receive (io_packet 0x10000001 (replicate 32 1)) 46),
        Tcp AcceptFailed] s \<and>
     rt_sent (sy_rt (pg_io s)) = [] \<and> AcceptLoop \<in> pg_routines s"
proof -
  let ?b = "io_packet 0x10000001 (replicate 32 1)" and ?su = free_surroundings
  let ?s0 = "program_start (\<lambda>_. example_conn True 0) 0 (adapter_calls '':44818'' '':2222'' ''100'' [])"
  define call where "call = (\<lambda>s. make_call ?su (hd (pg_calls s)) (s\<lparr>pg_calls := tl (pg_calls s)\<rparr>))"
  define s4 where "s4 = call (call (call (call ?s0)))"
  have main: "program_step ?su s Main (call s)"
    if "pg_exit s = None" "pg_calls s \<noteq> []" "hd (pg_calls s) \<noteq> AwaitSignal" "sv_conns (pg_tcp s) = []" for s
    using program_step.main [of s "hd (pg_calls s)" "tl (pg_calls s)" ?su] that
    by (simp add: call_def assembly_free_def lock_free_def)
  note defs = call_def program_start_def adapter_calls_def option_calls_def runtime_start_def
    server_start_def free_surroundings_def free_udp_def Let_def start_system_def new_runtime_def
  have m1: "program_step ?su ?s0 Main (call ?s0)" by (rule main) (simp_all add: defs)
  have m2: "program_step ?su (call ?s0) Main (call (call ?s0))" by (rule main) (simp_all add: defs)
  have m3: "program_step ?su (call (call ?s0)) Main (call (call (call ?s0)))"
    by (rule main) (simp_all add: defs)
  have m4: "program_step ?su (call (call (call ?s0))) Main s4"
    unfolding s4_def by (rule main) (simp_all add: defs)
  have s4: "pg_exit s4 = None" "ListenLoop \<in> pg_routines s4" "AcceptLoop \<in> pg_routines s4"
    "rt_connections (sy_rt (pg_io s4)) = Map.empty" "sy_listener (pg_io s4) = Listening"
    by (simp_all add: s4_def defs)
  have "parse_packet ?b 46 = Return (Some (0x10000001, replicate 32 1))"
    using parse_packet_meaning [of ?b 46] packet_meaning_packet [of "replicate 32 1" "0x10000001"]
    by simp
  then have "io_step (runtime_view s4) (Receive ?b 46) (runtime_view s4)"
    by (rule io_step.drop [rotated]) (simp_all add: s4 runtime_view_def)
  then have udp: "program_step ?su s4 (Udp ListenLoop (Receive ?b 46)) (put_runtime (runtime_view s4) s4)"
    by (intro program_step.udp) (simp_all add: s4)
  have tcp: "program_step ?su (put_runtime (runtime_view s4) s4) (Tcp AcceptFailed)
      ((put_runtime (runtime_view s4) s4)\<lparr>pg_tcp := pg_tcp (put_runtime (runtime_view s4) s4)\<rparr>)"
    by (rule program_step.tcp) (simp_all add: s4 put_runtime_def srv_step.failed)
  let ?final = "(put_runtime (runtime_view s4) s4)\<lparr>pg_tcp := pg_tcp (put_runtime (runtime_view s4) s4)\<rparr>"
  have run: "program_run ?su ?s0 [Main, Main, Main, Main, Udp ListenLoop (Receive ?b 46), Tcp AcceptFailed] ?final"
    by (rule runs.Cons, rule m1, rule runs.Cons, rule m2, rule runs.Cons, rule m3, rule runs.Cons, rule m4,
        rule runs.Cons, rule udp, rule runs.Cons, rule tcp, rule runs.Nil)
  have "AcceptLoop \<in> pg_routines ?final" by (simp add: s4 put_runtime_def)
  then show ?thesis using adapter_io_idle [OF run] run by blast
qed

end
