(* ===== verification/Scheduler.thy ===== *)
theory Scheduler
  imports Io_Runtime Runs
begin

text \<open>
  The life of a scheduler, \<open>pkg/runtime/scheduler.go\<close>: \<open>Start\<close> starts a goroutine that runs the
  loop, \<open>Stop\<close> closes the channel that ends the loops.  In \<open>select\<close> a loop may take a tick even
  when the channel is closed; what a tick does is \<open>process_tick\<close>.
\<close>

record scheduler =
  sc_runtime :: runtime
  sc_stopped :: bool
  sc_loops :: nat

definition new_scheduler :: "runtime \<Rightarrow> scheduler" where
  "new_scheduler r = \<lparr>sc_runtime = r, sc_stopped = False, sc_loops = 0\<rparr>"

definition scheduler_start :: "scheduler \<Rightarrow> scheduler" where
  "scheduler_start s = s\<lparr>sc_loops := sc_loops s + 1\<rparr>"

definition scheduler_stop :: "scheduler \<Rightarrow> scheduler go" where
  "scheduler_stop s =
     (if sc_stopped s then Panic ''close of closed channel'' else Return (s\<lparr>sc_stopped := True\<rparr>))"

datatype scheduler_action = Start | Stop | Tick "nat \<Rightarrow> int \<times> int" "u32 list" | Quit

text \<open>\<open>run\<close> is the two steps of a loop, \<open>tick\<close> and \<open>quit\<close>.\<close>

inductive scheduler_step :: "scheduler \<Rightarrow> scheduler_action \<Rightarrow> scheduler \<Rightarrow> bool" where
  start: "scheduler_step s Start (scheduler_start s)"
| stop: "scheduler_stop s = Return s' \<Longrightarrow> scheduler_step s Stop s'"
| tick: "sc_loops s > 0 \<Longrightarrow> process_tick clock ids (sc_runtime s) = Return r \<Longrightarrow>
    scheduler_step s (Tick clock ids) (s\<lparr>sc_runtime := r\<rparr>)"
| quit: "sc_loops s > 0 \<Longrightarrow> sc_stopped s \<Longrightarrow> scheduler_step s Quit (s\<lparr>sc_loops := sc_loops s - 1\<rparr>)"

fun count_of :: "scheduler_action list \<Rightarrow> scheduler_action \<Rightarrow> nat" where
  "count_of [] b = 0"
| "count_of (a # as) b = (if a = b then 1 else 0) + count_of as b"

lemma loops_balance:
  "runs scheduler_step s as s' \<Longrightarrow>
   sc_loops s' + count_of as Quit = sc_loops s + count_of as Start"
proof (induction rule: runs.induct)
  case (Nil s)
  then show ?case by simp
next
  case (Cons s a s' as s'')
  from Cons(1) have "sc_loops s' + (if a = Quit then 1 else 0) =
      sc_loops s + (if a = Start then 1 else 0)"
    by cases (auto simp: scheduler_start_def scheduler_stop_def split: if_splits)
  then show ?case using Cons.IH by simp
qed

lemma stops_once:
  "runs scheduler_step s as s' \<Longrightarrow>
   count_of as Stop + (if sc_stopped s then 1 else 0) = (if sc_stopped s' then 1 else 0)"
proof (induction rule: runs.induct)
  case (Nil s)
  then show ?case by simp
next
  case (Cons s a s' as s'')
  from Cons(1) have "(if a = Stop then 1 else 0) + (if sc_stopped s then 1 else (0 :: nat)) =
      (if sc_stopped s' then 1 else 0)"
    by cases (auto simp: scheduler_start_def scheduler_stop_def split: if_splits)
  then show ?case using Cons.IH by simp
qed

text \<open>A scheduler without a loop does nothing until it is started.\<close>

lemma no_loop_idle:
  "runs scheduler_step s as s' \<Longrightarrow> sc_loops s = 0 \<Longrightarrow> Start \<notin> set as \<Longrightarrow>
   sc_runtime s' = sc_runtime s \<and> sc_loops s' = 0"
proof (induction rule: runs.induct)
  case (Nil s)
  then show ?case by simp
next
  case (Cons s a s' as s'')
  from Cons(1) Cons.prems have "sc_runtime s' = sc_runtime s \<and> sc_loops s' = 0"
    by cases (auto simp: scheduler_stop_def split: if_splits)
  then show ?case using Cons.IH Cons.prems by simp
qed

text \<open>
  A scheduler that was started n times and stopped ends: when its n loops have seen the closed
  channel, the runtime sends nothing more, and the scheduler can be stopped once only, a second
  \<open>Stop\<close> panics.
\<close>

theorem scheduler_stops_once:
  assumes "runs scheduler_step (new_scheduler r) as s" and "Stop \<in> set as"
    and "count_of as Quit = count_of as Start"
    and "runs scheduler_step s bs s'" and "Start \<notin> set bs"
  shows "sc_runtime s' = sc_runtime s \<and> scheduler_stop s' = Panic ''close of closed channel''"
proof -
  have "sc_loops s = 0"
    using loops_balance [OF assms(1)] assms(3) by (simp add: new_scheduler_def)
  moreover have "count_of as Stop > 0" using assms(2) by (induction as) auto
  then have "sc_stopped s" using stops_once [OF assms(1)] by (auto split: if_splits)
  then have "sc_stopped s'" using stops_once [OF assms(4)] by (auto split: if_splits)
  ultimately show ?thesis
    using no_loop_idle [OF assms(4) _ assms(5)] by (simp add: scheduler_stop_def)
qed

theorem scheduler_stops_once_witness:
  "\<exists>s. runs scheduler_step (new_scheduler (new_runtime (\<lambda>_. example_conn True 0)
       (new_assembly_object (\<lambda>_. [])))) [Start, Tick (\<lambda>_. (0, 0)) [7], Stop, Quit] s \<and>
     scheduler_stop s = Panic ''close of closed channel''"
proof -
  let ?r = "new_runtime (\<lambda>_. example_conn True 0) (new_assembly_object (\<lambda>_. []))"
  let ?s = "\<lambda>b n. \<lparr>sc_runtime = ?r, sc_stopped = b, sc_loops = n\<rparr>"
  have "process_tick (\<lambda>_. (0, 0)) [7] ?r = Return ?r"
    by (simp add: process_tick_def tick_producers_def new_runtime_def)
  then have "scheduler_step (?s False 1) (Tick (\<lambda>_. (0, 0)) [7]) (?s False 1)"
    using scheduler_step.tick [of "?s False 1" "\<lambda>_. (0, 0)" "[7]" ?r] by simp
  moreover have "scheduler_step (new_scheduler ?r) Start (?s False 1)"
    using scheduler_step.start [of "new_scheduler ?r"]
    by (simp add: new_scheduler_def scheduler_start_def)
  moreover have "scheduler_step (?s False 1) Stop (?s True 1)"
    by (rule scheduler_step.stop) (simp add: scheduler_stop_def)
  moreover have "scheduler_step (?s True 1) Quit (?s True 0)"
    using scheduler_step.quit [of "?s True 1"] by simp
  ultimately have run: "runs scheduler_step (new_scheduler ?r)
      [Start, Tick (\<lambda>_. (0, 0)) [7], Stop, Quit] (?s True 0)"
    by (blast intro: runs.Cons runs.Nil)
  show ?thesis
    using scheduler_stops_once [OF run _ _ runs.Nil] run by auto
qed

end
