(* ===== verification/Tag_Monitor.thy ===== *)
theory Tag_Monitor
  imports Client
begin

text \<open>
  The tag monitor, \<open>pkg/client/tag_monitor.go\<close>: options, subscriptions and one poll as functions,
  over any tag reader, refreshable state and handler.  The world of type 'w is what these act on.
  The goroutines of the monitor are in theory \<open>Monitor_Steps\<close>.
\<close>

section \<open>Events\<close>

type_synonym sub_id = u64

record tag_snapshot =
  sn_name :: bytes
  sn_timestamp :: int
  sn_type :: u16
  sn_payload :: bytes

definition snapshot_into :: "tag_snapshot \<Rightarrow> go_dest \<Rightarrow> go_error + go_value" where
  "snapshot_into s dst = go_unmarshal (sn_payload s) dst"

record tag_event =
  te_id :: sub_id
  te_snapshot :: tag_snapshot
  te_err :: "go_error option"
  te_changed :: bool

section \<open>Options\<close>

type_synonym 'w tag_reader = "bytes \<Rightarrow> 'w \<Rightarrow> (go_error + bytes) \<times> 'w"
type_synonym 'w refreshable = "tag_snapshot \<Rightarrow> 'w \<Rightarrow> (bool \<times> go_error option) \<times> 'w"
type_synonym 'w tag_handler = "tag_snapshot \<Rightarrow> 'w \<Rightarrow> 'w"

record 'w tag_config =
  tc_frequency :: int
  tc_handler :: "'w tag_handler option"
  tc_refreshable :: "'w refreshable option"
  tc_immediate :: bool

definition default_tag_config :: "'w tag_config" where
  "default_tag_config =
     \<lparr>tc_frequency = 500 * 10 ^ 6, tc_handler = None, tc_refreshable = None, tc_immediate = True\<rparr>"

datatype 'w tag_option =
    WithFrequency int
  | WithRefreshable "'w refreshable option"
  | WithHandler "'w tag_handler option"
  | WithInitialRead bool

fun apply_tag_option :: "'w tag_option \<Rightarrow> 'w tag_config \<Rightarrow> go_error + 'w tag_config" where
  "apply_tag_option (WithFrequency freq) cfg =
     (if freq \<le> 0 then Inl (Errorf ''frequency must be positive'' [])
      else Inr (cfg\<lparr>tc_frequency := freq\<rparr>))"
| "apply_tag_option (WithRefreshable None) cfg =
     Inl (Errorf ''refreshable cannot be nil'' [])"
| "apply_tag_option (WithRefreshable (Some r)) cfg = Inr (cfg\<lparr>tc_refreshable := Some r\<rparr>)"
| "apply_tag_option (WithHandler None) cfg = Inl (Errorf ''handler cannot be nil'' [])"
| "apply_tag_option (WithHandler (Some h)) cfg = Inr (cfg\<lparr>tc_handler := Some h\<rparr>)"
| "apply_tag_option (WithInitialRead enabled) cfg = Inr (cfg\<lparr>tc_immediate := enabled\<rparr>)"

fun tag_options :: "'w tag_option list \<Rightarrow> 'w tag_config \<Rightarrow> go_error + 'w tag_config" where
  "tag_options [] cfg = Inr cfg"
| "tag_options (opt # opts) cfg =
     (case apply_tag_option opt cfg of Inl e \<Rightarrow> Inl e | Inr cfg' \<Rightarrow> tag_options opts cfg')"

record 'w tag_subscription =
  ts_id :: sub_id
  ts_name :: bytes
  ts_frequency :: int
  ts_handler :: "'w tag_handler option"
  ts_refreshable :: "'w refreshable option"
  ts_immediate :: bool

definition new_tag_subscription :: "sub_id \<Rightarrow> bytes \<Rightarrow> 'w tag_config \<Rightarrow> 'w tag_subscription" where
  "new_tag_subscription i name cfg =
     \<lparr>ts_id = i, ts_name = name, ts_frequency = tc_frequency cfg, ts_handler = tc_handler cfg,
      ts_refreshable = tc_refreshable cfg, ts_immediate = tc_immediate cfg\<rparr>"

section \<open>The monitor\<close>

text \<open>
  The monitor's fields.  A channel that is only ever closed is a flag; the channel of events is
  its buffer, with its capacity, and a flag; a subscription is referred to by a number, its
  place in the order of creation.
\<close>

record 'w tag_monitor =
  tm_reader :: "'w tag_reader"
  tm_subs :: "sub_id \<rightharpoonup> nat"
  tm_closed :: bool
  tm_next_id :: sub_id
  tm_stop :: bool
  tm_events :: "tag_event list"
  tm_capacity :: nat
  tm_events_closed :: bool
  tm_wg :: nat

record 'w monitor_config =
  mc_reader :: "'w tag_reader option"
  mc_event_buffer :: int

datatype 'w monitor_option =
    WithMonitorLogger
  | WithMonitorReader "'w tag_reader option"
  | WithEventBuffer int

fun apply_monitor_option :: "'w monitor_option \<Rightarrow> 'w monitor_config \<Rightarrow> 'w monitor_config" where
  "apply_monitor_option WithMonitorLogger cfg = cfg"
| "apply_monitor_option (WithMonitorReader r) cfg = cfg\<lparr>mc_reader := r\<rparr>"
| "apply_monitor_option (WithEventBuffer n) cfg =
     cfg\<lparr>mc_event_buffer := (if n \<le> 0 then 1 else n)\<rparr>"

text \<open>The client, if there is one, is given as a reader.\<close>

definition new_tag_monitor ::
  "'w tag_reader option \<Rightarrow> 'w monitor_option list \<Rightarrow> go_error + 'w tag_monitor" where
  "new_tag_monitor cl opts =
     (let cfg = fold apply_monitor_option opts \<lparr>mc_reader = cl, mc_event_buffer = 64\<rparr>
      in case mc_reader cfg of
           None \<Rightarrow> Inl (Errorf ''tag monitor requires a client or custom reader'' [])
         | Some reader \<Rightarrow> Inr
             \<lparr>tm_reader = reader, tm_subs = Map.empty, tm_closed = False, tm_next_id = 0,
              tm_stop = False, tm_events = [], tm_capacity = nat (mc_event_buffer cfg),
              tm_events_closed = False, tm_wg = 0\<rparr>)"

definition ErrMonitorClosed :: go_error where
  "ErrMonitorClosed = Errorf ''tag monitor is closed'' []"

text \<open>\<open>AddTag\<close> up to the release of the lock; ref is the reference of the new subscription.\<close>

definition add_tag ::
  "nat \<Rightarrow> bytes \<Rightarrow> 'w tag_option list \<Rightarrow> 'w tag_monitor
   \<Rightarrow> (go_error + 'w tag_subscription) \<times> 'w tag_monitor" where
  "add_tag ref name opts m =
     (if name = [] then (Inl (Errorf ''tag name is required'' []), m)
      else
        (case tag_options opts default_tag_config of
           Inl e \<Rightarrow> (Inl e, m)
         | Inr cfg \<Rightarrow>
             if tm_closed m then (Inl ErrMonitorClosed, m)
             else
               (let i = tm_next_id m + 1
                in (Inr (new_tag_subscription i name cfg),
                    m\<lparr>tm_next_id := i, tm_subs := (tm_subs m)(i \<mapsto> ref)\<rparr>))))"

text \<open>The critical section of \<open>removeSubscription\<close>: whether there was one to stop.\<close>

definition remove_subscription :: "sub_id \<Rightarrow> 'w tag_monitor \<Rightarrow> nat option \<times> 'w tag_monitor" where
  "remove_subscription i m =
     (case tm_subs m i of
        None \<Rightarrow> (None, m)
      | Some ref \<Rightarrow> (Some ref, m\<lparr>tm_subs := (tm_subs m)(i := None)\<rparr>))"

section \<open>One poll\<close>

text \<open>
  The read: a snapshot, or the error, each with the name and the time.
\<close>

definition poll_read ::
  "'w tag_reader \<Rightarrow> bytes \<Rightarrow> int \<Rightarrow> 'w \<Rightarrow> (go_error + tag_snapshot) \<times> 'w" where
  "poll_read reader name ts w =
     (case reader name w of
        (Inl e, w') \<Rightarrow> (Inl e, w')
      | (Inr data, w') \<Rightarrow>
          if length data < 2
          then (Inl (Errorf ''tag monitor: response for %s too short'' (map unat name)), w')
          else (Inr \<lparr>sn_name = name, sn_timestamp = ts, sn_type = get_u16 (take 2 data),
                     sn_payload = drop 2 data\<rparr>, w'))"

text \<open>
  \<open>poll\<close> up to \<open>emit\<close>: the event, and the snapshot with which the handler is to be called, if it is.
\<close>

definition poll ::
  "'w tag_reader \<Rightarrow> 'w tag_subscription \<Rightarrow> int \<Rightarrow> 'w \<Rightarrow> (tag_event \<times> tag_snapshot option) \<times> 'w" where
  "poll reader s ts w =
     (case poll_read reader (ts_name s) ts w of
        (Inl e, w1) \<Rightarrow>
          ((\<lparr>te_id = ts_id s,
             te_snapshot = \<lparr>sn_name = ts_name s, sn_timestamp = ts, sn_type = 0, sn_payload = []\<rparr>,
             te_err = Some e, te_changed = False\<rparr>, None), w1)
      | (Inr snapshot, w1) \<Rightarrow>
          (let event = \<lparr>te_id = ts_id s, te_snapshot = snapshot, te_err = None, te_changed = True\<rparr>;
               (event, w2) =
                 (case ts_refreshable s of
                    None \<Rightarrow> (event, w1)
                  | Some refresh \<Rightarrow>
                      (case refresh snapshot w1 of
                         ((changed, err), w2) \<Rightarrow>
                           (event\<lparr>te_err := err, te_changed := changed\<rparr>, w2)))
           in ((event, if te_err event = None \<and> \<not> Option.is_none (ts_handler s) then Some snapshot else None),
               w2)))"

definition call_handler :: "'w tag_subscription \<Rightarrow> tag_snapshot \<Rightarrow> 'w \<Rightarrow> 'w" where
  "call_handler s snapshot w =
     (case ts_handler s of None \<Rightarrow> w | Some h \<Rightarrow> h snapshot w)"

section \<open>What options and polls do\<close>

lemma tag_options_frequency:
  "tag_options opts cfg = Inr cfg' \<Longrightarrow> 0 < tc_frequency cfg \<Longrightarrow> 0 < tc_frequency cfg'"
proof (induction opts arbitrary: cfg)
  case Nil
  then show ?case by simp
next
  case (Cons opt opts)
  then obtain c where c: "apply_tag_option opt cfg = Inr c" "tag_options opts c = Inr cfg'"
    by (auto split: sum.splits)
  then have "0 < tc_frequency c"
    using Cons.prems(2) by (cases "(opt, cfg)" rule: apply_tag_option.cases) (auto split: if_splits)
  then show ?case using Cons.IH c(2) by blast
qed

lemma add_tag_ok:
  assumes "add_tag ref name opts m = (Inr s, m')"
  shows "ts_id s = tm_next_id m + 1 \<and> ts_name s = name \<and> 0 < ts_frequency s \<and> \<not> tm_closed m \<and>
    m' = m\<lparr>tm_next_id := tm_next_id m + 1, tm_subs := (tm_subs m)(tm_next_id m + 1 \<mapsto> ref)\<rparr>"
proof -
  obtain cfg where cfg: "tag_options opts default_tag_config = Inr cfg"
    using assms by (auto simp: add_tag_def split: if_splits sum.splits)
  have "0 < tc_frequency cfg"
    using tag_options_frequency [OF cfg] by (simp add: default_tag_config_def)
  then show ?thesis
    using assms cfg by (auto simp: add_tag_def new_tag_subscription_def Let_def split: if_splits)
qed

lemma add_tag_error: "add_tag ref name opts m = (Inl e, m') \<Longrightarrow> m' = m"
  by (auto simp: add_tag_def Let_def split: if_splits sum.splits)

lemma poll_names:
  "poll reader s ts w = ((e, call), w') \<Longrightarrow>
   te_id e = ts_id s \<and> sn_name (te_snapshot e) = ts_name s \<and> sn_timestamp (te_snapshot e) = ts"
  by (auto simp: poll_def poll_read_def Let_def split: prod.splits sum.splits option.splits if_splits)

section \<open>Polling a device\<close>

text \<open>
  C27: a monitor whose reader is a client turns the answer of a device into an event: without an
  error, marked as changed, with the type code, and with a payload that unmarshals to the value
  the device holds; the handler, if there is one, is called with the same snapshot.
\<close>

theorem monitor_reads_value:
  assumes "same_type x v" and "go_marshal (Basic v) = Inr b"
    and "replies tr c \<lparr>rq_service = 0x4C, rq_path = add_symbolic_segment [] (ts_name s),
                        rq_data = [1, 0]\<rparr> r c'"
    and "rp_status r = 0" and "rp_data r = le16 code @ b" and "ts_refreshable s = None"
  shows "\<exists>e. poll (\<lambda>name c. read_tag tr c name) s ts c =
      ((e, if Option.is_none (ts_handler s) then None else Some (te_snapshot e)), c') \<and>
    te_id e = ts_id s \<and> te_err e = None \<and> te_changed e \<and> sn_type (te_snapshot e) = code \<and>
    snapshot_into (te_snapshot e) (PtrTo [x] False) = Inr (Basic v)"
proof -
  have q: "new_read_tag_request (add_symbolic_segment new_path (ts_name s)) 1 =
      \<lparr>rq_service = 0x4C, rq_path = add_symbolic_segment [] (ts_name s), rq_data = [1, 0]\<rparr>"
    by (simp add: new_read_tag_request_def new_path_def)
  have "read_tag tr c (ts_name s) = (Inr (le16 code @ b), c')"
    using read_tag_replies [of tr c "ts_name s" r c'] assms(3, 4, 5) by (simp add: q)
  moreover have "go_unmarshal b (PtrTo [x] False) = Inr (Basic v)"
  proof (rule marshal_basic_roundtrip [OF assms(1)])
    fix b' assume b': "go_marshal (Basic v) = Inr b'"
      and r: "\<And>r. go_unmarshal (b' @ r) (PtrTo [x] False) = Inr (Basic v)"
    show ?thesis using r [of "[]"] b' assms(2) by simp
  qed
  ultimately show ?thesis
    using assms(6) by (simp add: poll_def poll_read_def snapshot_into_def)
qed

theorem monitor_reads_value_witness:
  "\<exists>e. fst (poll (\<lambda>name c. read_tag scripted c name)
       \<lparr>ts_id = 1, ts_name = [0x41], ts_frequency = 5, ts_handler = None, ts_refreshable = None,
        ts_immediate = True\<rparr> 77
       (scripted_client [] [\<lparr>rp_service = 0xCC, rp_reserved = 0, rp_status = 0, rp_ext_size = 0,
          rp_ext = [], rp_data = le16 0xC4 @ le32 100000\<rparr>])) = (e, None) \<and>
     te_err e = None \<and> sn_type (te_snapshot e) = 0xC4"
proof -
  let ?s = "\<lparr>ts_id = 1, ts_name = [0x41], ts_frequency = 5, ts_handler = None,
    ts_refreshable = None, ts_immediate = True\<rparr>"
  let ?r = "\<lparr>rp_service = 0xCC, rp_reserved = 0, rp_status = 0, rp_ext_size = 0, rp_ext = [],
    rp_data = le16 0xC4 @ le32 100000\<rparr> :: mr_response"
  obtain e c' where "poll (\<lambda>name c. read_tag scripted c name) ?s 77 (scripted_client [] [?r]) =
      ((e, None), c')" "te_err e = None" "sn_type (te_snapshot e) = 0xC4"
    using monitor_reads_value [of "GInt32 0" "GInt32 100000" "le32 100000" scripted _ ?s ?r _ "0xC4" 77,
        OF _ _ scripted_replies [where rs = "[]" and sent = "[]"]]
    by (auto simp: go_type_to_cip_type_def go_marshal_def response_bytes_def same_type_def)
  then show ?thesis by simp
qed

end
