(* ===== verification/Monitor_Steps.thy ===== *)
theory Monitor_Steps
  imports Tag_Monitor Runs
begin

text \<open>
  The goroutines of a tag monitor side by side: callers of \<open>AddTag\<close>, \<open>Stop\<close> and \<open>Close\<close>, one poller
  per subscription, and the consumer of the events.  A step is one critical section, one
  operation on a channel or wait group, or one poll, which touches nothing that the others do
  except the world.  Subscriptions are referred to by their place in the order of creation.  A
  handler may call \<open>Stop\<close>; it then waits inside the poll.
\<close>

section \<open>States\<close>

text \<open>
  Where the goroutine of a subscription is: not started yet, before the initial read, in the
  select of \<open>run\<close>, in the handler, in a \<open>Stop\<close> called by the handler, before the two selects of
  \<open>emit\<close>, returned (\<open>doneCh\<close> is closed), and after \<open>wg.Done\<close>.
\<close>

datatype poller =
    Unspawned
  | Starting
  | Selecting
  | Handling tag_event
  | HandlerStops nat tag_event
  | EmitCheck tag_event
  | EmitSelect tag_event
  | Returned
  | Gone

text \<open>The once-only \<open>Stop\<close> of a subscription, and the once-only \<open>Close\<close>.\<close>

datatype stopper =
    Unstopped
  | Removed nat
  | Joining nat
  | Stopped

datatype closer =
    NotClosing
  | StopClosed
  | Stopping "nat list"
  | Waiting nat "nat list"
  | Waited
  | CloseDone

record 'w mon_system =
  ms_monitor :: "'w tag_monitor"
  ms_store :: "nat \<Rightarrow> 'w tag_subscription"
  ms_count :: nat
  ms_poller :: "nat \<Rightarrow> poller"
  ms_stop_ch :: "nat \<Rightarrow> bool"
  ms_stopper :: "nat \<Rightarrow> stopper"
  ms_closer :: closer
  ms_world :: 'w
  ms_now :: int
  ms_panicked :: bool

definition start_monitor :: "'w tag_monitor \<Rightarrow> int \<Rightarrow> 'w \<Rightarrow> 'w mon_system" where
  "start_monitor m now w =
     \<lparr>ms_monitor = m, ms_store = (\<lambda>_. new_tag_subscription 0 [] default_tag_config), ms_count = 0,
      ms_poller = (\<lambda>_. Unspawned), ms_stop_ch = (\<lambda>_. False), ms_stopper = (\<lambda>_. Unstopped),
      ms_closer = NotClosing, ms_world = w, ms_now = now, ms_panicked = False\<rparr>"

text \<open>\<open>doneCh\<close> is closed.\<close>

definition ended :: "poller \<Rightarrow> bool" where
  "ended p \<longleftrightarrow> p = Returned \<or> p = Gone"

section \<open>Steps\<close>

definition set_poller :: "nat \<Rightarrow> poller \<Rightarrow> 'w mon_system \<Rightarrow> 'w mon_system" where
  "set_poller r p s = s\<lparr>ms_poller := (ms_poller s)(r := p)\<rparr>"

definition set_stopper :: "nat \<Rightarrow> stopper \<Rightarrow> 'w mon_system \<Rightarrow> 'w mon_system" where
  "set_stopper r p s = s\<lparr>ms_stopper := (ms_stopper s)(r := p)\<rparr>"

text \<open>The poll of a subscription up to \<open>emit\<close>, or into its handler.\<close>

definition poll_step :: "nat \<Rightarrow> 'w mon_system \<Rightarrow> 'w mon_system" where
  "poll_step r s =
     (case poll (tm_reader (ms_monitor s)) (ms_store s r) (ms_now s) (ms_world s) of
        ((e, None), w) \<Rightarrow> (set_poller r (EmitCheck e) s)\<lparr>ms_world := w\<rparr>
      | ((e, Some sn), w) \<Rightarrow>
          (set_poller r (Handling e) s)\<lparr>ms_world := call_handler (ms_store s r) sn w\<rparr>)"

text \<open>The first call of \<open>Stop\<close> up to the end of the critical section of \<open>removeSubscription\<close>.\<close>

definition stop_begin :: "nat \<Rightarrow> 'w mon_system \<Rightarrow> 'w mon_system" where
  "stop_begin r s =
     (case remove_subscription (ts_id (ms_store s r)) (ms_monitor s) of
        (None, m) \<Rightarrow> set_stopper r Stopped s
      | (Some q, m) \<Rightarrow> (set_stopper r (Removed q) s)\<lparr>ms_monitor := m\<rparr>)"

datatype 'w mon_action =
    AddTag bytes "'w tag_option list"
  | Spawn nat
  | Start nat
  | Tick nat
  | Quit nat
  | HandlerStop nat nat
  | HandlerResume nat
  | HandlerReturn nat
  | CheckEmit nat
  | Send nat
  | DropEvent nat
  | WgDone nat
  | Receive
  | StopCall nat
  | StopSignal nat
  | StopReturn nat
  | CloseCall
  | CloseTake "nat list"
  | CloseSignal
  | CloseJoin
  | CloseWait
  | CloseEvents
  | Advance int

inductive mon_step :: "'w mon_system \<Rightarrow> 'w mon_action \<Rightarrow> 'w mon_system \<Rightarrow> bool" where
  register: "add_tag (ms_count s) name opts (ms_monitor s) = (Inr sub, m) \<Longrightarrow>
    mon_step s (AddTag name opts) (s\<lparr>ms_monitor := m,
      ms_store := (ms_store s)(ms_count s := sub), ms_count := Suc (ms_count s)\<rparr>)"
| register_error: "add_tag (ms_count s) name opts (ms_monitor s) = (Inl e, m) \<Longrightarrow>
    mon_step s (AddTag name opts) s"
| spawn: "r < ms_count s \<Longrightarrow> ms_poller s r = Unspawned \<Longrightarrow>
    mon_step s (Spawn r) ((set_poller r Starting s)
      \<lparr>ms_monitor := (ms_monitor s)\<lparr>tm_wg := Suc (tm_wg (ms_monitor s))\<rparr>\<rparr>)"
| start_poll: "ms_poller s r = Starting \<Longrightarrow> ts_immediate (ms_store s r) \<Longrightarrow>
    mon_step s (Start r) (poll_step r s)"
| start_wait: "ms_poller s r = Starting \<Longrightarrow> \<not> ts_immediate (ms_store s r) \<Longrightarrow>
    mon_step s (Start r) (set_poller r Selecting s)"
| tick: "ms_poller s r = Selecting \<Longrightarrow> mon_step s (Tick r) (poll_step r s)"
| quit: "ms_poller s r = Selecting \<Longrightarrow> ms_stop_ch s r \<or> tm_stop (ms_monitor s) \<Longrightarrow>
    mon_step s (Quit r) (set_poller r Returned s)"
| handler_stop: "ms_poller s r = Handling e \<Longrightarrow> ms_poller s q \<noteq> Unspawned \<Longrightarrow>
    mon_step s (HandlerStop r q) (set_poller r (HandlerStops q e)
      (if ms_stopper s q = Unstopped then stop_begin q s else s))"
| handler_resume: "ms_poller s r = HandlerStops q e \<Longrightarrow> ms_stopper s q = Stopped \<Longrightarrow>
    mon_step s (HandlerResume r) (set_poller r (Handling e) s)"
| handler_return: "ms_poller s r = Handling e \<Longrightarrow>
    mon_step s (HandlerReturn r) (set_poller r (EmitCheck e) s)"
| check_emit: "ms_poller s r = EmitCheck e \<Longrightarrow>
    mon_step s (CheckEmit r)
      (set_poller r (if tm_stop (ms_monitor s) then Selecting else EmitSelect e) s)"
| drop_event: "ms_poller s r = EmitSelect e \<Longrightarrow> tm_stop (ms_monitor s) \<Longrightarrow>
    mon_step s (DropEvent r) (set_poller r Selecting s)"
| send: "ms_poller s r = EmitSelect e \<Longrightarrow> \<not> tm_events_closed (ms_monitor s) \<Longrightarrow>
    length (tm_events (ms_monitor s)) < tm_capacity (ms_monitor s) \<Longrightarrow>
    mon_step s (Send r) ((set_poller r Selecting s)
      \<lparr>ms_monitor := (ms_monitor s)\<lparr>tm_events := tm_events (ms_monitor s) @ [e]\<rparr>\<rparr>)"
| send_closed: "ms_poller s r = EmitSelect e \<Longrightarrow> tm_events_closed (ms_monitor s) \<Longrightarrow>
    mon_step s (Send r) (s\<lparr>ms_panicked := True\<rparr>)"
| wg_done: "ms_poller s r = Returned \<Longrightarrow> 0 < tm_wg (ms_monitor s) \<Longrightarrow>
    mon_step s (WgDone r) ((set_poller r Gone s)
      \<lparr>ms_monitor := (ms_monitor s)\<lparr>tm_wg := tm_wg (ms_monitor s) - 1\<rparr>\<rparr>)"
| wg_negative: "ms_poller s r = Returned \<Longrightarrow> tm_wg (ms_monitor s) = 0 \<Longrightarrow>
    mon_step s (WgDone r) (s\<lparr>ms_panicked := True\<rparr>)"
| receive: "tm_events (ms_monitor s) = e # es \<Longrightarrow>
    mon_step s Receive (s\<lparr>ms_monitor := (ms_monitor s)\<lparr>tm_events := es\<rparr>\<rparr>)"
| stop_call: "ms_poller s r \<noteq> Unspawned \<Longrightarrow> ms_stopper s r = Unstopped \<Longrightarrow>
    mon_step s (StopCall r) (stop_begin r s)"
| stop_signal: "ms_stopper s r = Removed q \<Longrightarrow>
    mon_step s (StopSignal r)
      ((set_stopper r (Joining q) s)\<lparr>ms_stop_ch := (ms_stop_ch s)(q := True)\<rparr>)"
| stop_return: "ms_stopper s r = Joining q \<Longrightarrow> ended (ms_poller s q) \<Longrightarrow>
    mon_step s (StopReturn r) (set_stopper r Stopped s)"
| close_call: "ms_closer s = NotClosing \<Longrightarrow>
    mon_step s CloseCall (s\<lparr>ms_closer := StopClosed,
      ms_monitor := (ms_monitor s)\<lparr>tm_stop := True\<rparr>\<rparr>)"
| close_take: "ms_closer s = StopClosed \<Longrightarrow> distinct rs \<Longrightarrow>
    set rs = ran (tm_subs (ms_monitor s)) \<Longrightarrow>
    mon_step s (CloseTake rs) (s\<lparr>ms_closer := Stopping rs,
      ms_monitor := (ms_monitor s)\<lparr>tm_closed := True, tm_subs := Map.empty\<rparr>\<rparr>)"
| close_signal: "ms_closer s = Stopping (r # rs) \<Longrightarrow>
    mon_step s CloseSignal (s\<lparr>ms_closer := Waiting r rs, ms_stop_ch := (ms_stop_ch s)(r := True)\<rparr>)"
| close_join: "ms_closer s = Waiting r rs \<Longrightarrow> ended (ms_poller s r) \<Longrightarrow>
    mon_step s CloseJoin (s\<lparr>ms_closer := Stopping rs\<rparr>)"
| close_wait: "ms_closer s = Stopping [] \<Longrightarrow> tm_wg (ms_monitor s) = 0 \<Longrightarrow>
    mon_step s CloseWait (s\<lparr>ms_closer := Waited\<rparr>)"
| close_events: "ms_closer s = Waited \<Longrightarrow>
    mon_step s CloseEvents (s\<lparr>ms_closer := CloseDone,
      ms_monitor := (ms_monitor s)\<lparr>tm_events_closed := True\<rparr>\<rparr>)"
| advance: "ms_now s \<le> now \<Longrightarrow> mon_step s (Advance now) (s\<lparr>ms_now := now\<rparr>)"

abbreviation mon_run :: "'w mon_system \<Rightarrow> 'w mon_action list \<Rightarrow> 'w mon_system \<Rightarrow> bool" where
  "mon_run \<equiv> runs mon_step"

lemmas mon_run_Cons = runs.Cons [of mon_step]
lemmas mon_run_Nil = runs.Nil [of mon_step]

section \<open>The invariant\<close>

text \<open>The identifier of a subscription, and the pollers that the wait group counts.\<close>

definition ref_id :: "nat \<Rightarrow> sub_id" where
  "ref_id r = word_of_nat (Suc r)"

definition live :: "poller \<Rightarrow> bool" where
  "live p \<longleftrightarrow> p \<noteq> Unspawned \<and> p \<noteq> Gone"

definition ids_inv :: "'w mon_system \<Rightarrow> bool" where
  "ids_inv s \<longleftrightarrow> tm_next_id (ms_monitor s) = word_of_nat (ms_count s) \<and>
     (\<forall>r < ms_count s. ts_id (ms_store s r) = ref_id r) \<and>
     (\<forall>i r. tm_subs (ms_monitor s) i = Some r \<longrightarrow> r < ms_count s \<and> i = ref_id r)"

definition live_inv :: "'w mon_system \<Rightarrow> bool" where
  "live_inv s \<longleftrightarrow> (\<forall>r. ms_count s \<le> r \<longrightarrow> ms_poller s r = Unspawned) \<and>
     (\<forall>r. ms_poller s r = Unspawned \<longrightarrow> ms_stopper s r = Unstopped) \<and>
     tm_wg (ms_monitor s) = card {r. live (ms_poller s r)}"

text \<open>
  \<open>Stop\<close> stops its own subscription, and returns early only when \<open>Close\<close> has taken over.
\<close>

definition stop_inv :: "'w mon_system \<Rightarrow> bool" where
  "stop_inv s \<longleftrightarrow>
     (\<forall>r q. ms_stopper s r = Removed q \<or> ms_stopper s r = Joining q \<longrightarrow> q = r) \<and>
     (\<forall>r. ms_stopper s r = Stopped \<longrightarrow> ended (ms_poller s r) \<or> tm_closed (ms_monitor s))"

text \<open>What \<open>Close\<close> still has to wait for: every subscription is accounted for.\<close>

fun accounted_in :: "closer \<Rightarrow> nat set \<Rightarrow> poller \<Rightarrow> stopper \<Rightarrow> nat \<Rightarrow> bool" where
  "accounted_in NotClosing subs p st r = (r \<in> subs \<or> st \<noteq> Unstopped)"
| "accounted_in StopClosed subs p st r = (r \<in> subs \<or> st \<noteq> Unstopped)"
| "accounted_in (Stopping rs) subs p st r = (r \<in> set rs \<or> ended p \<or> st \<noteq> Unstopped)"
| "accounted_in (Waiting q rs) subs p st r = (r = q \<or> r \<in> set rs \<or> ended p \<or> st \<noteq> Unstopped)"
| "accounted_in Waited subs p st r = (p = Gone)"
| "accounted_in CloseDone subs p st r = (p = Gone)"

definition accounted :: "'w mon_system \<Rightarrow> nat \<Rightarrow> bool" where
  "accounted s r \<longleftrightarrow>
     accounted_in (ms_closer s) (ran (tm_subs (ms_monitor s))) (ms_poller s r) (ms_stopper s r) r"

lemma accounted_in_stopper:
  "accounted_in c subs p st r \<Longrightarrow> st' \<noteq> Unstopped \<Longrightarrow> accounted_in c subs p st' r"
  by (cases c) auto

definition closer_inv :: "'w mon_system \<Rightarrow> bool" where
  "closer_inv s \<longleftrightarrow>
     tm_stop (ms_monitor s) = (ms_closer s \<noteq> NotClosing) \<and>
     tm_closed (ms_monitor s) = (ms_closer s \<noteq> NotClosing \<and> ms_closer s \<noteq> StopClosed) \<and>
     tm_events_closed (ms_monitor s) = (ms_closer s = CloseDone) \<and>
     (tm_closed (ms_monitor s) \<longrightarrow> tm_subs (ms_monitor s) = Map.empty) \<and>
     (\<forall>r < ms_count s. accounted s r)"

definition mon_inv :: "'w mon_system \<Rightarrow> bool" where
  "mon_inv s \<longleftrightarrow> ids_inv s \<and> live_inv s \<and> stop_inv s \<and> closer_inv s \<and> \<not> ms_panicked s"

lemmas inv_defs = mon_inv_def ids_inv_def live_inv_def stop_inv_def closer_inv_def accounted_def

lemma mon_inv_frame [simp]:
  "mon_inv (s\<lparr>ms_world := w\<rparr>) = mon_inv s"
  "mon_inv (s\<lparr>ms_now := t\<rparr>) = mon_inv s"
  "mon_inv (s\<lparr>ms_stop_ch := c\<rparr>) = mon_inv s"
  "mon_inv (s\<lparr>ms_monitor := (ms_monitor s)\<lparr>tm_events := es\<rparr>\<rparr>) = mon_inv s"
  by (simp_all add: inv_defs)

lemma live_set_finite: "live_inv s \<Longrightarrow> finite {r. live (ms_poller s r)}"
  unfolding live_inv_def live_def
  by (rule finite_subset [of _ "{..< ms_count s}"]) (auto simp: not_le [symmetric])

lemma poller_count: "mon_inv s \<Longrightarrow> ms_poller s r \<noteq> Unspawned \<Longrightarrow> r < ms_count s"
  unfolding mon_inv_def live_inv_def using not_le by blast

lemma poller_accounted: "mon_inv s \<Longrightarrow> ms_poller s r \<noteq> Unspawned \<Longrightarrow> accounted s r"
  using poller_count unfolding mon_inv_def closer_inv_def by blast

text \<open>A poller moves on, without starting or leaving the wait group.\<close>

lemma mon_inv_move:
  assumes "mon_inv s" and "live (ms_poller s r)" and "live p" and "ended (ms_poller s r) \<longrightarrow> ended p"
  shows "mon_inv (set_poller r p s)"
proof -
  have pr: "ms_poller s r \<noteq> Unspawned" "ms_poller s r \<noteq> Gone" "p \<noteq> Unspawned" "p \<noteq> Gone"
    using assms(2,3) by (simp_all add: live_def)
  have r: "r < ms_count s" by (rule poller_count [OF assms(1) pr(1)])
  have "{q. live (((ms_poller s)(r := p)) q)} = {q. live (ms_poller s q)}" using assms(2,3) by auto
  then have "live_inv (set_poller r p s)"
    using assms(1) pr r by (simp add: mon_inv_def live_inv_def set_poller_def)
  moreover have "accounted (set_poller r p s) q" if "accounted s q" for q
    using that pr poller_accounted [OF assms(1) pr(1)] assms(4)
    by (cases "ms_closer s") (auto simp: accounted_def set_poller_def)
  moreover have "stop_inv (set_poller r p s)"
    using assms(1,4) by (auto simp: mon_inv_def stop_inv_def set_poller_def)
  ultimately show ?thesis
    using assms(1) by (simp add: mon_inv_def closer_inv_def ids_inv_def) (simp add: set_poller_def)
qed

lemma mon_inv_poll: "mon_inv s \<Longrightarrow> live (ms_poller s r) \<Longrightarrow> \<not> ended (ms_poller s r) \<Longrightarrow>
  mon_inv (poll_step r s)"
  by (auto simp: poll_step_def live_def split: prod.split option.split intro!: mon_inv_move)

lemma ref_id_inj: "ref_id r = ref_id q \<Longrightarrow> Suc r < 2 ^ 64 \<Longrightarrow> Suc q < 2 ^ 64 \<Longrightarrow> r = q"
proof -
  assume a: "ref_id r = ref_id q" "Suc r < 2 ^ 64" "Suc q < 2 ^ 64"
  have u: "unat (ref_id k) = Suc k" if "Suc k < 2 ^ 64" for k
    unfolding ref_id_def by (rule of_nat_inverse [OF refl]) (use that in simp)
  have "Suc r = Suc q" using u [OF a(2)] u [OF a(3)] unfolding a(1) by (rule trans [OF sym])
  then show "r = q" by simp
qed

lemma mon_inv_stop_begin:
  assumes "mon_inv s" and "ms_poller s r \<noteq> Unspawned" and "ms_stopper s r = Unstopped"
    and "ms_count s < 2 ^ 64"
  shows "mon_inv (stop_begin r s)"
proof (cases "tm_subs (ms_monitor s) (ref_id r)")
  case None
  have id: "ts_id (ms_store s r) = ref_id r"
    using assms(1) poller_count [OF assms(1,2)] by (simp add: mon_inv_def ids_inv_def)
  have "r \<notin> ran (tm_subs (ms_monitor s))"
    using None assms(1) by (auto simp: mon_inv_def ids_inv_def ran_def)
  then have "tm_closed (ms_monitor s)"
    using poller_accounted [OF assms(1,2)] assms(1,3)
    by (cases "ms_closer s") (auto simp: accounted_def mon_inv_def closer_inv_def)
  moreover have "accounted (stop_begin r s) k" if "accounted s k" for k
    using that None id accounted_in_stopper [of _ _ _ _ k Stopped]
    by (auto simp: accounted_def stop_begin_def remove_subscription_def set_stopper_def)
  ultimately show ?thesis
    using None id assms
    by (auto simp: stop_begin_def remove_subscription_def set_stopper_def mon_inv_def ids_inv_def
        live_inv_def stop_inv_def closer_inv_def)
next
  case (Some q)
  have id: "ts_id (ms_store s r) = ref_id r"
    using assms(1) poller_count [OF assms(1,2)] by (simp add: mon_inv_def ids_inv_def)
  have subs: "k < ms_count s \<and> i = ref_id k" if "tm_subs (ms_monitor s) i = Some k" for i k
    using assms(1) that by (auto simp: mon_inv_def ids_inv_def)
  have q: "q = r"
    using ref_id_inj [of r q] subs [OF Some] poller_count [OF assms(1,2)] assms(4) by simp
  have "k \<in> ran ((tm_subs (ms_monitor s))(ref_id r := None))"
    if "k \<in> ran (tm_subs (ms_monitor s))" and "k \<noteq> r" for k
    using that subs ref_id_inj [of k r] poller_count [OF assms(1,2)] assms(4)
    unfolding ran_def by fastforce
  then have acc: "accounted (stop_begin r s) k" if "accounted s k" for k
    using that Some id q
    by (cases "ms_closer s")
      (auto simp: accounted_def stop_begin_def remove_subscription_def set_stopper_def)
  let ?s = "s\<lparr>ms_stopper := (ms_stopper s)(r := Removed r),
    ms_monitor := (ms_monitor s)\<lparr>tm_subs := (tm_subs (ms_monitor s))(ref_id r := None)\<rparr>\<rparr>"
  have s': "stop_begin r s = ?s"
    using Some id q by (simp add: stop_begin_def remove_subscription_def set_stopper_def)
  have "ids_inv ?s" using assms(1) by (simp add: mon_inv_def ids_inv_def)
  moreover have "live_inv ?s" using assms(1,2) by (simp add: mon_inv_def live_inv_def)
  moreover have "stop_inv ?s" using assms(1) by (simp add: mon_inv_def stop_inv_def)
  moreover have "closer_inv ?s"
    using assms(1) acc unfolding s' by (simp add: mon_inv_def closer_inv_def)
  ultimately show ?thesis using assms(1) unfolding s' by (simp add: mon_inv_def)
qed

lemma mon_inv_add_tag:
  assumes "mon_inv s" and add: "add_tag (ms_count s) name opts (ms_monitor s) = (Inr sub, m)"
    and "Suc (ms_count s) < 2 ^ 64"
  shows "mon_inv (s\<lparr>ms_monitor := m, ms_store := (ms_store s)(ms_count s := sub),
    ms_count := Suc (ms_count s)\<rparr>)" (is "mon_inv ?s")
proof -
  have inv: "ids_inv s" "live_inv s" "stop_inv s" "closer_inv s" "\<not> ms_panicked s"
    using assms(1) by (simp_all add: mon_inv_def)
  let ?i = "ref_id (ms_count s)"
  have i: "tm_next_id (ms_monitor s) + 1 = ?i"
    using inv(1) by (simp add: ids_inv_def ref_id_def)
  have m: "m = (ms_monitor s)\<lparr>tm_next_id := ?i, tm_subs := (tm_subs (ms_monitor s))(?i \<mapsto> ms_count s)\<rparr>"
    and sub: "ts_id sub = ?i" and open': "\<not> tm_closed (ms_monitor s)"
    using add_tag_ok [OF add] i by simp_all
  have other: "r < ms_count s \<and> i = ref_id r \<and> ref_id r \<noteq> ?i" if "tm_subs (ms_monitor s) i = Some r" for i r
  proof -
    have "r < ms_count s \<and> i = ref_id r" using inv(1) that by (simp add: ids_inv_def)
    then show ?thesis using ref_id_inj [of r "ms_count s"] assms(3) by auto
  qed
  then have fresh: "tm_subs (ms_monitor s) ?i = None"
    by (cases "tm_subs (ms_monitor s) ?i") (simp, metis)
  have "ids_inv ?s"
    using inv(1) other sub by (auto simp: ids_inv_def m ref_id_def less_Suc_eq)
  moreover have "live_inv ?s" using inv(2) by (simp add: live_inv_def m)
  moreover have "stop_inv ?s" using inv(3) by (simp add: stop_inv_def m)
  moreover have "accounted ?s r" if "r < Suc (ms_count s)" for r
  proof -
    have "ms_closer s = NotClosing \<or> ms_closer s = StopClosed"
      using inv(4) open' by (auto simp: closer_inv_def)
    then show ?thesis
      using inv(4) that fresh by (auto simp: closer_inv_def accounted_def m less_Suc_eq)
  qed
  then have "closer_inv ?s"
    using inv(4) open' by (simp add: closer_inv_def m)
  ultimately show ?thesis using inv(5) by (simp add: mon_inv_def)
qed

lemma mon_inv_spawn:
  assumes "mon_inv s" and "r < ms_count s" and "ms_poller s r = Unspawned"
  shows "mon_inv ((set_poller r Starting s)
      \<lparr>ms_monitor := (ms_monitor s)\<lparr>tm_wg := Suc (tm_wg (ms_monitor s))\<rparr>\<rparr>)" (is "mon_inv ?s")
proof -
  have inv: "ids_inv s" "live_inv s" "stop_inv s" "closer_inv s" "\<not> ms_panicked s"
    using assms(1) by (simp_all add: mon_inv_def)
  have "{q. live (((ms_poller s)(r := Starting)) q)} = insert r {q. live (ms_poller s q)}"
    by (auto simp: live_def)
  then have "live_inv ?s"
    using inv(2) assms(2,3) live_set_finite [OF inv(2)]
    by (simp add: live_inv_def set_poller_def live_def)
  moreover have "accounted ?s q" if "accounted s q" for q
    using that assms(3) by (cases "ms_closer s") (auto simp: accounted_def set_poller_def ended_def)
  then have "closer_inv ?s" using inv(4) by (simp add: closer_inv_def set_poller_def)
  moreover have "stop_inv ?s"
    using inv(2,3) assms(3) by (auto simp: stop_inv_def set_poller_def live_inv_def)
  moreover have "ids_inv ?s" using inv(1) by (simp add: ids_inv_def set_poller_def)
  ultimately show ?thesis using inv(5) by (simp add: mon_inv_def set_poller_def)
qed

lemma mon_inv_wg_done:
  assumes "mon_inv s" and "ms_poller s r = Returned"
  shows "0 < tm_wg (ms_monitor s)"
    and "mon_inv ((set_poller r Gone s)
      \<lparr>ms_monitor := (ms_monitor s)\<lparr>tm_wg := tm_wg (ms_monitor s) - 1\<rparr>\<rparr>)" (is "mon_inv ?s")
proof -
  have inv: "ids_inv s" "live_inv s" "stop_inv s" "closer_inv s" "\<not> ms_panicked s"
    using assms(1) by (simp_all add: mon_inv_def)
  have r: "r < ms_count s" "live (ms_poller s r)"
    using poller_count [OF assms(1), of r] assms(2) by (simp_all add: live_def)
  have set: "{q. live (((ms_poller s)(r := Gone)) q)} = {q. live (ms_poller s q)} - {r}"
    by (auto simp: live_def)
  have wg: "tm_wg (ms_monitor s) = card {q. live (ms_poller s q)}"
    using inv(2) by (simp add: live_inv_def)
  then show "0 < tm_wg (ms_monitor s)"
    using live_set_finite [OF inv(2)] r(2) by (auto simp: card_gt_0_iff)
  have "card ({q. live (ms_poller s q)} - {r}) = tm_wg (ms_monitor s) - 1"
    using wg live_set_finite [OF inv(2)] r(2) by simp
  then have "live_inv ?s"
    using inv(2) r(1) set assms(2) by (simp add: live_inv_def set_poller_def)
  moreover have "accounted ?s q" if "accounted s q" for q
    using that assms(2) by (cases "ms_closer s") (auto simp: accounted_def set_poller_def ended_def)
  then have "closer_inv ?s" using inv(4) by (simp add: closer_inv_def set_poller_def)
  moreover have "stop_inv ?s"
    using inv(3) assms(2) by (auto simp: stop_inv_def set_poller_def ended_def)
  moreover have "ids_inv ?s" using inv(1) by (simp add: ids_inv_def set_poller_def)
  ultimately show "mon_inv ?s" using inv(5) by (simp add: mon_inv_def set_poller_def)
qed

text \<open>The steps of \<open>Stop\<close> after the removal.\<close>

lemma mon_inv_stopper:
  assumes "mon_inv s" and "ms_stopper s r \<noteq> Unstopped" and "p \<noteq> Unstopped"
    and "\<And>q. p = Removed q \<or> p = Joining q \<Longrightarrow> q = r"
    and "p = Stopped \<Longrightarrow> ended (ms_poller s r) \<or> tm_closed (ms_monitor s)"
  shows "mon_inv (set_stopper r p s)"
proof -
  have inv: "ids_inv s" "live_inv s" "stop_inv s" "closer_inv s" "\<not> ms_panicked s"
    using assms(1) by (simp_all add: mon_inv_def)
  have "accounted (set_stopper r p s) q" if "accounted s q" for q
    using that accounted_in_stopper [of _ _ _ _ q p] assms(3)
    by (auto simp: accounted_def set_stopper_def)
  then have "closer_inv (set_stopper r p s)"
    using inv(4) by (simp add: closer_inv_def set_stopper_def)
  moreover have "stop_inv (set_stopper r p s)"
    using inv(3) assms(4,5) by (auto simp: stop_inv_def set_stopper_def)
  moreover have "live_inv (set_stopper r p s)" "ids_inv (set_stopper r p s)"
    using inv(1,2) assms(2) by (auto simp: ids_inv_def live_inv_def set_stopper_def)
  ultimately show ?thesis using inv(5) by (simp add: mon_inv_def set_stopper_def)
qed

lemma stopper_own:
  "mon_inv s \<Longrightarrow> ms_stopper s r = Removed q \<or> ms_stopper s r = Joining q \<Longrightarrow> q = r"
  unfolding mon_inv_def stop_inv_def by blast

text \<open>The steps of \<open>Close\<close>.\<close>

lemma mon_inv_close_call:
  "mon_inv s \<Longrightarrow> ms_closer s = NotClosing \<Longrightarrow>
   mon_inv (s\<lparr>ms_closer := StopClosed, ms_monitor := (ms_monitor s)\<lparr>tm_stop := True\<rparr>\<rparr>)"
  by (auto simp: inv_defs)

lemma mon_inv_close_take:
  "mon_inv s \<Longrightarrow> ms_closer s = StopClosed \<Longrightarrow> set rs = ran (tm_subs (ms_monitor s)) \<Longrightarrow>
   mon_inv (s\<lparr>ms_closer := Stopping rs,
      ms_monitor := (ms_monitor s)\<lparr>tm_closed := True, tm_subs := Map.empty\<rparr>\<rparr>)"
  by (auto simp: inv_defs)

lemma mon_inv_close_signal:
  "mon_inv s \<Longrightarrow> ms_closer s = Stopping (r # rs) \<Longrightarrow> mon_inv (s\<lparr>ms_closer := Waiting r rs\<rparr>)"
  by (auto simp: inv_defs)

lemma mon_inv_close_join:
  "mon_inv s \<Longrightarrow> ms_closer s = Waiting r rs \<Longrightarrow> ended (ms_poller s r) \<Longrightarrow>
   mon_inv (s\<lparr>ms_closer := Stopping rs\<rparr>)"
  by (auto simp: inv_defs)

lemma mon_inv_close_wait:
  assumes "mon_inv s" and "ms_closer s = Stopping []" and "tm_wg (ms_monitor s) = 0"
  shows "mon_inv (s\<lparr>ms_closer := Waited\<rparr>)"
proof -
  have inv: "live_inv s" "closer_inv s" using assms(1) by (simp_all add: mon_inv_def)
  have "card {q. live (ms_poller s q)} = 0" using inv(1) assms(3) by (simp add: live_inv_def)
  then have dead: "\<not> live (ms_poller s q)" for q using live_set_finite [OF inv(1)] by auto
  have "ms_poller s q = Gone" if "q < ms_count s" for q
    using that inv dead [of q] assms(2)
    by (auto simp: closer_inv_def accounted_def live_def live_inv_def ended_def)
  then show ?thesis using assms(1,2) by (simp add: inv_defs)
qed

lemma mon_inv_close_events:
  "mon_inv s \<Longrightarrow> ms_closer s = Waited \<Longrightarrow>
   mon_inv (s\<lparr>ms_closer := CloseDone, ms_monitor := (ms_monitor s)\<lparr>tm_events_closed := True\<rparr>\<rparr>)"
  by (simp add: inv_defs)

lemma live_simps [simp]:
  "live (Handling e)" "live (HandlerStops q e)" "live (EmitCheck e)" "live (EmitSelect e)"
  "live Starting" "live Selecting" "live Returned" "\<not> live Unspawned" "\<not> live Gone"
  by (simp_all add: live_def)

lemma ended_simps [simp]:
  "\<not> ended (Handling e)" "\<not> ended (HandlerStops q e)" "\<not> ended (EmitCheck e)"
  "\<not> ended (EmitSelect e)" "\<not> ended Starting" "\<not> ended Selecting" "\<not> ended Unspawned"
  "ended Returned" "ended Gone"
  by (simp_all add: ended_def)

lemma stop_begin_sel [simp]:
  "ms_poller (stop_begin r s) = ms_poller s" "ms_count (stop_begin r s) = ms_count s"
  "ms_store (stop_begin r s) = ms_store s" "ms_closer (stop_begin r s) = ms_closer s"
  "tm_events (ms_monitor (stop_begin r s)) = tm_events (ms_monitor s)"
  "tm_stop (ms_monitor (stop_begin r s)) = tm_stop (ms_monitor s)"
  "tm_closed (ms_monitor (stop_begin r s)) = tm_closed (ms_monitor s)"
  "tm_capacity (ms_monitor (stop_begin r s)) = tm_capacity (ms_monitor s)"
  by (simp_all add: stop_begin_def set_stopper_def remove_subscription_def split: option.split)

lemma poll_step_sel [simp]:
  "ms_count (poll_step r s) = ms_count s" "ms_store (poll_step r s) = ms_store s"
  "ms_monitor (poll_step r s) = ms_monitor s" "ms_closer (poll_step r s) = ms_closer s"
  "ms_stopper (poll_step r s) = ms_stopper s"
  by (simp_all add: poll_step_def set_poller_def split: prod.split option.split)

lemma set_poller_sel [simp]:
  "ms_count (set_poller r p s) = ms_count s" "ms_store (set_poller r p s) = ms_store s"
  "ms_monitor (set_poller r p s) = ms_monitor s" "ms_closer (set_poller r p s) = ms_closer s"
  "ms_stopper (set_poller r p s) = ms_stopper s" "ms_now (set_poller r p s) = ms_now s"
  "ms_poller (set_poller r p s) = (ms_poller s)(r := p)"
  by (simp_all add: set_poller_def)

lemma mon_step_count: "mon_step s a s' \<Longrightarrow> ms_count s \<le> ms_count s'"
  by (induction rule: mon_step.induct) (auto simp: set_stopper_def)

lemma close_done_gone:
  "mon_inv s \<Longrightarrow> ms_closer s = Waited \<or> ms_closer s = CloseDone \<Longrightarrow> r < ms_count s \<Longrightarrow>
   ms_poller s r = Gone"
  by (auto simp: mon_inv_def closer_inv_def accounted_def)

lemma mon_step_inv:
  assumes "mon_step s a s'" and "mon_inv s" and "ms_count s' < 2 ^ 64"
  shows "mon_inv s'"
  using assms
proof (induction rule: mon_step.induct)
  case (register s name opts sub m)
  then show ?case using mon_inv_add_tag [OF register(2,1)] by simp
next
  case (spawn r s)
  then show ?case by (simp add: mon_inv_spawn)
next
  case (handler_stop s r e q)
  let ?s = "if ms_stopper s q = Unstopped then stop_begin q s else s"
  have "mon_inv ?s"
    using handler_stop by (simp add: mon_inv_stop_begin split: if_splits)
  then show ?case by (rule mon_inv_move) (use handler_stop(1) in \<open>simp_all split: if_splits\<close>)
next
  case (send s r e)
  then show ?case
    using mon_inv_move [of s r Selecting] mon_inv_frame(4) [where s = "set_poller r Selecting s"] by simp
next
  case (send_closed s r e)
  then show ?case
    using close_done_gone [of s r] poller_count [of s r] by (auto simp: mon_inv_def closer_inv_def)
next
  case (wg_done s r)
  then show ?case using mon_inv_wg_done(2) [OF wg_done(3,1)] by simp
next
  case (wg_negative s r)
  then show ?case using mon_inv_wg_done(1) [of s r] by simp
next
  case (stop_call s r)
  then show ?case by (simp add: mon_inv_stop_begin)
next
  case (stop_signal s r q)
  then have "q = r" using stopper_own [of s r q] by simp
  then have "mon_inv (set_stopper r (Joining q) s)"
    by (intro mon_inv_stopper) (use stop_signal in simp_all)
  then show ?case by simp
next
  case (stop_return s r q)
  then have "q = r" using stopper_own [of s r q] by simp
  then show ?case by (intro mon_inv_stopper) (use stop_return in simp_all)
qed (auto simp: mon_inv_poll mon_inv_move mon_inv_close_call mon_inv_close_take
      mon_inv_close_signal mon_inv_close_join mon_inv_close_wait mon_inv_close_events)

interpretation mon: step_invariant mon_step mon_inv "\<lambda>s. ms_count s < 2 ^ 64"
proof unfold_locales
  show "mon_inv s'" if "mon_step s a s'" "mon_inv s" "ms_count s' < 2 ^ 64"
    for s s' :: "'a mon_system" and a
    using mon_step_inv that by blast
  show "ms_count s < 2 ^ 64" if "mon_step s a s'" "ms_count s' < 2 ^ 64"
    for s s' :: "'a mon_system" and a
    using mon_step_count [OF that(1)] that(2) by simp
qed

lemma start_inv:
  assumes "new_tag_monitor cl opts = Inr m"
  shows "mon_inv (start_monitor m now w)"
proof -
  have m: "tm_next_id m = 0" "tm_subs m = Map.empty" "\<not> tm_closed m" "\<not> tm_stop m"
    "\<not> tm_events_closed m" "tm_wg m = 0"
    using assms by (auto simp: new_tag_monitor_def Let_def split: option.splits)
  show ?thesis using m by (simp add: start_monitor_def inv_defs)
qed

section \<open>What ends and what is stuck\<close>

lemma closed_step:
  assumes "mon_step s a s'" and "mon_inv s" and "ms_closer s = CloseDone"
  shows "ms_closer s' = CloseDone \<and> ms_count s' = ms_count s \<and>
    (\<exists>k. tm_events (ms_monitor s') = drop k (tm_events (ms_monitor s)))"
  using assms
proof (induction rule: mon_step.induct)
  case (register s name opts sub m)
  then show ?case using add_tag_ok [OF register(1)] by (simp add: mon_inv_def closer_inv_def)
next
  case (receive s e es)
  then show ?case by (auto intro: exI [of _ 1])
next
  case (send s r e)
  then show ?case by (simp add: mon_inv_def closer_inv_def)
qed (auto simp: set_stopper_def intro: exI [of _ 0])

lemma ended_step:
  "mon_step s a s' \<Longrightarrow> ended (ms_poller s r) \<Longrightarrow> ended (ms_poller s' r) \<and> a \<noteq> Send r \<or> ms_panicked s'"
  by (induction rule: mon_step.induct)
    (auto simp: set_stopper_def poll_step_def split: prod.splits option.splits if_splits)

text \<open>A poller that waits in its own \<open>Stop\<close>.\<close>

definition self_stop :: "nat \<Rightarrow> tag_event \<Rightarrow> 'w mon_system \<Rightarrow> bool" where
  "self_stop r e s \<longleftrightarrow> ms_poller s r = HandlerStops r e \<and>
     (ms_stopper s r = Removed r \<or> ms_stopper s r = Joining r)"

lemma self_stop_step: "mon_step s a s' \<Longrightarrow> self_stop r e s \<Longrightarrow> self_stop r e s'"
  unfolding self_stop_def
  by (induction rule: mon_step.induct)
    (auto simp: set_stopper_def poll_step_def stop_begin_def
      split: prod.splits option.splits if_splits)

text \<open>A poller that waits for room in the buffer.\<close>

definition blocked :: "nat \<Rightarrow> tag_event \<Rightarrow> 'w mon_system \<Rightarrow> bool" where
  "blocked r e s \<longleftrightarrow> ms_poller s r = EmitSelect e \<and> \<not> tm_stop (ms_monitor s) \<and>
     tm_capacity (ms_monitor s) \<le> length (tm_events (ms_monitor s)) \<and>
     \<not> tm_events_closed (ms_monitor s)"

lemma add_tag_channel:
  "add_tag ref name opts m = (Inr sub, m') \<Longrightarrow>
   tm_stop m' = tm_stop m \<and> tm_capacity m' = tm_capacity m \<and> tm_events m' = tm_events m \<and>
   tm_events_closed m' = tm_events_closed m"
  using add_tag_ok by fastforce

lemma blocked_step:
  assumes "mon_step s a s'" and "blocked r e s" and "mon_inv s" and "a \<noteq> Receive" and "a \<noteq> CloseCall"
  shows "blocked r e s' \<and> a \<noteq> StopReturn r"
  using assms
proof (induction rule: mon_step.induct)
  case (register s name opts sub m)
  then show ?case using add_tag_channel [OF register(1)] by (simp add: blocked_def)
next
  case (stop_return s q k)
  then show ?case using stopper_own [of s q k] by (auto simp: blocked_def set_stopper_def)
next
  case (close_events s)
  then show ?case by (auto simp: blocked_def mon_inv_def closer_inv_def)
next
  case (stop_call s q)
  then show ?case
    by (auto simp: blocked_def stop_begin_def set_stopper_def remove_subscription_def
        split: option.splits)
next
  case (handler_stop s q e' k)
  then show ?case
    by (auto simp: blocked_def stop_begin_def set_stopper_def remove_subscription_def
        split: option.splits)
qed (auto simp: blocked_def set_stopper_def poll_step_def split: prod.splits option.splits if_splits)

text \<open>The events in the buffer and in the hands of the pollers say where they are from.\<close>

fun held_event :: "poller \<Rightarrow> tag_event option" where
  "held_event (Handling e) = Some e"
| "held_event (HandlerStops q e) = Some e"
| "held_event (EmitCheck e) = Some e"
| "held_event (EmitSelect e) = Some e"
| "held_event _ = None"

definition event_of :: "'w mon_system \<Rightarrow> nat \<Rightarrow> tag_event \<Rightarrow> bool" where
  "event_of s r e \<longleftrightarrow> te_id e = ref_id r \<and> sn_name (te_snapshot e) = ts_name (ms_store s r)"

definition events_inv :: "'w mon_system \<Rightarrow> bool" where
  "events_inv s \<longleftrightarrow>
     (\<forall>r e. held_event (ms_poller s r) = Some e \<longrightarrow> event_of s r e) \<and>
     (\<forall>e \<in> set (tm_events (ms_monitor s)). \<exists>r < ms_count s. event_of s r e)"

lemma poll_step_events:
  assumes "mon_inv s" and "events_inv s" and "ms_poller s r \<noteq> Unspawned"
  shows "events_inv (poll_step r s)"
proof -
  have id: "ts_id (ms_store s r) = ref_id r"
    using assms(1) poller_count [OF assms(1,3)] by (simp add: mon_inv_def ids_inv_def)
  obtain e c w where p: "poll (tm_reader (ms_monitor s)) (ms_store s r) (ms_now s) (ms_world s) =
    ((e, c), w)" by (metis surj_pair)
  show ?thesis
    using assms(2) poll_names [OF p] id
    by (cases c) (auto simp: poll_step_def p events_inv_def event_of_def)
qed

lemma events_inv_move:
  "events_inv s \<Longrightarrow> held_event p = None \<or> held_event p = held_event (ms_poller s r) \<Longrightarrow>
   events_inv (set_poller r p s)"
  by (auto simp: events_inv_def event_of_def)

lemma events_inv_cong:
  "ms_poller s' = ms_poller s \<Longrightarrow> ms_store s' = ms_store s \<Longrightarrow> ms_count s' = ms_count s \<Longrightarrow>
   tm_events (ms_monitor s') = tm_events (ms_monitor s) \<Longrightarrow> events_inv s' = events_inv s"
  by (simp add: events_inv_def event_of_def)

lemma events_step:
  assumes "mon_step s a s'" and "mon_inv s" and "events_inv s"
  shows "events_inv s'"
  using assms
proof (induction rule: mon_step.induct)
  case (register s name opts sub m)
  let ?s = "s\<lparr>ms_monitor := m, ms_store := (ms_store s)(ms_count s := sub), ms_count := Suc (ms_count s)\<rparr>"
  have none: "held_event (ms_poller s (ms_count s)) = None"
    using register(2) by (simp add: mon_inv_def live_inv_def)
  have old: "event_of ?s r e" if "event_of s r e" "r \<noteq> ms_count s" for r e
    using that by (simp add: event_of_def)
  have "event_of ?s r e" if "held_event (ms_poller s r) = Some e" for r e
    using old [of r e] that none register(3) by (cases "r = ms_count s") (auto simp: events_inv_def)
  moreover have "\<exists>r < Suc (ms_count s). event_of ?s r e" if e: "e \<in> set (tm_events (ms_monitor s))" for e
  proof -
    obtain r where r: "r < ms_count s" "event_of s r e"
      using register(3) e by (auto simp: events_inv_def)
    then have "event_of ?s r e" using old by blast
    then show ?thesis using r(1) less_SucI by blast
  qed
  ultimately show ?case
    using add_tag_channel [OF register(1)] by (simp add: events_inv_def)
next
  case (send s r e)
  then have "r < ms_count s" using poller_count [of s r] by simp
  then show ?case
    using send by (auto simp: events_inv_def event_of_def)
next
  case (receive s e es)
  then show ?case by (auto simp: events_inv_def event_of_def)
next
  case (handler_stop s r e q)
  have "events_inv (if ms_stopper s q = Unstopped then stop_begin q s else s)"
    using handler_stop(4) events_inv_cong [of "stop_begin q s" s] by simp
  then show ?case by (rule events_inv_move) (use handler_stop(1) in simp)
next
  case (stop_call s r)
  then show ?case using events_inv_cong [of "stop_begin r s" s] by simp
qed (auto simp: poll_step_events events_inv_move
      intro: events_inv_cong [THEN iffD2, rotated 4]
      | simp add: events_inv_def event_of_def set_stopper_def)+

section \<open>Example runs\<close>

text \<open>
  A monitor with room for one event and a tag that always reads as an INT, after \<open>AddTag\<close>.
\<close>

definition demo_monitor :: "unit tag_monitor" where
  "demo_monitor =
     \<lparr>tm_reader = (\<lambda>_ w. (Inr [0xC3, 0, 7, 0], w)), tm_subs = Map.empty, tm_closed = False,
      tm_next_id = 0, tm_stop = False, tm_events = [], tm_capacity = 1, tm_events_closed = False,
      tm_wg = 0\<rparr>"

definition demo_sub :: "unit tag_handler option \<Rightarrow> bool \<Rightarrow> unit tag_subscription" where
  "demo_sub h b =
     \<lparr>ts_id = 1, ts_name = [65], ts_frequency = 500 * 10 ^ 6, ts_handler = h,
      ts_refreshable = None, ts_immediate = b\<rparr>"

definition demo_options :: "unit tag_handler option \<Rightarrow> bool \<Rightarrow> unit tag_option list" where
  "demo_options h b = (case h of None \<Rightarrow> [] | Some f \<Rightarrow> [WithHandler (Some f)]) @ [WithInitialRead b]"

lemma demo_monitor_new:
  "new_tag_monitor (Some (\<lambda>_ w. (Inr [0xC3, 0, 7, 0], w))) [WithEventBuffer 0] = Inr demo_monitor"
  by (simp add: new_tag_monitor_def demo_monitor_def)

definition demo_start :: "unit tag_handler option \<Rightarrow> bool \<Rightarrow> unit mon_system" where
  "demo_start h b = (start_monitor demo_monitor 0 ())
     \<lparr>ms_monitor := demo_monitor\<lparr>tm_next_id := 1, tm_subs := [1 \<mapsto> 0], tm_wg := 1\<rparr>,
      ms_store := (\<lambda>_. new_tag_subscription 0 [] default_tag_config)(0 := demo_sub h b),
      ms_count := 1, ms_poller := (\<lambda>_. Unspawned)(0 := Starting)\<rparr>"

lemma demo_start_run:
  "mon_run (start_monitor demo_monitor 0 ()) [AddTag [65] (demo_options h b), Spawn 0] (demo_start h b)"
proof -
  let ?s = "start_monitor demo_monitor 0 ()"
  have "add_tag (ms_count ?s) [65] (demo_options h b) (ms_monitor ?s) =
      (Inr (demo_sub h b), demo_monitor\<lparr>tm_next_id := 1, tm_subs := [1 \<mapsto> 0]\<rparr>)"
    by (cases h)
      (simp_all add: add_tag_def demo_options_def start_monitor_def default_tag_config_def Let_def
        new_tag_subscription_def demo_sub_def demo_monitor_def)
  from mon_run_Cons [OF mon_step.register [OF this] mon_run_Cons [OF mon_step.spawn mon_run_Nil]]
  show ?thesis
    by (simp add: start_monitor_def set_poller_def demo_start_def demo_monitor_def)
qed

lemma demo_start_sel [simp]:
  "ms_monitor (demo_start h b) = demo_monitor\<lparr>tm_next_id := 1, tm_subs := [1 \<mapsto> 0], tm_wg := 1\<rparr>"
  "ms_store (demo_start h b) 0 = demo_sub h b" "ms_count (demo_start h b) = 1"
  "ms_poller (demo_start h b) 0 = Starting" "ms_stopper (demo_start h b) 0 = Unstopped"
  "ms_closer (demo_start h b) = NotClosing" "ms_now (demo_start h b) = 0"
  "ms_panicked (demo_start h b) = False"
  by (simp_all add: demo_start_def start_monitor_def)

lemmas demo_simps = demo_monitor_def demo_sub_def stop_begin_def remove_subscription_def
  set_stopper_def

definition demo_event :: tag_event where
  "demo_event = \<lparr>te_id = 1, te_snapshot = \<lparr>sn_name = [65], sn_timestamp = 0, sn_type = 0xC3,
     sn_payload = [7, 0]\<rparr>, te_err = None, te_changed = True\<rparr>"

lemma demo_poll:
  assumes "tm_reader (ms_monitor s) = tm_reader demo_monitor"
    and "ms_store s 0 = demo_sub h b" and "ms_now s = 0"
  shows "poll_step 0 s = set_poller 0 (if h = None then EmitCheck demo_event else Handling demo_event) s"
  using assms
  by (cases h) (simp_all add: poll_step_def poll_def poll_read_def demo_monitor_def demo_sub_def
      demo_event_def set_poller_def call_handler_def Let_def)

section \<open>Properties\<close>

text \<open>
  C5: in no interleaving of pollers, callers of \<open>AddTag\<close>, \<open>Stop\<close> and \<open>Close\<close> and the consumer does a
  poller send on the closed channel of events or the wait group become negative, so the monitor
  never panics (for fewer than 2^64 subscriptions); and when \<open>Close\<close> has returned, every
  poller is gone.
\<close>

theorem monitor_never_panics:
  assumes "new_tag_monitor cl opts = Inr m" and "mon_run (start_monitor m now w) as s"
    and "ms_count s < 2 ^ 64"
  shows "\<not> ms_panicked s \<and>
    (ms_closer s = CloseDone \<longrightarrow> (\<forall>r < ms_count s. ms_poller s r = Gone))"
  using mon.run_inv [OF assms(2) start_inv [OF assms(1)] assms(3)] close_done_gone [of s]
  by (auto simp: mon_inv_def)

theorem monitor_never_panics_witness:
  "mon_run (start_monitor demo_monitor 0 ()) [AddTag [65] (demo_options None True), Spawn 0]
     (demo_start None True) \<and> \<not> ms_panicked (demo_start None True)"
  using monitor_never_panics [OF demo_monitor_new demo_start_run [of None True]] demo_start_run
  by (simp add: demo_start_def)

text \<open>
  C26: after \<open>Close\<close> has returned nothing more happens but that the consumer drains the buffer: no
  subscription is added, and the events left are taken from those that were there, in order.
\<close>

theorem closed_monitor_is_silent:
  assumes "new_tag_monitor cl opts = Inr m" and "mon_run (start_monitor m now w) as s"
    and "ms_closer s = CloseDone" and "mon_run s bs s'" and "ms_count s' < 2 ^ 64"
  shows "ms_count s' = ms_count s \<and> ms_closer s' = CloseDone \<and>
    (\<exists>k. tm_events (ms_monitor s') = drop k (tm_events (ms_monitor s)))"
proof -
  have inv: "mon_inv s"
    by (rule mon.run_inv [OF assms(2) start_inv [OF assms(1)] mon.run_bounded [OF assms(4,5)]])
  let ?P = "\<lambda>t. ms_count t = ms_count s \<and> ms_closer t = CloseDone \<and>
    (\<exists>k. tm_events (ms_monitor t) = drop k (tm_events (ms_monitor s)))"
  have "?P s" using assms(3) by (auto intro: exI [of _ 0])
  moreover have "?P t' \<and> True" if "mon_step t a t'" "mon_inv t" "?P t" for t a t'
    using closed_step [OF that(1,2)] that(3) by (auto simp: drop_drop)
  ultimately show ?thesis
    using mon.run_keeps [OF assms(4) inv, of ?P "\<lambda>_. True"] assms(5) by blast
qed

theorem closed_monitor_is_silent_witness:
  "\<exists>s s'. mon_run (start_monitor demo_monitor 0 ()) ([AddTag [65] (demo_options None False), Spawn 0] @
       [Start 0, CloseCall, CloseTake [0], CloseSignal, Quit 0, CloseJoin, WgDone 0, CloseWait,
        CloseEvents]) s \<and>
     ms_closer s = CloseDone \<and> mon_run s [Advance 5] s' \<and> tm_events (ms_monitor s') = []"
proof -
  let ?s0 = "demo_start None False"
  let ?s1 = "set_poller 0 Selecting ?s0"
  let ?s2 = "?s1\<lparr>ms_closer := StopClosed, ms_monitor := (ms_monitor ?s1)\<lparr>tm_stop := True\<rparr>\<rparr>"
  let ?s3 = "?s2\<lparr>ms_closer := Stopping [0],
    ms_monitor := (ms_monitor ?s2)\<lparr>tm_closed := True, tm_subs := Map.empty\<rparr>\<rparr>"
  let ?s4 = "?s3\<lparr>ms_closer := Waiting 0 [], ms_stop_ch := (ms_stop_ch ?s3)(0 := True)\<rparr>"
  let ?s5 = "set_poller 0 Returned ?s4"
  let ?s6 = "?s5\<lparr>ms_closer := Stopping []\<rparr>"
  let ?s7 = "(set_poller 0 Gone ?s6)
    \<lparr>ms_monitor := (ms_monitor ?s6)\<lparr>tm_wg := tm_wg (ms_monitor ?s6) - 1\<rparr>\<rparr>"
  let ?s8 = "?s7\<lparr>ms_closer := Waited\<rparr>"
  let ?s9 = "?s8\<lparr>ms_closer := CloseDone,
    ms_monitor := (ms_monitor ?s8)\<lparr>tm_events_closed := True\<rparr>\<rparr>"
  let ?s10 = "?s9\<lparr>ms_now := 5\<rparr>"
  have t1: "mon_step ?s0 (Start 0) ?s1" by (rule mon_step.start_wait) (simp_all add: demo_simps)
  have t2: "mon_step ?s1 CloseCall ?s2" by (rule mon_step.close_call) (simp add: demo_simps)
  have t3: "mon_step ?s2 (CloseTake [0]) ?s3" by (rule mon_step.close_take) (simp_all add: demo_simps)
  have t4: "mon_step ?s3 CloseSignal ?s4" by (rule mon_step.close_signal) simp
  have t5: "mon_step ?s4 (Quit 0) ?s5" by (rule mon_step.quit) (simp_all add: demo_simps)
  have t6: "mon_step ?s5 CloseJoin ?s6" by (rule mon_step.close_join [of _ 0 "[]"]) simp_all
  have t7: "mon_step ?s6 (WgDone 0) ?s7" by (rule mon_step.wg_done) (simp_all add: demo_simps)
  have t8: "mon_step ?s7 CloseWait ?s8" by (rule mon_step.close_wait) (simp_all add: demo_simps)
  have t9: "mon_step ?s8 CloseEvents ?s9" by (rule mon_step.close_events) simp
  have "mon_run ?s0 [Start 0, CloseCall, CloseTake [0], CloseSignal, Quit 0, CloseJoin,
      WgDone 0, CloseWait, CloseEvents] ?s9"
    by (rule mon_run_Cons [OF t1 mon_run_Cons [OF t2 mon_run_Cons [OF t3 mon_run_Cons [OF t4 mon_run_Cons [OF t5 mon_run_Cons [OF t6 mon_run_Cons [OF t7 mon_run_Cons [OF t8 mon_run_Cons [OF t9 mon_run_Nil]]]]]]]]])
  then have run: "mon_run (start_monitor demo_monitor 0 ()) ([AddTag [65] (demo_options None False), Spawn 0] @
       [Start 0, CloseCall, CloseTake [0], CloseSignal, Quit 0, CloseJoin, WgDone 0, CloseWait,
        CloseEvents]) ?s9" by (rule runs_append [OF demo_start_run])
  have fin: "ms_closer ?s9 = CloseDone" by simp
  have t10: "mon_step ?s9 (Advance 5) ?s10" by (rule mon_step.advance) (simp add: demo_simps set_poller_def)
  have rest: "mon_run ?s9 [Advance 5] ?s10"
    by (rule mon_run_Cons [OF t10 mon_run_Nil])
  have "ms_count ?s10 < 2 ^ 64" by (simp add: demo_simps)
  with closed_monitor_is_silent [OF demo_monitor_new run fin rest]
  have "tm_events (ms_monitor ?s10) = []" by (auto simp: demo_simps)
  with run fin rest show ?thesis by blast
qed

text \<open>
  C25: \<open>Stop\<close> means stopped: when it has returned, and \<open>Close\<close> has not taken over, the goroutine of
  the subscription has returned and no later step sends an event for it.
\<close>

theorem stopped_subscription_is_silent:
  assumes "new_tag_monitor cl opts = Inr m" and "mon_run (start_monitor m now w) as s"
    and "ms_stopper s r = Stopped" and "\<not> tm_closed (ms_monitor s)"
    and "mon_run s bs s'" and "ms_count s' < 2 ^ 64"
  shows "ended (ms_poller s' r) \<and> Send r \<notin> set bs"
proof -
  have inv: "mon_inv s"
    by (rule mon.run_inv [OF assms(2) start_inv [OF assms(1)] mon.run_bounded [OF assms(5,6)]])
  then have "ended (ms_poller s r)" using assms(3,4) by (auto simp: mon_inv_def stop_inv_def)
  moreover have "ended (ms_poller t' r) \<and> a \<noteq> Send r"
    if "mon_step t a t'" "mon_inv t'" "ended (ms_poller t r)" for t a t'
    using ended_step [OF that(1,3)] that(2) by (simp add: mon_inv_def)
  ultimately show ?thesis
    using mon.run_keeps [OF assms(5) inv, of "\<lambda>t. ended (ms_poller t r)" "\<lambda>a. a \<noteq> Send r"] assms(6)
    by blast
qed

theorem stopped_subscription_is_silent_witness:
  "\<exists>s s'. mon_run (start_monitor demo_monitor 0 ()) ([AddTag [65] (demo_options None False), Spawn 0] @
       [Start 0, StopCall 0, StopSignal 0, Quit 0, StopReturn 0]) s \<and>
     mon_run s [WgDone 0] s' \<and> ended (ms_poller s' 0)"
proof -
  let ?s0 = "demo_start None False"
  let ?s1 = "set_poller 0 Selecting ?s0"
  let ?s2 = "stop_begin 0 ?s1"
  let ?s3 = "(set_stopper 0 (Joining 0) ?s2)\<lparr>ms_stop_ch := (ms_stop_ch ?s2)(0 := True)\<rparr>"
  let ?s4 = "set_poller 0 Returned ?s3"
  let ?s5 = "set_stopper 0 Stopped ?s4"
  let ?s6 = "(set_poller 0 Gone ?s5)
    \<lparr>ms_monitor := (ms_monitor ?s5)\<lparr>tm_wg := tm_wg (ms_monitor ?s5) - 1\<rparr>\<rparr>"
  have t1: "mon_step ?s0 (Start 0) ?s1" by (rule mon_step.start_wait) (simp_all add: demo_simps)
  have t2: "mon_step ?s1 (StopCall 0) ?s2" by (rule mon_step.stop_call) (simp_all add: demo_simps)
  have t3: "mon_step ?s2 (StopSignal 0) ?s3" by (rule mon_step.stop_signal) (simp add: demo_simps)
  have t4: "mon_step ?s3 (Quit 0) ?s4" by (rule mon_step.quit) (simp_all add: demo_simps)
  have t5: "mon_step ?s4 (StopReturn 0) ?s5"
    by (rule mon_step.stop_return [of _ 0 0]) (simp_all add: demo_simps)
  have "mon_run ?s0 [Start 0, StopCall 0, StopSignal 0, Quit 0, StopReturn 0] ?s5"
    by (rule mon_run_Cons [OF t1 mon_run_Cons [OF t2 mon_run_Cons [OF t3 mon_run_Cons [OF t4 mon_run_Cons [OF t5 mon_run_Nil]]]]])
  then have run: "mon_run (start_monitor demo_monitor 0 ()) ([AddTag [65] (demo_options None False), Spawn 0] @
       [Start 0, StopCall 0, StopSignal 0, Quit 0, StopReturn 0]) ?s5"
    by (rule runs_append [OF demo_start_run])
  have t6: "mon_step ?s5 (WgDone 0) ?s6" by (rule mon_step.wg_done) (simp_all add: demo_simps)
  have rest: "mon_run ?s5 [WgDone 0] ?s6"
    by (rule mon_run_Cons [OF t6 mon_run_Nil])
  have s: "ms_stopper ?s5 0 = Stopped" "\<not> tm_closed (ms_monitor ?s5)" "ms_count ?s6 < 2 ^ 64"
    by (simp_all add: demo_simps)
  show ?thesis
    using stopped_subscription_is_silent [OF demo_monitor_new run s(1,2) rest s(3)] run rest by blast
qed

text \<open>
  C36: a handler that stops its own subscription stops for good: \<open>Stop\<close> waits for the goroutine
  that is waiting in it, so in every continuation the handler never returns, and \<open>Close\<close> never
  returns either.
\<close>

theorem self_stop_deadlocks:
  assumes "new_tag_monitor cl opts = Inr m" and "mon_run (start_monitor m now w) as s"
    and "ms_poller s r = Handling e" and "ms_stopper s r = Unstopped" and "\<not> tm_closed (ms_monitor s)"
    and "mon_step s (HandlerStop r r) s1" and "mon_run s1 bs s'" and "ms_count s' < 2 ^ 64"
  shows "ms_poller s' r = HandlerStops r e \<and> ms_stopper s' r \<noteq> Stopped \<and> ms_closer s' \<noteq> CloseDone"
proof -
  have c1: "ms_count s1 < 2 ^ 64" by (rule mon.run_bounded [OF assms(7,8)])
  then have c: "ms_count s < 2 ^ 64" using mon_step_count [OF assms(6)] by simp
  have inv: "mon_inv s" by (rule mon.run_inv [OF assms(2) start_inv [OF assms(1)] c])
  have inv1: "mon_inv s1" by (rule mon_step_inv [OF assms(6) inv c1])
  have "ms_poller s1 r = HandlerStops r e \<and> ms_stopper s1 r \<noteq> Unstopped \<and> \<not> tm_closed (ms_monitor s1)"
    using assms(6)
    by (cases rule: mon_step.cases)
      (use assms(3,4,5) in \<open>auto simp: stop_begin_def set_stopper_def remove_subscription_def
        split: option.splits\<close>)
  then have "self_stop r e s1"
    using inv1 by (cases "ms_stopper s1 r") (auto simp: self_stop_def mon_inv_def stop_inv_def)
  then have stuck: "self_stop r e s'"
    using mon.run_keeps [OF assms(7) inv1, of "self_stop r e" "\<lambda>_. True"] assms(8) self_stop_step
    by blast
  have "mon_inv s'" by (rule mon.run_inv [OF assms(7) inv1 assms(8)])
  then show ?thesis
    using stuck poller_count [of s' r] close_done_gone [of s' r] by (auto simp: self_stop_def)
qed

theorem self_stop_deadlocks_witness:
  "\<exists>s s1 s'. mon_run (start_monitor demo_monitor 0 ())
       ([AddTag [65] (demo_options (Some (\<lambda>_ _. ())) True), Spawn 0] @ [Start 0]) s \<and>
     mon_step s (HandlerStop 0 0) s1 \<and> mon_run s1 [StopSignal 0] s' \<and>
     ms_poller s' 0 = HandlerStops 0 demo_event"
proof -
  let ?s0 = "demo_start (Some (\<lambda>_ _. ())) True"
  let ?t = "poll_step 0 ?s0"
  let ?s1 = "set_poller 0 (HandlerStops 0 demo_event) (stop_begin 0 ?t)"
  let ?tend = "(set_stopper 0 (Joining 0) ?s1)\<lparr>ms_stop_ch := (ms_stop_ch ?s1)(0 := True)\<rparr>"
  have poll: "?t = set_poller 0 (Handling demo_event) ?s0"
    using demo_poll [where s = ?s0 and h = "Some (\<lambda>_ _. ())"]
    by (simp add: demo_monitor_def)
  have t1: "mon_step ?s0 (Start 0) ?t" by (rule mon_step.start_poll) (simp_all add: demo_simps)
  have "mon_run ?s0 [Start 0] ?t"
    by (rule mon_run_Cons [OF t1 mon_run_Nil])
  then have run: "mon_run (start_monitor demo_monitor 0 ())
      ([AddTag [65] (demo_options (Some (\<lambda>_ _. ())) True), Spawn 0] @ [Start 0]) ?t"
    by (rule runs_append [OF demo_start_run])
  have h: "ms_poller ?t 0 = Handling demo_event" "ms_stopper ?t 0 = Unstopped"
    "\<not> tm_closed (ms_monitor ?t)" "ms_count ?tend < 2 ^ 64"
    by (simp_all add: poll demo_simps)
  have step: "mon_step ?t (HandlerStop 0 0) ?s1"
    using mon_step.handler_stop [OF h(1), of 0] h(1,2) by simp
  have t2: "mon_step ?s1 (StopSignal 0) ?tend" by (rule mon_step.stop_signal) (simp add: demo_simps poll)
  have rest: "mon_run ?s1 [StopSignal 0] ?tend"
    by (rule mon_run_Cons [OF t2 mon_run_Nil])
  show ?thesis
    using self_stop_deadlocks [OF demo_monitor_new run h(1-3) step rest h(4)] run step rest by blast
qed

text \<open>
  A full buffer holds up \<open>Stop\<close>: a poller that has an event to send waits until the consumer
  receives or the monitor is closed, and until then no \<open>Stop\<close> of its subscription returns, so a
  consumer that calls \<open>Stop\<close> before it has drained the channel waits for itself.
\<close>

theorem full_buffer_blocks_stop:
  assumes "new_tag_monitor cl opts = Inr m" and "mon_run (start_monitor m now w) as s"
    and "ms_poller s r = EmitSelect e" and "\<not> tm_stop (ms_monitor s)"
    and "tm_capacity (ms_monitor s) \<le> length (tm_events (ms_monitor s))"
    and "mon_run s bs s'" and "Receive \<notin> set bs" and "CloseCall \<notin> set bs" and "ms_count s' < 2 ^ 64"
  shows "ms_poller s' r = EmitSelect e \<and> StopReturn r \<notin> set bs"
proof -
  have inv: "mon_inv s"
    by (rule mon.run_inv [OF assms(2) start_inv [OF assms(1)] mon.run_bounded [OF assms(6,9)]])
  then have "blocked r e s"
    using assms(3,4,5) by (auto simp: blocked_def mon_inv_def closer_inv_def)
  moreover have "blocked r e t' \<and> a \<noteq> StopReturn r"
    if "mon_step t a t'" "a \<in> set bs" "mon_inv t" "blocked r e t" for t a t'
    by (rule blocked_step [OF that(1,4,3)]) (use that(2) assms(7,8) in auto)
  ultimately have "blocked r e s' \<and> (\<forall>a \<in> set bs. a \<noteq> StopReturn r)"
    using mon.run_keeps [OF assms(6) inv, of "blocked r e" "\<lambda>a. a \<noteq> StopReturn r"] assms(9) by blast
  then show ?thesis by (auto simp: blocked_def)
qed

theorem full_buffer_blocks_stop_witness:
  "\<exists>s s'. mon_run (start_monitor demo_monitor 0 ()) ([AddTag [65] (demo_options None True), Spawn 0] @
       [Start 0, CheckEmit 0, Send 0, Tick 0, CheckEmit 0]) s \<and>
     mon_run s [StopCall 0, StopSignal 0] s' \<and> ms_poller s' 0 = EmitSelect demo_event"
proof -
  let ?s0 = "demo_start None True"
  let ?s1 = "poll_step 0 ?s0"
  let ?s2 = "set_poller 0 (EmitSelect demo_event) ?s1"
  let ?s3 = "(set_poller 0 Selecting ?s2)\<lparr>ms_monitor := (ms_monitor ?s2)
    \<lparr>tm_events := tm_events (ms_monitor ?s2) @ [demo_event]\<rparr>\<rparr>"
  let ?s4 = "poll_step 0 ?s3"
  let ?t = "set_poller 0 (EmitSelect demo_event) ?s4"
  let ?s6 = "stop_begin 0 ?t"
  let ?tend = "(set_stopper 0 (Joining 0) ?s6)\<lparr>ms_stop_ch := (ms_stop_ch ?s6)(0 := True)\<rparr>"
  have p1: "?s1 = set_poller 0 (EmitCheck demo_event) ?s0"
    using demo_poll [where s = ?s0 and h = None] by (simp add: demo_monitor_def)
  have p4: "?s4 = set_poller 0 (EmitCheck demo_event) ?s3"
    using demo_poll [where s = ?s3 and h = None and b = True]
    by (simp add: p1 demo_monitor_def)
  have t1: "mon_step ?s0 (Start 0) ?s1" by (rule mon_step.start_poll) (simp_all add: demo_simps)
  have t2: "mon_step ?s1 (CheckEmit 0) ?s2"
    using mon_step.check_emit [of ?s1 0 demo_event] by (simp add: p1 demo_simps)
  have t3: "mon_step ?s2 (Send 0) ?s3" by (rule mon_step.send) (simp_all add: demo_simps)
  have t4: "mon_step ?s3 (Tick 0) ?s4" by (rule mon_step.tick) simp
  have e4: "ms_poller ?s4 0 = EmitCheck demo_event" unfolding p4 by simp
  have stop4: "tm_stop (ms_monitor ?s4) = False" by (simp add: demo_simps)
  have t5: "mon_step ?s4 (CheckEmit 0) ?t"
    using mon_step.check_emit [OF e4] stop4 by (simp only: if_False)
  have "mon_run ?s0 [Start 0, CheckEmit 0, Send 0, Tick 0, CheckEmit 0] ?t"
    by (rule mon_run_Cons [OF t1 mon_run_Cons [OF t2 mon_run_Cons [OF t3 mon_run_Cons [OF t4 mon_run_Cons [OF t5 mon_run_Nil]]]]])
  then have run: "mon_run (start_monitor demo_monitor 0 ())
      ([AddTag [65] (demo_options None True), Spawn 0] @
       [Start 0, CheckEmit 0, Send 0, Tick 0, CheckEmit 0]) ?t"
    by (rule runs_append [OF demo_start_run])
  have t6: "mon_step ?t (StopCall 0) ?s6" by (rule mon_step.stop_call) (simp_all add: demo_simps)
  have t7: "mon_step ?s6 (StopSignal 0) ?tend"
    by (rule mon_step.stop_signal) (simp add: demo_simps)
  have rest: "mon_run ?t [StopCall 0, StopSignal 0] ?tend"
    by (rule mon_run_Cons [OF t6 mon_run_Cons [OF t7 mon_run_Nil]])
  have h: "ms_poller ?t 0 = EmitSelect demo_event" "\<not> tm_stop (ms_monitor ?t)"
    "tm_capacity (ms_monitor ?t) \<le> length (tm_events (ms_monitor ?t))" "ms_count ?tend < 2 ^ 64"
    by (simp_all add: demo_simps)
  have quiet: "Receive \<notin> set [StopCall 0, StopSignal 0]" "CloseCall \<notin> set [StopCall 0, StopSignal 0]"
    by simp_all
  show ?thesis
    using full_buffer_blocks_stop [OF demo_monitor_new run h(1-3) rest quiet h(4)] run rest by blast
qed

text \<open>
  Every event in the channel carries the identifier and the tag name of a subscription, and
  identifiers tell subscriptions apart.
\<close>

theorem events_identified:
  assumes "new_tag_monitor cl opts = Inr m" and "mon_run (start_monitor m now w) as s"
    and "ms_count s < 2 ^ 64"
  shows "(\<forall>e \<in> set (tm_events (ms_monitor s)). \<exists>r < ms_count s.
      te_id e = ts_id (ms_store s r) \<and> sn_name (te_snapshot e) = ts_name (ms_store s r)) \<and>
    inj_on (\<lambda>r. ts_id (ms_store s r)) {..< ms_count s}"
proof -
  have m: "tm_events m = []"
    using assms(1) by (auto simp: new_tag_monitor_def Let_def split: option.splits)
  have inv: "mon_inv s" by (rule mon.run_inv [OF assms(2) start_inv [OF assms(1)] assms(3)])
  have "events_inv (start_monitor m now w)" by (simp add: start_monitor_def events_inv_def m)
  then have "events_inv s"
    using mon.run_keeps [OF assms(2) start_inv [OF assms(1)], of events_inv "\<lambda>_. True"] assms(3)
      events_step by blast
  moreover have id: "ts_id (ms_store s r) = ref_id r" if "r < ms_count s" for r
    using inv that by (simp add: mon_inv_def ids_inv_def)
  moreover have "inj_on (\<lambda>r. ts_id (ms_store s r)) {..< ms_count s}"
    by (rule inj_onI) (use id ref_id_inj assms(3) in simp)
  ultimately show ?thesis unfolding events_inv_def event_of_def by metis
qed

theorem events_identified_witness:
  "ts_id (ms_store (demo_start None True) 0) = 1 \<and>
   inj_on (\<lambda>r. ts_id (ms_store (demo_start None True) r)) {..< 1}"
  using events_identified [OF demo_monitor_new demo_start_run [of None True]]
  by (simp add: demo_start_def demo_sub_def)

end
