(* ===== verification/Write_Tool.thy ===== *)
theory Write_Tool
  imports Tools
begin

text \<open>
  The tool that writes a tag, \<open>cmd/write_tag_single/main.go\<close>: it parses the text of a value as the
  type it was told, connects, writes the tag and closes.
\<close>

text \<open>
  Floating point text is given: \<open>strconv.ParseFloat\<close> for 32 and 64 bits, as IEEE bits (for 32 bits
  the result is exactly representable, so the conversion to float32 does not change it), and the
  verb \<open>%v\<close>.
\<close>

record float_text =
  ft_parse32 :: "bytes \<Rightarrow> go_error + u32"
  ft_parse64 :: "bytes \<Rightarrow> go_error + u64"
  ft_show32 :: "u32 \<Rightarrow> bytes"
  ft_show64 :: "u64 \<Rightarrow> bytes"

text \<open>
  The switch over the type.  \<open>None\<close> is the default branch.  Signed values are parsed as int64 and
  converted to the width of the type, \<open>int8(v)\<close> and so on.
\<close>

definition parse_value :: "float_text \<Rightarrow> bytes \<Rightarrow> bytes \<Rightarrow> (go_error + go_value) option" where
  "parse_value ft typeStr valueStr =
     (if typeStr = lit ''BOOL'' then
        Some (map_sum id (\<lambda>v. Basic (GBool v)) (parse_bool valueStr))
      else if typeStr = lit ''SINT'' then
        Some (map_sum id (\<lambda>v. Basic (GInt8 (word_of_int v))) (parse_int 8 valueStr))
      else if typeStr = lit ''INT'' then
        Some (map_sum id (\<lambda>v. Basic (GInt16 (word_of_int v))) (parse_int 16 valueStr))
      else if typeStr = lit ''DINT'' then
        Some (map_sum id (\<lambda>v. Basic (GInt32 (word_of_int v))) (parse_int 32 valueStr))
      else if typeStr = lit ''LINT'' then
        Some (map_sum id (\<lambda>v. Basic (GInt64 (word_of_int v))) (parse_int 64 valueStr))
      else if typeStr = lit ''USINT'' then
        Some (map_sum id (\<lambda>v. Basic (GUint8 (word_of_nat v))) (parse_uint 8 valueStr))
      else if typeStr = lit ''UINT'' then
        Some (map_sum id (\<lambda>v. Basic (GUint16 (word_of_nat v))) (parse_uint 16 valueStr))
      else if typeStr = lit ''UDINT'' then
        Some (map_sum id (\<lambda>v. Basic (GUint32 (word_of_nat v))) (parse_uint 32 valueStr))
      else if typeStr = lit ''ULINT'' then
        Some (map_sum id (\<lambda>v. Basic (GUint64 (word_of_nat v))) (parse_uint 64 valueStr))
      else if typeStr = lit ''REAL'' then
        Some (map_sum id (\<lambda>v. Basic (GFloat32 v)) (ft_parse32 ft valueStr))
      else if typeStr = lit ''LREAL'' then
        Some (map_sum id (\<lambda>v. Basic (GFloat64 v)) (ft_parse64 ft valueStr))
      else if typeStr = lit ''STRING'' then Some (Inr (Basic (GString valueStr)))
      else None)"

text \<open>The verbs \<open>%v\<close> and \<open>%T\<close> of the value, for the log.\<close>

fun basic_text :: "float_text \<Rightarrow> go_basic \<Rightarrow> bytes" where
  "basic_text ft (GBool b) = bool_text b"
| "basic_text ft (GInt8 w) = dec_signed w"
| "basic_text ft (GInt16 w) = dec_signed w"
| "basic_text ft (GInt32 w) = dec_signed w"
| "basic_text ft (GInt64 w) = dec_signed w"
| "basic_text ft (GUint8 w) = dec_unsigned w"
| "basic_text ft (GUint16 w) = dec_unsigned w"
| "basic_text ft (GUint32 w) = dec_unsigned w"
| "basic_text ft (GUint64 w) = dec_unsigned w"
| "basic_text ft (GFloat32 w) = ft_show32 ft w"
| "basic_text ft (GFloat64 w) = ft_show64 ft w"
| "basic_text ft (GInt w) = dec_signed w"
| "basic_text ft (GString s) = s"

fun basic_type_text :: "go_basic \<Rightarrow> string" where
  "basic_type_text (GBool b) = ''bool''"
| "basic_type_text (GInt8 w) = ''int8''"
| "basic_type_text (GInt16 w) = ''int16''"
| "basic_type_text (GInt32 w) = ''int32''"
| "basic_type_text (GInt64 w) = ''int64''"
| "basic_type_text (GUint8 w) = ''uint8''"
| "basic_type_text (GUint16 w) = ''uint16''"
| "basic_type_text (GUint32 w) = ''uint32''"
| "basic_type_text (GUint64 w) = ''uint64''"
| "basic_type_text (GFloat32 w) = ''float32''"
| "basic_type_text (GFloat64 w) = ''float64''"
| "basic_type_text (GInt w) = ''int''"
| "basic_type_text (GString s) = ''string''"

text \<open>All values that the tool parses are basic ones.\<close>

definition value_text :: "float_text \<Rightarrow> go_value \<Rightarrow> bytes" where
  "value_text ft v =
     (case v of Basic b \<Rightarrow> basic_text ft b @ lit '' ('' @ lit (basic_type_text b) @ lit '')''
      | _ \<Rightarrow> [])"

definition write_tag_body :: "'c host \<Rightarrow> float_text \<Rightarrow> bytes \<Rightarrow> go_value \<Rightarrow> 'c tool_body" where
  "write_tag_body h ft tagName v c =
     (let out = infof ConsoleLogger (lit ''Writing tag '' @ quoted tagName @ lit '' with value '' @
                  value_text ft v @ lit ''...'')
      in (case write_tag (tcp_transport (ho_net h)) c tagName v of
            (Some e, c') \<Rightarrow>
              (out @ errorf ConsoleLogger (lit ''Failed to write tag: '' @ ho_error h e), Some 1, c')
          | (None, c') \<Rightarrow> (out @ infof ConsoleLogger (lit ''Write success!''), None, c')))"

definition write_tag_single_main ::
  "'c host \<Rightarrow> float_text \<Rightarrow> string \<Rightarrow> bytes \<Rightarrow> bytes \<Rightarrow> bytes \<Rightarrow> 'c tool_run" where
  "write_tag_single_main h ft address tagName valueStr typeStr =
     (if tagName = [] \<or> valueStr = [] \<or> typeStr = []
      then \<lparr>tl_exit = 1, tl_out = [], tl_conn = None\<rparr>
      else
        let out = infof ConsoleLogger (connecting address)
        in (case parse_value ft typeStr valueStr of
              None \<Rightarrow>
                \<lparr>tl_exit = 1,
                 tl_out = out @ errorf ConsoleLogger (lit ''Unsupported type: '' @ typeStr),
                 tl_conn = None\<rparr>
            | Some (Inl e) \<Rightarrow>
                \<lparr>tl_exit = 1,
                 tl_out = out @ errorf ConsoleLogger (lit ''Failed to parse value '' @ quoted valueStr @
                            lit '' as '' @ typeStr @ lit '': '' @ ho_error h e),
                 tl_conn = None\<rparr>
            | Some (Inr v) \<Rightarrow>
                run_client_tool h address out (connect_failed h ConsoleLogger)
                  (write_tag_body h ft tagName v)))"

section \<open>The types of the tool\<close>

text \<open>The integer types: name, signedness, width.\<close>

definition int_types :: "(string \<times> bool \<times> nat) list" where
  "int_types = [(''SINT'', True, 8), (''INT'', True, 16), (''DINT'', True, 32), (''LINT'', True, 64),
     (''USINT'', False, 8), (''UINT'', False, 16), (''UDINT'', False, 32), (''ULINT'', False, 64)]"

text \<open>The number that a numeral denotes: digits, behind a sign where signs are allowed.\<close>

definition numeral_value :: "bool \<Rightarrow> bytes \<Rightarrow> int option" where
  "numeral_value sg s =
     (let neg = (sg \<and> s \<noteq> [] \<and> hd s = 45);
          ds = (if sg \<and> s \<noteq> [] \<and> (hd s = 45 \<or> hd s = 43) then tl s else s)
      in if ds = [] \<or> \<not> list_all is_decimal ds then None
         else Some (if neg then - int (digits_value 0 ds) else int (digits_value 0 ds)))"

definition in_range :: "bool \<Rightarrow> nat \<Rightarrow> int \<Rightarrow> bool" where
  "in_range sg k i \<longleftrightarrow>
     (if sg then - (2 ^ (k - 1)) \<le> i \<and> i < 2 ^ (k - 1) else 0 \<le> i \<and> i < 2 ^ k)"

fun basic_int :: "go_basic \<Rightarrow> int option" where
  "basic_int (GInt8 w) = Some (sint w)"
| "basic_int (GInt16 w) = Some (sint w)"
| "basic_int (GInt32 w) = Some (sint w)"
| "basic_int (GInt64 w) = Some (sint w)"
| "basic_int (GUint8 w) = Some (uint w)"
| "basic_int (GUint16 w) = Some (uint w)"
| "basic_int (GUint32 w) = Some (uint w)"
| "basic_int (GUint64 w) = Some (uint w)"
| "basic_int _ = None"

lemma parse_uint_numeral:
  "parse_uint k s = Inr n \<longleftrightarrow> numeral_value False s = Some (int n) \<and> in_range False k (int n)"
proof -
  have "int n < 2 ^ k \<longleftrightarrow> n < 2 ^ k" by (metis of_nat_less_iff of_nat_numeral of_nat_power)
  then show ?thesis by (auto simp: parse_uint_Inr numeral_value_def in_range_def)
qed

lemma pow_int_nat:
  "int n < 2 ^ k \<longleftrightarrow> n < 2 ^ k" "int n \<le> 2 ^ k \<longleftrightarrow> n \<le> 2 ^ k"
  by (metis of_nat_less_iff of_nat_numeral of_nat_power, metis of_nat_le_iff of_nat_numeral of_nat_power)

lemma half_range: "0 < k \<Longrightarrow> n \<le> 2 ^ (k - 1) \<Longrightarrow> n < (2 :: nat) ^ k"
  by (cases k) (auto simp: less_le_trans le_less_trans)

lemma in_range_signed:
  "in_range True k (int n) \<longleftrightarrow> n < 2 ^ (k - 1)"
  "in_range True k (- int n) \<longleftrightarrow> n \<le> 2 ^ (k - 1)"
proof -
  have pos: "(0 :: int) < 2 ^ (k - 1)" by simp
  then have "- (2 ^ (k - 1)) \<le> int n" "- int n < 2 ^ (k - 1)" by linarith+
  then show "in_range True k (int n) \<longleftrightarrow> n < 2 ^ (k - 1)"
    "in_range True k (- int n) \<longleftrightarrow> n \<le> 2 ^ (k - 1)"
    using pow_int_nat [of n "k - 1"] by (simp_all add: in_range_def)
qed

lemma parse_int_numeral:
  assumes "0 < k"
  shows "parse_int k s = Inr i \<longleftrightarrow> numeral_value True s = Some i \<and> in_range True k i"
proof (cases "s = []")
  case False
  let ?ds = "if hd s = 43 \<or> hd s = 45 then tl s else s" and ?neg = "hd s = 45"
  let ?un = "digits_value 0 ?ds"
  have int: "parse_int k s = Inr i \<longleftrightarrow> (\<exists>un. parse_uint k ?ds = Inr un \<and>
      (if ?neg then un \<le> 2 ^ (k - 1) else un < 2 ^ (k - 1)) \<and>
      i = (if ?neg then - int un else int un))"
    using False by (auto simp: parse_int_def Let_def not_less not_le split: sum.split)
  have num: "numeral_value True s =
      (if ?ds = [] \<or> \<not> list_all is_decimal ?ds then None
       else Some (if ?neg then - int ?un else int ?un))"
    using False by (auto simp: numeral_value_def Let_def)
  have range: "in_range True k (if ?neg then - int ?un else int ?un) \<longleftrightarrow>
      (if ?neg then ?un \<le> 2 ^ (k - 1) else ?un < 2 ^ (k - 1))"
    by (simp add: in_range_signed)
  have "?un < 2 ^ k" if "if ?neg then ?un \<le> 2 ^ (k - 1) else ?un < 2 ^ (k - 1)"
    using that half_range [OF assms, of ?un] by (simp split: if_splits)
  then show ?thesis
    unfolding int num using range by (auto simp: parse_uint_Inr split: if_splits)
qed (simp add: parse_int_def numeral_value_def)

text \<open>Parsing as an integer type yields a value of that size whose number the text denotes.\<close>

lemma basic_int_words:
  "in_range True 8 i \<Longrightarrow> basic_int (GInt8 (word_of_int i)) = Some i"
  "in_range True 16 i \<Longrightarrow> basic_int (GInt16 (word_of_int i)) = Some i"
  "in_range True 32 i \<Longrightarrow> basic_int (GInt32 (word_of_int i)) = Some i"
  "in_range True 64 i \<Longrightarrow> basic_int (GInt64 (word_of_int i)) = Some i"
  "in_range False 8 (int n) \<Longrightarrow> basic_int (GUint8 (word_of_nat n)) = Some (int n)"
  "in_range False 16 (int n) \<Longrightarrow> basic_int (GUint16 (word_of_nat n)) = Some (int n)"
  "in_range False 32 (int n) \<Longrightarrow> basic_int (GUint32 (word_of_nat n)) = Some (int n)"
  "in_range False 64 (int n) \<Longrightarrow> basic_int (GUint64 (word_of_nat n)) = Some (int n)"
  by (simp_all add: in_range_def signed_of_int signed_take_bit_int_eq_self unsigned_of_nat
      take_bit_nat_eq_self nat_less_iff)

lemma lit_eq [simp]: "lit a = lit b \<longleftrightarrow> a = b"
  using inj_lit by (auto dest: injD)

lemma signed_branch:
  assumes "0 < k" and "\<And>i. in_range True k i \<Longrightarrow> basic_int (F i) = Some i"
    and "\<And>i. basic_size (F i) = Some n"
  shows "(\<exists>b. Some (map_sum id (\<lambda>v. Basic (F v)) (parse_int k s)) = Some (Inr (Basic b)) \<and>
           basic_int b = Some i \<and> basic_size b = Some n) \<longleftrightarrow>
    numeral_value True s = Some i \<and> in_range True k i"
proof -
  have "(\<exists>b. Some (map_sum id (\<lambda>v. Basic (F v)) (parse_int k s)) = Some (Inr (Basic b)) \<and>
           basic_int b = Some i \<and> basic_size b = Some n) \<longleftrightarrow>
      (\<exists>j. parse_int k s = Inr j \<and> basic_int (F j) = Some i)"
    using assms(3) by (cases "parse_int k s") auto
  also have "\<dots> \<longleftrightarrow> numeral_value True s = Some i \<and> in_range True k i"
    using assms(2) by (auto simp: parse_int_numeral [OF assms(1)])
  finally show ?thesis .
qed

lemma unsigned_branch:
  assumes "\<And>j. in_range False k (int j) \<Longrightarrow> basic_int (F j) = Some (int j)"
    and "\<And>j. basic_size (F j) = Some n"
  shows "(\<exists>b. Some (map_sum id (\<lambda>v. Basic (F v)) (parse_uint k s)) = Some (Inr (Basic b)) \<and>
           basic_int b = Some i \<and> basic_size b = Some n) \<longleftrightarrow>
    numeral_value False s = Some i \<and> in_range False k i"
proof -
  have "(\<exists>b. Some (map_sum id (\<lambda>v. Basic (F v)) (parse_uint k s)) = Some (Inr (Basic b)) \<and>
           basic_int b = Some i \<and> basic_size b = Some n) \<longleftrightarrow>
      (\<exists>j. parse_uint k s = Inr j \<and> basic_int (F j) = Some i)"
    using assms(2) by (cases "parse_uint k s") auto
  also have "\<dots> \<longleftrightarrow> numeral_value False s = Some i \<and> in_range False k i"
    using assms(1) by (auto simp: parse_uint_numeral in_range_def [of False] intro: exI [of _ "nat i"])
  finally show ?thesis .
qed

lemma parse_value_ints:
  "parse_value ft (lit ''SINT'') s =
     Some (map_sum id (\<lambda>v. Basic (GInt8 (word_of_int v))) (parse_int 8 s))"
  "parse_value ft (lit ''INT'') s =
     Some (map_sum id (\<lambda>v. Basic (GInt16 (word_of_int v))) (parse_int 16 s))"
  "parse_value ft (lit ''DINT'') s =
     Some (map_sum id (\<lambda>v. Basic (GInt32 (word_of_int v))) (parse_int 32 s))"
  "parse_value ft (lit ''LINT'') s =
     Some (map_sum id (\<lambda>v. Basic (GInt64 (word_of_int v))) (parse_int 64 s))"
  "parse_value ft (lit ''USINT'') s =
     Some (map_sum id (\<lambda>v. Basic (GUint8 (word_of_nat v))) (parse_uint 8 s))"
  "parse_value ft (lit ''UINT'') s =
     Some (map_sum id (\<lambda>v. Basic (GUint16 (word_of_nat v))) (parse_uint 16 s))"
  "parse_value ft (lit ''UDINT'') s =
     Some (map_sum id (\<lambda>v. Basic (GUint32 (word_of_nat v))) (parse_uint 32 s))"
  "parse_value ft (lit ''ULINT'') s =
     Some (map_sum id (\<lambda>v. Basic (GUint64 (word_of_nat v))) (parse_uint 64 s))"
  unfolding parse_value_def lit_eq by simp_all

text \<open>The text s parses as the number i of the type ty, which has k bits.\<close>

definition parsed_as :: "float_text \<Rightarrow> string \<Rightarrow> nat \<Rightarrow> bytes \<Rightarrow> int \<Rightarrow> bool" where
  "parsed_as ft ty k s i \<longleftrightarrow>
     (\<exists>b. parse_value ft (lit ty) s = Some (Inr (Basic b)) \<and> basic_int b = Some i \<and>
          basic_size b = Some (k div 8))"

lemma parsed_as_ints:
  "parsed_as ft ''SINT'' 8 s i \<longleftrightarrow> numeral_value True s = Some i \<and> in_range True 8 i"
  "parsed_as ft ''INT'' 16 s i \<longleftrightarrow> numeral_value True s = Some i \<and> in_range True 16 i"
  "parsed_as ft ''DINT'' 32 s i \<longleftrightarrow> numeral_value True s = Some i \<and> in_range True 32 i"
  "parsed_as ft ''LINT'' 64 s i \<longleftrightarrow> numeral_value True s = Some i \<and> in_range True 64 i"
  "parsed_as ft ''USINT'' 8 s i \<longleftrightarrow> numeral_value False s = Some i \<and> in_range False 8 i"
  "parsed_as ft ''UINT'' 16 s i \<longleftrightarrow> numeral_value False s = Some i \<and> in_range False 16 i"
  "parsed_as ft ''UDINT'' 32 s i \<longleftrightarrow> numeral_value False s = Some i \<and> in_range False 32 i"
  "parsed_as ft ''ULINT'' 64 s i \<longleftrightarrow> numeral_value False s = Some i \<and> in_range False 64 i"
  unfolding parsed_as_def parse_value_ints
  by (rule signed_branch, simp, erule basic_int_words, simp)+
    (rule unsigned_branch, erule basic_int_words, simp)+

lemma map_sum_Inr: "map_sum id f r = Inr v \<longleftrightarrow> (\<exists>x. r = Inr x \<and> v = f x)"
  by (cases r) auto

lemmas code_simps = TypeBOOL_def TypeSINT_def TypeINT_def TypeDINT_def TypeLINT_def TypeUSINT_def
  TypeUINT_def TypeUDINT_def TypeULINT_def TypeREAL_def TypeLREAL_def TypeSTRING_def

lemma type_strings:
  "data_type_string TypeBOOL = ''BOOL''" "data_type_string TypeSINT = ''SINT''"
  "data_type_string TypeINT = ''INT''" "data_type_string TypeDINT = ''DINT''"
  "data_type_string TypeLINT = ''LINT''" "data_type_string TypeUSINT = ''USINT''"
  "data_type_string TypeUINT = ''UINT''" "data_type_string TypeUDINT = ''UDINT''"
  "data_type_string TypeULINT = ''ULINT''" "data_type_string TypeREAL = ''REAL''"
  "data_type_string TypeLREAL = ''LREAL''" "data_type_string TypeSTRING = ''STRING''"
  by (simp_all add: data_type_string_def type_names_def type_base_def type_is_array_def)

lemma parsed_basic:
  assumes "parse_value ft ty s = Some (Inr v)"
  obtains b t where "v = Basic b" "go_type_to_cip_type v = Inr t" "lit (data_type_string t) = ty"
    "ty = lit ''STRING'' \<longleftrightarrow> basic_bytes b = None"
proof -
  have "case v of
      Basic b \<Rightarrow>
        (case go_type_to_cip_type (Basic b) of Inl e \<Rightarrow> False | Inr t \<Rightarrow> lit (data_type_string t) = ty) \<and>
        (ty = lit ''STRING'' \<longleftrightarrow> basic_bytes b = None)
    | _ \<Rightarrow> False"
    using assms unfolding parse_value_def
    by (simp only: option.inject option.distinct sum.inject map_sum_Inr split: if_split_asm;
        (elim exE conjE FalseE)?; hypsubst?;
        simp add: go_type_to_cip_type_def type_strings del: lit_simps code_simps)
  with that show thesis
    by (auto split: go_value.splits sum.splits)
qed

lemma int_types_parsed:
  assumes "(ty, sg, k) \<in> set int_types"
  shows "parsed_as ft ty k s i \<longleftrightarrow> numeral_value sg s = Some i \<and> in_range sg k i"
  using assms unfolding int_types_def list.set insert_iff empty_iff
  by (elim disjE FalseE Pair_inject; simp only: parsed_as_ints)

text \<open>The constructors of the integer types.\<close>

lemma int_type_basic:
  assumes "(ty, sg, k) \<in> set int_types" and "go_type_to_cip_type (Basic b) = Inr t"
    and "data_type_string t = ty" and "basic_bytes b \<noteq> None"
  shows "\<exists>i. basic_int b = Some i \<and> basic_size b = Some (k div 8)"
  using assms unfolding int_types_def
  by (cases b) (auto simp: go_type_to_cip_type_def type_strings simp del: code_simps)

lemma parsed_int_basic:
  assumes "(ty, sg, k) \<in> set int_types" and "parse_value ft (lit ty) s = Some (Inr v)"
  obtains b t i where "v = Basic b" "go_type_to_cip_type v = Inr t" "data_type_string t = ty"
    "basic_int b = Some i" "numeral_value sg s = Some i" "in_range sg k i"
proof -
  obtain b t where v: "v = Basic b" "go_type_to_cip_type v = Inr t" "data_type_string t = ty"
    and str: "lit ty = lit ''STRING'' \<longleftrightarrow> basic_bytes b = None"
    by (rule parsed_basic [OF assms(2)]) (simp only: lit_eq)
  have "ty \<noteq> ''STRING''" using assms(1) by (auto simp: int_types_def)
  then obtain i where i: "basic_int b = Some i" "basic_size b = Some (k div 8)"
    using int_type_basic [OF assms(1) _ v(3), of b] v str by (auto simp only: lit_eq)
  then have "parsed_as ft ty k s i" using assms(2) v(1) by (auto simp: parsed_as_def)
  then show thesis
    using that v i(1) int_types_parsed [OF assms(1)] by blast
qed

section \<open>Properties\<close>

text \<open>For the witnesses: no floating point number is ever parsed.\<close>

definition no_floats :: float_text where
  "no_floats = \<lparr>ft_parse32 = \<lambda>_. Inl syntax_error, ft_parse64 = \<lambda>_. Inl syntax_error,
     ft_show32 = \<lambda>_. [], ft_show64 = \<lambda>_. []\<rparr>"

text \<open>
  C17: no number is changed on its way from the command line to the value that is written: for
  every integer type the tool accepts exactly the numerals in the range of the type, a sign only
  for the signed ones, and the value has the size of the type and the number of the text.
\<close>

theorem integers_parsed_exactly:
  assumes "(ty, sg, k) \<in> set int_types"
  shows "(\<exists>b. parse_value ft (lit ty) s = Some (Inr (Basic b)) \<and> basic_int b = Some i \<and>
              basic_size b = Some (k div 8)) \<longleftrightarrow>
    numeral_value sg s = Some i \<and> in_range sg k i"
  using int_types_parsed [OF assms] unfolding parsed_as_def .

theorem integers_parsed_exactly_witness:
  "\<exists>b. parse_value no_floats (lit ''SINT'') (lit ''-128'') = Some (Inr (Basic b)) \<and>
       basic_int b = Some (- 128) \<and> basic_size b = Some (8 div 8)"
  by (subst integers_parsed_exactly [where sg = True])
    (simp_all add: int_types_def numeral_value_def in_range_def is_decimal_def decimal_value_def)

text \<open>
  C18: the value that is parsed has the type the user named: the CIP type that \<open>GoTypeToCIPType\<close>
  gives it prints as that name.  Every value but a string has a binary form.
\<close>

theorem parsed_value_type:
  assumes "parse_value ft ty s = Some (Inr v)"
  shows "(\<exists>t. go_type_to_cip_type v = Inr t \<and> lit (data_type_string t) = ty) \<and>
         (ty = lit ''STRING'' \<longleftrightarrow> (\<nexists>d. go_marshal v = Inr d))"
proof -
  obtain b t where v: "v = Basic b" "go_type_to_cip_type v = Inr t"
    "lit (data_type_string t) = ty" "ty = lit ''STRING'' \<longleftrightarrow> basic_bytes b = None"
    by (rule parsed_basic [OF assms])
  then show ?thesis by (auto simp: go_marshal_def split: option.splits)
qed

theorem parsed_value_type_witness:
  "\<exists>t. go_type_to_cip_type (Basic (GInt8 (- 128))) = Inr t \<and> lit (data_type_string t) = lit ''SINT''"
proof -
  have "parse_value no_floats (lit ''SINT'') (lit ''-128'') = Some (Inr (Basic (GInt8 (- 128))))"
    unfolding parse_value_ints
    by (simp add: parse_int_def parse_uint_def is_decimal_def decimal_value_def)
  from parsed_value_type [OF this] show ?thesis by blast
qed

text \<open>The request that writes a value with type code t and bytes b.\<close>

definition write_request :: "bytes \<Rightarrow> data_type \<Rightarrow> bytes \<Rightarrow> mr_request" where
  "write_request name t b =
     \<lparr>rq_service = 0x4D, rq_path = add_symbolic_segment [] name, rq_data = le16 t @ [1, 0] @ b\<rparr>"

lemma write_tag_plain:
  assumes "go_type_to_cip_type v = Inr t" and "go_marshal v = Inr b"
    and "good_packet hdr (rr_data (response_bytes r))"
    and "unat (rp_ext_size r) = length (rp_ext r)" and "length (response_bytes r) < 65536"
  shows "write_tag (tcp_transport plain_conn)
      (plain_client (packet hdr (rr_data (response_bytes r)) @ rest) out s) name v =
    (if rp_status r = 0 then None else Some (CipError (rp_status r) (rp_ext r)),
     plain_client rest (out @ cip_packet s (write_request name t b)) s)"
proof -
  have "new_write_tag_request (add_symbolic_segment new_path name) t 1 b = write_request name t b"
    by (simp add: new_write_tag_request_def new_path_def write_request_def le16_def)
  then show ?thesis
    using client_send_cip_replies [OF plain_replies [OF assms(3-5)]]
    by (simp add: write_tag_def assms(1,2) response_error_def response_is_success_def)
qed

text \<open>
  C19: a run of the tool on the wire.  With a value that parses and a device that registers the
  session and answers, it sends exactly the registration, one Write_Tag request with the type and
  the bytes of the value, and, if the device accepts, the end of the session, and exits with 0.
  If the device refuses, it exits with 1 and the session is neither ended nor the connection
  closed: \<open>os.Exit\<close> skips the deferred \<open>Close\<close>.
\<close>

theorem write_tool_on_the_wire:
  assumes "ho_net h = plain_conn"
    and "ho_dial h (dial_address address) =
      Inr (tcp_plain (packet hdr d @ packet hdr' (rr_data (response_bytes r)) @ rest) [] False)"
    and "good_packet hdr d" and "good_packet hdr' (rr_data (response_bytes r))"
    and "unat (rp_ext_size r) = length (rp_ext r)" and "length (response_bytes r) < 65536"
    and "name \<noteq> []" and "s \<noteq> []" and "ty \<noteq> []"
    and "parse_value ft ty s = Some (Inr v)"
    and "go_type_to_cip_type v = Inr t" and "go_marshal v = Inr b"
  defines "sent \<equiv> register_packet @ cip_packet (eh_session hdr) (write_request name t b)"
  shows "let run = write_tag_single_main h ft address name s ty in
    if rp_status r = 0
    then tl_exit run = 0 \<and>
         tl_conn run = Some (tcp_plain rest (sent @ unregister_packet (eh_session hdr)) True) \<and>
         last (tl_out run) = LogLine (lit ''[INFO]  Write success!'' @ [10])
    else tl_exit run = 1 \<and> tl_conn run = Some (tcp_plain rest sent False)"
proof -
  let ?s = "eh_session hdr" and ?out = "infof ConsoleLogger (connecting address)"
  let ?failed = "connect_failed h ConsoleLogger" and ?body = "write_tag_body h ft name v"
  have main: "write_tag_single_main h ft address name s ty =
      run_client_tool h address ?out ?failed ?body"
    using assms(7-10) by (simp add: write_tag_single_main_def Let_def)
  note w = write_tag_plain [OF assms(11,12,4,5,6), of rest register_packet ?s name]
  show ?thesis
  proof (cases "rp_status r = 0")
    case True
    then obtain o' where "?body (plain_client (packet hdr' (rr_data (response_bytes r)) @ rest)
        register_packet ?s) = (o' @ infof ConsoleLogger (lit ''Write success!''), None,
        plain_client rest sent ?s)"
      by (simp add: write_tag_body_def assms(1) w sent_def Let_def)
    from run_client_tool_returns [where body = ?body and hdr = hdr and d = d and out = ?out and failed = ?failed,
        OF assms(1-3) this] True main
    show ?thesis by (simp add: log_line_def)
  next
    case False
    then obtain o' where "?body (plain_client (packet hdr' (rr_data (response_bytes r)) @ rest)
        register_packet ?s) = (o', Some 1, plain_client rest sent ?s)"
      by (simp add: write_tag_body_def assms(1) w sent_def Let_def)
    from run_client_tool_exits [where body = ?body and hdr = hdr and d = d and out = ?out and failed = ?failed,
        OF assms(1-3) this] False main
    show ?thesis by simp
  qed
qed

theorem write_tool_on_the_wire_witness:
  "tl_conn (write_tag_single_main
     (device_host (register_reply @ cip_reply_packet (cip_reply 0xCD 0 []) @ [])) no_floats ''plc''
     [0x41] (lit ''-5'') (lit ''SINT'')) =
   Some (tcp_plain [] ((register_packet @ cip_packet 7 (write_request [0x41] TypeSINT [0xFB])) @
     unregister_packet 7) True)"
proof -
  let ?r = "cip_reply 0xCD 0 []" and ?d = "[1, 0, 0, 0] :: bytes"
  let ?h = "device_host (register_reply @ cip_reply_packet ?r @ [])"
  have "parse_value no_floats (lit ''SINT'') (lit ''-5'') = Some (Inr (Basic (GInt8 (- 5))))"
    unfolding parse_value_ints
    by (simp add: parse_int_def parse_uint_def is_decimal_def decimal_value_def)
  note run = write_tool_on_the_wire [where h = ?h and hdr = "request_header CommandRegisterSession ?d 7"
      and d = ?d and hdr' = "request_header CommandSendRRData (rr_data (response_bytes ?r)) 7"
      and r = ?r and rest = "[]" and address = "''plc''" and name = "[0x41]" and t = TypeSINT
      and b = "[0xFB]", OF _ _ good_packet_header good_packet_header _ _ _ _ _ this, unfolded Let_def]
  have "response_bytes ?r = [0xCD, 0, 0, 0]" by (simp add: response_bytes_def cip_reply_def)
  then show ?thesis
    using run by (simp add: device_host_def register_reply_def cip_reply_packet_def cip_reply_def
        rr_data_length go_type_to_cip_type_def go_marshal_def le8_def request_header_def)
qed

end
