(* ===== verification/Hexdump.thy ===== *)
theory Hexdump
  imports Go_Text
begin

text \<open>
  Hex dumps, \<open>pkg/utils/hexdump.go\<close>, and the dumper of \<open>encoding/hex\<close> behind it: a machine that is
  fed byte by byte, writes offset and hex columns as it goes and keeps the right-hand column until
  its line of 16 bytes is full or the dump is closed.  The reference definition, row by row, is
  \<open>dump_rows\<close>; \<open>undump\<close> reads the bytes back.
\<close>

definition hex_lower :: "nat \<Rightarrow> byte" where
  "hex_lower d = word_of_nat (if d < 10 then 48 + d else 87 + d)"

definition hex_pair :: "byte \<Rightarrow> bytes" where
  "hex_pair b = [hex_lower (unat b div 16), hex_lower (unat b mod 16)]"

text \<open>\<open>toChar\<close>: what is not printable is shown as a dot.\<close>

definition to_char :: "byte \<Rightarrow> byte" where
  "to_char b = (if b < 32 \<or> b > 126 then 46 else b)"

record dumper =
  du_out :: bytes
  du_right :: bytes
  du_used :: nat
  du_n :: nat

definition dump_offset :: "nat \<Rightarrow> bytes" where
  "dump_offset n = (let w = word_of_nat n :: u32
     in concat (map hex_pair (rev (le32 w))) @ [32, 32])"

text \<open>What follows the digits of column i: a space, one more in the middle, the bar at the end.\<close>

definition dump_gap :: "nat \<Rightarrow> bytes" where
  "dump_gap i = 32 # (if i = 7 then [32] else if i = 15 then [32, 124] else [])"

definition dump_byte :: "dumper \<Rightarrow> byte \<Rightarrow> dumper" where
  "dump_byte h b =
     (let out = (if du_used h = 0 then du_out h @ dump_offset (du_n h) else du_out h);
          out = out @ hex_pair b @ dump_gap (du_used h);
          right = (if du_used h = 0 then [] else du_right h) @ [to_char b];
          used = du_used h + 1
      in if used = 16
         then \<lparr>du_out = out @ right @ [124, 10], du_right = right, du_used = 0, du_n = du_n h + 1\<rparr>
         else \<lparr>du_out = out, du_right = right, du_used = used, du_n = du_n h + 1\<rparr>)"

definition dump_close :: "dumper \<Rightarrow> bytes" where
  "dump_close h =
     (if du_used h = 0 then du_out h
      else du_out h @ concat (map (\<lambda>i. [32, 32] @ dump_gap i) [du_used h..<16]) @
           du_right h @ [124, 10])"

definition hex_dump_std :: "bytes \<Rightarrow> bytes" where
  "hex_dump_std data =
     dump_close (foldl dump_byte \<lparr>du_out = [], du_right = [], du_used = 0, du_n = 0\<rparr> data)"

definition HexDump :: "bytes \<Rightarrow> bytes" where
  "HexDump data = (if length data = 0 then [] else hex_dump_std data)"

definition HexDumpLines :: "bytes \<Rightarrow> bytes list" where
  "HexDumpLines data =
     (let lines = split_on 10 (HexDump data)
      in if length lines > 0 \<and> last lines = [] then butlast lines else lines)"

definition ByteToHex :: "byte \<Rightarrow> bytes" where
  "ByteToHex b = lit (hex2 b)"

section \<open>The dump row by row\<close>

definition dump_columns :: "nat \<Rightarrow> bytes \<Rightarrow> bytes" where
  "dump_columns i bs = concat (map (\<lambda>(j, b). hex_pair b @ dump_gap j) (zip [i..<i + length bs] bs))"

definition dump_row :: "nat \<Rightarrow> bytes \<Rightarrow> bytes" where
  "dump_row n bs =
     dump_offset n @ dump_columns 0 bs @
     concat (map (\<lambda>i. [32, 32] @ dump_gap i) [length bs..<16]) @ map to_char bs @ [124]"

function dump_rows :: "nat \<Rightarrow> bytes \<Rightarrow> bytes list" where
  "dump_rows n data =
     (if data = [] then [] else dump_row n (take 16 data) # dump_rows (n + 16) (drop 16 data))"
  by auto

termination by (relation "measure (\<lambda>(n, data). length data)") auto

declare dump_rows.simps [simp del]

lemma dump_rows_Nil [simp]: "dump_rows n [] = []"
  by (simp add: dump_rows.simps)

lemma dump_columns_simps [simp]:
  "dump_columns i [] = []"
  "dump_columns i (b # bs) = hex_pair b @ dump_gap i @ dump_columns (Suc i) bs"
  by (simp_all add: dump_columns_def upt_conv_Cons del: upt_Suc)

text \<open>The machine within a line: it has written the columns and collected the characters.\<close>

lemma dump_within_line:
  assumes "0 < u" and "u + length bs < 16"
  shows "foldl dump_byte \<lparr>du_out = out, du_right = right, du_used = u, du_n = n\<rparr> bs =
    \<lparr>du_out = out @ dump_columns u bs, du_right = right @ map to_char bs,
     du_used = u + length bs, du_n = n + length bs\<rparr>"
  using assms
proof (induction bs arbitrary: u out right n)
  case (Cons b bs)
  have "dump_byte \<lparr>du_out = out, du_right = right, du_used = u, du_n = n\<rparr> b =
      \<lparr>du_out = out @ hex_pair b @ dump_gap u, du_right = right @ [to_char b],
       du_used = Suc u, du_n = Suc n\<rparr>"
    using Cons.prems by (simp add: dump_byte_def)
  then show ?case
    using Cons.IH [of "Suc u"] Cons.prems by simp
qed simp

lemma dump_line_start:
  assumes "0 < length bs" and "length bs < 16"
  shows "foldl dump_byte \<lparr>du_out = out, du_right = right, du_used = 0, du_n = n\<rparr> bs =
    \<lparr>du_out = out @ dump_offset n @ dump_columns 0 bs, du_right = map to_char bs,
     du_used = length bs, du_n = n + length bs\<rparr>"
proof (cases bs)
  case (Cons b cs)
  have "dump_byte \<lparr>du_out = out, du_right = right, du_used = 0, du_n = n\<rparr> b =
      \<lparr>du_out = out @ dump_offset n @ hex_pair b @ dump_gap 0, du_right = [to_char b],
       du_used = 1, du_n = Suc n\<rparr>"
    by (simp add: dump_byte_def)
  then show ?thesis
    using dump_within_line [of 1 cs] assms(2) Cons by simp
qed (use assms in simp)

lemma dump_columns_snoc:
  "dump_columns i (bs @ [b]) = dump_columns i bs @ hex_pair b @ dump_gap (i + length bs)"
  by (induction bs arbitrary: i) simp_all

text \<open>A full line leaves the machine at the start of the next one.\<close>

lemma dump_full_line:
  assumes "length bs = 16"
  shows "\<exists>right'. foldl dump_byte \<lparr>du_out = out, du_right = right, du_used = 0, du_n = n\<rparr> bs =
    \<lparr>du_out = out @ dump_row n bs @ [10], du_right = right', du_used = 0, du_n = n + 16\<rparr>"
proof -
  obtain cs b where bs: "bs = cs @ [b]" using assms by (cases bs rule: rev_cases) auto
  then have len: "length cs = 15" using assms by simp
  then have "foldl dump_byte \<lparr>du_out = out, du_right = right, du_used = 0, du_n = n\<rparr> cs =
    \<lparr>du_out = out @ dump_offset n @ dump_columns 0 cs, du_right = map to_char cs,
     du_used = 15, du_n = n + 15\<rparr>"
    using dump_line_start [of cs out right n] by simp
  moreover have "dump_row n bs = dump_offset n @ dump_columns 0 cs @ hex_pair b @ dump_gap 15 @
      map to_char cs @ [to_char b] @ [124]"
    by (simp add: dump_row_def bs len dump_columns_snoc)
  ultimately show ?thesis by (simp add: bs dump_byte_def)
qed

lemma dump_machine_rows:
  "dump_close (foldl dump_byte \<lparr>du_out = out, du_right = right, du_used = 0, du_n = n\<rparr> data) =
     out @ concat (map (\<lambda>l. l @ [10]) (dump_rows n data))"
proof (induction n data arbitrary: out right rule: dump_rows.induct)
  case (1 n data)
  consider (none) "data = []" | (part) "0 < length data" "length data < 16"
    | (full) "16 \<le> length data" by (cases data; cases "16 \<le> length data") auto
  then show ?case
  proof cases
    case none
    then show ?thesis by (simp add: dump_close_def)
  next
    case part
    then show ?thesis
      by (simp add: dump_line_start dump_close_def dump_rows.simps [of n data] dump_row_def)
  next
    case full
    let ?a = "take 16 data" and ?b = "drop 16 data"
    obtain right' where a: "foldl dump_byte
        \<lparr>du_out = out, du_right = right, du_used = 0, du_n = n\<rparr> ?a =
      \<lparr>du_out = out @ dump_row n ?a @ [10], du_right = right', du_used = 0, du_n = n + 16\<rparr>"
      using dump_full_line [of ?a out right n] full by auto
    have split: "foldl dump_byte d data = foldl dump_byte (foldl dump_byte d ?a) ?b" for d
      by (metis append_take_drop_id foldl_append)
    have "data \<noteq> []" using full by auto
    with 1 [of "out @ dump_row n ?a @ [10]" right'] show ?thesis
      by (simp add: split a dump_rows.simps [of n data])
  qed
qed

lemma HexDump_rows: "HexDump data = concat (map (\<lambda>l. l @ [10]) (dump_rows 0 data))"
  using dump_machine_rows [of "[]" "[]" 0 data] by (simp add: HexDump_def hex_dump_std_def)

section \<open>Reading a dump back\<close>

definition hex_value :: "byte \<Rightarrow> nat" where
  "hex_value c = (if c < 58 then unat c - 48 else unat c - 87)"

fun unhex :: "bytes \<Rightarrow> byte" where
  "unhex (a # b # _) = word_of_nat (16 * hex_value a + hex_value b)"
| "unhex _ = 0"

text \<open>The bytes of k columns from column i on; a row of n bytes is 62 + n characters long.\<close>

fun undump_columns :: "nat \<Rightarrow> nat \<Rightarrow> bytes \<Rightarrow> bytes" where
  "undump_columns 0 i s = []"
| "undump_columns (Suc k) i s =
     unhex s # undump_columns k (Suc i) (drop (2 + length (dump_gap i)) s)"

definition undump_row :: "bytes \<Rightarrow> bytes" where
  "undump_row l = undump_columns (length l - 62) 0 (drop 10 l)"

definition undump :: "bytes list \<Rightarrow> bytes" where
  "undump ls = concat (map undump_row ls)"

lemma hex_lower_bounds: "d < 16 \<Longrightarrow> 48 \<le> unat (hex_lower d) \<and> unat (hex_lower d) < 103"
  unfolding hex_lower_def by (subst unat_of_nat) auto

lemma hex_value_lower: "d < 16 \<Longrightarrow> hex_value (hex_lower d) = d"
  unfolding hex_lower_def hex_value_def word_less_nat_alt
  by (simp add: unat_of_nat)

lemma nibbles:
  fixes b :: byte
  shows "unat b div 16 < 16" "unat b mod 16 < 16"
proof -
  have "unat b < 2 ^ LENGTH(8)" by (rule unsigned_less)
  then show "unat b div 16 < 16" "unat b mod 16 < 16" by simp_all
qed

lemma unhex_pair [simp]: "unhex (hex_pair b @ r) = b"
  by (simp add: hex_pair_def hex_value_lower nibbles)

lemma length_hex_pair [simp]: "length (hex_pair b) = 2"
  by (simp add: hex_pair_def)

lemma undump_dumped: "undump_columns (length bs) i (dump_columns i bs @ r) = bs"
  by (induction bs arbitrary: i) simp_all

lemma length_dump_offset [simp]: "length (dump_offset n) = 10"
  by (simp add: dump_offset_def Let_def le32_def)

lemma length_gaps:
  "length bs \<le> 16 \<Longrightarrow>
   length (dump_columns 0 bs) + length (concat (map (\<lambda>i. [32, 32] @ dump_gap i) [length bs..<16])) = 51"
proof (induction bs rule: rev_induct)
  case Nil
  show ?case by (simp add: dump_gap_def upt_rec)
next
  case (snoc b bs)
  then have "[length bs..<16] = length bs # [Suc (length bs)..<16]" by (simp add: upt_conv_Cons)
  with snoc show ?case by (simp add: dump_columns_snoc)
qed

lemma length_dump_row: "length bs \<le> 16 \<Longrightarrow> length (dump_row n bs) = 62 + length bs"
  using length_gaps [of bs] by (simp add: dump_row_def)

lemma undump_row_row: "length bs \<le> 16 \<Longrightarrow> undump_row (dump_row n bs) = bs"
proof -
  assume le: "length bs \<le> 16"
  have "drop 10 (dump_row n bs) = dump_columns 0 bs @
      concat (map (\<lambda>i. [32, 32] @ dump_gap i) [length bs..<16]) @ map to_char bs @ [124]"
    by (simp add: dump_row_def)
  then show ?thesis by (simp add: undump_row_def length_dump_row [OF le] undump_dumped)
qed

lemma undump_rows: "undump (dump_rows n data) = data"
proof (induction n data rule: dump_rows.induct)
  case (1 n data)
  show ?case
  proof (cases "data = []")
    case False
    then have "undump (dump_rows n data) = take 16 data @ undump (dump_rows (n + 16) (drop 16 data))"
      by (simp add: dump_rows.simps [of n data] undump_def undump_row_row)
    with 1 False show ?thesis by simp
  qed (simp add: undump_def)
qed

lemma rows_rec: "0 < m \<Longrightarrow> Suc ((m - 16 + 15) div 16) = (m + 15) div (16 :: nat)"
proof (cases "16 \<le> m")
  case True
  then obtain k where "m = 16 + k" using le_Suc_ex by blast
  then show ?thesis using div_add_self1 [of 16 "k + 15"] by (simp add: add.assoc)
next
  case False
  moreover assume "0 < m"
  ultimately have "m + 15 = 16 + (m - 1)" "m - 1 < 16" by linarith+
  then show ?thesis using False div_add_self1 [of 16 "m - 1"] by simp
qed

lemma length_dump_rows: "length (dump_rows n data) = (length data + 15) div 16"
proof (induction n data rule: dump_rows.induct)
  case (1 n data)
  show ?case
  proof (cases "data = []")
    case False
    then have "0 < length data" by simp
    from rows_rec [OF this]
    show ?thesis using 1 False by (simp add: dump_rows.simps [of n data])
  qed simp
qed

text \<open>A row holds printable characters only, so the line breaks are those between rows.\<close>

lemma hex_pair_printable: "c \<in> set (hex_pair b) \<Longrightarrow> 32 \<le> c \<and> c \<le> 126"
  using hex_lower_bounds [OF nibbles(1) [of b]] hex_lower_bounds [OF nibbles(2) [of b]]
  by (auto simp: hex_pair_def word_le_nat_alt)

lemma dump_gap_printable: "c \<in> set (dump_gap i) \<Longrightarrow> 32 \<le> c \<and> c \<le> 126"
  by (auto simp: dump_gap_def word_le_nat_alt split: if_splits)

lemma to_char_printable: "32 \<le> to_char b \<and> to_char b \<le> 126"
  by (auto simp: to_char_def word_le_nat_alt word_less_nat_alt)

lemma dump_columns_printable: "c \<in> set (dump_columns i bs) \<Longrightarrow> 32 \<le> c \<and> c \<le> 126"
  by (induction bs arbitrary: i) (auto dest: hex_pair_printable dump_gap_printable)

lemma dump_row_printable: "c \<in> set (dump_row n bs) \<Longrightarrow> 32 \<le> c \<and> c \<le> 126"
  using to_char_printable
  by (auto simp: dump_row_def dump_offset_def Let_def word_le_nat_alt split: if_splits
      dest: hex_pair_printable dump_gap_printable dump_columns_printable)

lemma dump_rows_printable: "l \<in> set (dump_rows n data) \<Longrightarrow> c \<in> set l \<Longrightarrow> 32 \<le> c \<and> c \<le> 126"
proof (induction n data rule: dump_rows.induct)
  case (1 n data)
  then show ?case
    by (cases "data = []") (auto simp: dump_rows.simps [of n data] dest: dump_row_printable)
qed

lemma dump_rows_nonempty: "l \<in> set (dump_rows n data) \<Longrightarrow> l \<noteq> []"
proof (induction n data rule: dump_rows.induct)
  case (1 n data)
  then show ?case
    by (cases "data = []") (auto simp: dump_rows.simps [of n data] dump_row_def)
qed

lemma HexDumpLines_rows: "HexDumpLines data = dump_rows 0 data"
proof -
  have "(10 :: byte) \<notin> set l" if "l \<in> set (dump_rows 0 data)" for l
  proof
    assume "10 \<in> set l"
    then have "(32 :: byte) \<le> 10" using dump_rows_printable [OF that] by blast
    then show False by simp
  qed
  then have "split_on 10 (HexDump data) = dump_rows 0 data @ [[]]"
    unfolding HexDump_rows by (intro split_on_lines) blast
  then show ?thesis by (simp add: HexDumpLines_def)
qed

section \<open>Properties\<close>

text \<open>
  C39: the lines of a hex dump are the dump, cut at its newlines and without the empty piece after
  the last: one line for every 16 bytes begun, each followed by a newline in the dump, as the
  row-by-row definition describes them and none of them empty; all characters are printable,
  and the bytes can be read back from the lines, whatever they are.
\<close>

theorem hexdump_readable:
  "HexDump data = concat (map (\<lambda>l. l @ [10]) (HexDumpLines data)) \<and>
   length (HexDumpLines data) = (length data + 15) div 16 \<and>
   HexDumpLines data = dump_rows 0 data \<and>
   list_all (\<lambda>l. l \<noteq> [] \<and> list_all (\<lambda>c. 32 \<le> c \<and> c \<le> 126) l) (HexDumpLines data) \<and>
   undump (HexDumpLines data) = data"
proof -
  have "l \<noteq> []" if "l \<in> set (dump_rows 0 data)" for l
    using dump_rows_nonempty [OF that] .
  then show ?thesis
    using dump_rows_printable [of _ 0 data]
    by (auto simp: HexDumpLines_rows HexDump_rows length_dump_rows undump_rows list_all_iff)
qed

end
