(* ===== verification/Read_Tools.thy ===== *)
theory Read_Tools
  imports Write_Tool Hexdump
begin

text \<open>
  The tools that read: \<open>cmd/read_tag_single\<close>, \<open>cmd/read_tag_timer\<close>, \<open>cmd/read_tag_struct\<close>,
  \<open>cmd/list_identity\<close> and \<open>cmd/list_tags\<close>.
\<close>

section \<open>\<open>read_tag_single\<close> and \<open>read_tag_timer\<close>\<close>

definition read_tag_single_body :: "'c host \<Rightarrow> bytes \<Rightarrow> 'c tool_body" where
  "read_tag_single_body h tagName c =
     (let out = infof ConsoleLogger (lit ''Reading tag '' @ quoted tagName @ lit ''...'')
      in (case read_tag (tcp_transport (ho_net h)) c tagName of
            (Inl e, c') \<Rightarrow>
              (out @ errorf ConsoleLogger (lit ''Failed to read tag: '' @ ho_error h e), Some 1, c')
          | (Inr data, c') \<Rightarrow>
              (out @ infof ConsoleLogger (lit ''Read success! Data:'' @ [10] @ HexDump data),
               None, c')))"

definition read_tag_single_main :: "'c host \<Rightarrow> string \<Rightarrow> bytes \<Rightarrow> 'c tool_run" where
  "read_tag_single_main h address tagName =
     run_client_tool h address (infof ConsoleLogger (connecting address))
       (connect_failed h ConsoleLogger) (read_tag_single_body h tagName)"

definition print_line :: "bytes \<Rightarrow> out_event" where
  "print_line msg = Stdout (msg @ [10])"

definition read_tag_timer_body :: "'c host \<Rightarrow> bytes \<Rightarrow> 'c tool_body" where
  "read_tag_timer_body h tagName c =
     (case read_timer (tcp_transport (ho_net h)) c tagName of
        (Inl e, c') \<Rightarrow>
          (fatalf (lit ''Failed to read timer '' @ quoted tagName @ lit '': '' @ ho_error h e),
           Some 1, c')
      | (Inr timer, c') \<Rightarrow>
          ([print_line (lit ''Timer: '' @ tagName),
            print_line (lit ''  PRE: '' @ dec_signed (tm_PRE timer)),
            print_line (lit ''  ACC: '' @ dec_signed (tm_ACC timer)),
            print_line (lit ''  EN:  '' @ bool_text (tm_EN timer)),
            print_line (lit ''  TT:  '' @ bool_text (tm_TT timer)),
            print_line (lit ''  DN:  '' @ bool_text (tm_DN timer))], None, c'))"

definition read_tag_timer_main :: "'c host \<Rightarrow> string \<Rightarrow> bytes \<Rightarrow> 'c tool_run" where
  "read_tag_timer_main h ip tagName =
     (if tagName = []
      then \<lparr>tl_exit = 1, tl_out = [print_line (lit ''Error: --tag is required'')], tl_conn = None\<rparr>
      else run_client_tool h ip [] (\<lambda>e. fatalf (lit ''Failed to create client: '' @ ho_error h e))
             (read_tag_timer_body h tagName))"

section \<open>\<open>read_tag_struct\<close>\<close>

text \<open>The structures that the tool reads through their \<open>UnmarshalCIP\<close>, as their fields.\<close>

definition timer_value :: "timer \<Rightarrow> go_value" where
  "timer_value t = Struct [GInt32 (tm_PRE t), GInt32 (tm_ACC t), GBool (tm_EN t), GBool (tm_TT t),
     GBool (tm_DN t)]"

definition counter_value :: "counter \<Rightarrow> go_value" where
  "counter_value c = Struct [GInt32 (ct_PRE c), GInt32 (ct_ACC c), GBool (ct_CU c), GBool (ct_CD c),
     GBool (ct_DN c), GBool (ct_OV c), GBool (ct_UN c)]"

definition custom_unmarshal :: "bytes \<Rightarrow> go_error + go_value" where
  "custom_unmarshal data =
     (if length data < 8 then Inl (Errorf ''insufficient data for CustomStruct'' [])
      else rd_value (rd_bind read_u32 (\<lambda>field1. rd_bind read_u32 (\<lambda>field2.
             rd_return (Struct [GInt32 field1, GFloat32 field2]))) data))"

text \<open>The verbs of the log lines: \<open>%v\<close> for bool, \<open>%d\<close> for integers, \<open>%f\<close> for floats.\<close>

fun shown_basic :: "go_basic \<Rightarrow> bytes" where
  "shown_basic (GBool b) = bool_text b"
| "shown_basic (GInt8 w) = dec_signed w"
| "shown_basic (GInt16 w) = dec_signed w"
| "shown_basic (GInt32 w) = dec_signed w"
| "shown_basic (GInt64 w) = dec_signed w"
| "shown_basic (GUint8 w) = dec_unsigned w"
| "shown_basic (GUint16 w) = dec_unsigned w"
| "shown_basic (GUint32 w) = dec_unsigned w"
| "shown_basic (GUint64 w) = dec_unsigned w"
| "shown_basic (GFloat32 w) = fmt_f32 w"
| "shown_basic (GFloat64 w) = fmt_f64 w"
| "shown_basic (GInt w) = dec_signed w"
| "shown_basic (GString s) = s"

text \<open>Named fields, \<open>NAME=value\<close> separated by commas.\<close>

fun shown_fields :: "string list \<Rightarrow> go_basic list \<Rightarrow> bytes" where
  "shown_fields (n # ns) (f # fs) =
     lit n @ lit ''='' @ shown_basic f @
     (if ns = [] \<or> fs = [] then [] else lit '', '' @ shown_fields ns fs)"
| "shown_fields _ _ = []"

definition value_line :: "go_value \<Rightarrow> bytes" where
  "value_line v = (case v of Basic b \<Rightarrow> lit ''Value: '' @ shown_basic b | _ \<Rightarrow> [])"

definition fields_line :: "string \<Rightarrow> string list \<Rightarrow> go_value \<Rightarrow> bytes" where
  "fields_line name ns v =
     (case v of Struct fs \<Rightarrow> lit name @ lit '': '' @ shown_fields ns fs | _ \<Rightarrow> [])"

text \<open>The switch: the variable to read into, and the line for its value.\<close>

definition read_as :: "bytes \<Rightarrow> (go_dest \<times> (go_value \<Rightarrow> bytes)) option" where
  "read_as ty =
     (if ty = lit ''bool'' then Some (PtrTo [GBool False] False, value_line)
      else if ty = lit ''int8'' then Some (PtrTo [GInt8 0] False, value_line)
      else if ty = lit ''uint8'' then Some (PtrTo [GUint8 0] False, value_line)
      else if ty = lit ''int16'' then Some (PtrTo [GInt16 0] False, value_line)
      else if ty = lit ''uint16'' then Some (PtrTo [GUint16 0] False, value_line)
      else if ty = lit ''int32'' then Some (PtrTo [GInt32 0] False, value_line)
      else if ty = lit ''uint32'' then Some (PtrTo [GUint32 0] False, value_line)
      else if ty = lit ''int64'' then Some (PtrTo [GInt64 0] False, value_line)
      else if ty = lit ''uint64'' then Some (PtrTo [GUint64 0] False, value_line)
      else if ty = lit ''float32'' then Some (PtrTo [GFloat32 0] False, value_line)
      else if ty = lit ''float64'' then Some (PtrTo [GFloat64 0] False, value_line)
      else if ty = lit ''timer'' then
        Some (UnmarshalerDest (\<lambda>d. map_sum id timer_value (decode_timer d)),
              fields_line ''Timer'' [''PRE'', ''ACC'', ''EN'', ''TT'', ''DN''])
      else if ty = lit ''counter'' then
        Some (UnmarshalerDest (\<lambda>d. map_sum id counter_value (decode_counter d)),
              fields_line ''Counter'' [''PRE'', ''ACC'', ''CU'', ''CD'', ''DN'', ''OV'', ''UN''])
      else if ty = lit ''custom'' then
        Some (UnmarshalerDest custom_unmarshal, fields_line ''CustomStruct'' [''Field1'', ''Field2''])
      else None)"

definition read_tag_struct_body :: "'c host \<Rightarrow> bytes \<Rightarrow> bytes \<Rightarrow> 'c tool_body" where
  "read_tag_struct_body h tagName tagType c =
     (let out = infof ConsoleLogger (lit ''Reading tag '' @ quoted tagName @ lit '' as '' @ tagType @
                  lit ''...'')
      in (case read_as (to_lower tagType) of
            None \<Rightarrow> (out @ errorf ConsoleLogger (lit ''Unknown type: '' @ tagType), Some 1, c)
          | Some (dst, line) \<Rightarrow>
              (case read_tag_into (tcp_transport (ho_net h)) c tagName dst of
                 (Inl e, c') \<Rightarrow>
                   (out @ errorf ConsoleLogger (lit ''Failed to read tag: '' @ ho_error h e),
                    Some 1, c')
               | (Inr v, c') \<Rightarrow> (out @ infof ConsoleLogger (line v), None, c'))))"

definition read_tag_struct_main :: "'c host \<Rightarrow> string \<Rightarrow> bytes \<Rightarrow> bytes \<Rightarrow> 'c tool_run" where
  "read_tag_struct_main h address tagName tagType =
     run_client_tool h address (infof ConsoleLogger (connecting address))
       (connect_failed h ConsoleLogger) (read_tag_struct_body h tagName tagType)"

section \<open>\<open>list_identity\<close>\<close>

definition socket_port :: "bytes \<Rightarrow> u16" where
  "socket_port a = push_bit 8 (ucast (a ! 2)) OR ucast (a ! 3)"

definition socket_ip :: "bytes \<Rightarrow> bytes" where
  "socket_ip a =
     dec_unsigned (a ! 4) @ lit ''.'' @ dec_unsigned (a ! 5) @ lit ''.'' @ dec_unsigned (a ! 6) @
     lit ''.'' @ dec_unsigned (a ! 7)"

definition identity_lines :: "nat \<Rightarrow> list_identity_item \<Rightarrow> outputs" where
  "identity_lines i x =
     [print_line (lit ''Identity '' @ dec_nat (i + 1) @ lit '':''),
      print_line (lit ''  Encapsulation Version: '' @ dec_unsigned (li_encaps_version x)),
      print_line (lit ''  Socket Address: '' @ socket_ip (li_socket_addr x) @ lit '':'' @
                  dec_unsigned (socket_port (li_socket_addr x))),
      print_line (lit ''  Vendor ID: '' @ dec_unsigned (li_vendor_id x)),
      print_line (lit ''  Device Type: '' @ dec_unsigned (li_device_type x)),
      print_line (lit ''  Product Code: '' @ dec_unsigned (li_product_code x)),
      print_line (lit ''  Revision: '' @ dec_unsigned (li_revision x ! 0) @ lit ''.'' @
                  dec_unsigned (li_revision x ! 1)),
      print_line (lit ''  Status: 0x'' @ hex_word16 (li_status x)),
      print_line (lit ''  Serial Number: 0x'' @ hex_word32 (li_serial_number x)),
      print_line (lit ''  Product Name: '' @ li_product_name x),
      print_line (lit ''  State: '' @ dec_unsigned (li_state x))]"

definition service_lines :: "nat \<Rightarrow> list_services_item \<Rightarrow> outputs" where
  "service_lines i s =
     [print_line (lit ''Service '' @ dec_nat (i + 1) @ lit '':''),
      print_line (lit ''  Version: '' @ dec_unsigned (ls_version s)),
      print_line (lit ''  Flags: 0x'' @ hex_word16 (ls_capability_flags s)),
      print_line (lit ''  Name: '' @ ls_name s)]"

text \<open>\<open>for i, x := range xs\<close> around some printing.\<close>

definition for_range :: "(nat \<Rightarrow> 'a \<Rightarrow> outputs) \<Rightarrow> 'a list \<Rightarrow> outputs" where
  "for_range f xs = concat (map (\<lambda>(i, x). f i x) (enumerate 0 xs))"

definition list_identity_body :: "'c host \<Rightarrow> 'c tool_body" where
  "list_identity_body h c =
     (case client_list_identity (tcp_transport (ho_net h)) c of
        (ids, c1) \<Rightarrow>
          (let out1 = infof ConsoleLogger (lit ''Listing Identity...'') @
                 (case ids of
                    Inl e \<Rightarrow> errorf ConsoleLogger (lit ''Failed to list identity: '' @ ho_error h e)
                  | Inr xs \<Rightarrow>
                      infof ConsoleLogger (lit ''Found '' @ dec_nat (length xs) @ lit '' identities:'') @
                      for_range identity_lines xs) @
                 infof ConsoleLogger (lit ''Listing Services...'')
           in (case client_list_services (tcp_transport (ho_net h)) c1 of
                 (services, c2) \<Rightarrow>
                   (out1 @
                    (case services of
                       Inl e \<Rightarrow> errorf ConsoleLogger (lit ''Failed to list services: '' @ ho_error h e)
                     | Inr xs \<Rightarrow>
                         infof ConsoleLogger (lit ''Found '' @ dec_nat (length xs) @ lit '' services:'') @
                         for_range service_lines xs), None, c2))))"

definition list_identity_main :: "'c host \<Rightarrow> string \<Rightarrow> 'c tool_run" where
  "list_identity_main h addr =
     run_client_tool h addr []
       (\<lambda>e. errorf ConsoleLogger (lit ''Failed to create client: '' @ ho_error h e))
       (list_identity_body h)"

section \<open>\<open>list_tags\<close>\<close>

text \<open>
  The verb \<open>%-40s\<close> pads to 40 runes.  The rune count of a string: a well-formed UTF-8 sequence is
  one rune, any other byte is one by itself.
\<close>

definition continuation :: "byte \<Rightarrow> bool" where
  "continuation b \<longleftrightarrow> 0x80 \<le> b \<and> b \<le> 0xBF"

definition rune_size :: "byte \<Rightarrow> bytes \<Rightarrow> nat" where
  "rune_size c cs =
     (if 0xC2 \<le> c \<and> c \<le> 0xDF \<and> list_all continuation (take 1 cs) \<and> 1 \<le> length cs then 2
      else if 0xE0 \<le> c \<and> c \<le> 0xEF \<and> list_all continuation (take 2 cs) \<and> 2 \<le> length cs \<and>
              (c = 0xE0 \<longrightarrow> 0xA0 \<le> hd cs) \<and> (c = 0xED \<longrightarrow> hd cs \<le> 0x9F) then 3
      else if 0xF0 \<le> c \<and> c \<le> 0xF4 \<and> list_all continuation (take 3 cs) \<and> 3 \<le> length cs \<and>
              (c = 0xF0 \<longrightarrow> 0x90 \<le> hd cs) \<and> (c = 0xF4 \<longrightarrow> hd cs \<le> 0x8F) then 4
      else 1)"

fun rune_count :: "bytes \<Rightarrow> nat" where
  "rune_count [] = 0"
| "rune_count (c # cs) = Suc (rune_count (drop (rune_size c cs - 1) cs))"

definition pad_right :: "nat \<Rightarrow> bytes \<Rightarrow> bytes" where
  "pad_right n s = s @ replicate (n - rune_count s) 32"

definition tag_line :: "symbol_instance \<Rightarrow> out_event" where
  "tag_line t =
     print_line (lit ''ID: 0x'' @ hex_word32 (si_id t) @ lit '', Name: '' @ pad_right 40 (si_name t) @
       lit '', Type: '' @ lit (data_type_string (si_type t)))"

text \<open>The client has a logger, so \<open>ListTags\<close> does not panic.\<close>

definition list_tags_body :: "'c host \<Rightarrow> 'c tool_body" where
  "list_tags_body h c =
     (let out = infof ConsoleLogger (lit ''Listing tags...'')
      in (case list_tags (tcp_transport (ho_net h)) c of
            (Return (Inl e), c') \<Rightarrow>
              (out @ errorf ConsoleLogger (lit ''Failed to list tags: '' @ ho_error h e), Some 1, c')
          | (Return (Inr tags), c') \<Rightarrow>
              (out @ infof ConsoleLogger (lit ''Found '' @ dec_nat (length tags) @ lit '' tags:'') @
               map tag_line tags, None, c')
          | (Panic p, c') \<Rightarrow> (out, Some 2, c')))"

definition list_tags_main :: "'c host \<Rightarrow> string \<Rightarrow> 'c tool_run" where
  "list_tags_main h address =
     run_client_tool h address (infof ConsoleLogger (connecting address))
       (connect_failed h ConsoleLogger) (list_tags_body h)"

lemma list_tags_no_panic:
  assumes "cl_logger c"
  shows "\<exists>r c'. list_tags tr c = (Return r, c')"
proof -
  obtain r c' where q: "client_send_cip tr c new_get_symbol_class_attributes_request = (r, c')"
    and log: "cl_logger c'"
    using assms
    by (cases "send_cip_request tr (cl_session c) new_get_symbol_class_attributes_request")
      (simp add: client_send_cip_def)
  then show ?thesis
    by (auto simp: list_tags_def split: sum.split option.split prod.split)
qed

section \<open>A tag on the wire\<close>

text \<open>A tool whose work begins with reading a tag, against a device that answers it.\<close>

lemma read_tag_plain:
  assumes "good_packet hdr (rr_data (response_bytes r))"
    and "unat (rp_ext_size r) = length (rp_ext r)" and "length (response_bytes r) < 65536"
  shows "read_tag (tcp_transport plain_conn)
      (plain_client (packet hdr (rr_data (response_bytes r)) @ rest) out s) name =
    (if rp_status r = 0 then Inr (rp_data r) else Inl (CipError (rp_status r) (rp_ext r)),
     plain_client rest (out @ cip_packet s (new_read_tag_request (add_symbolic_segment new_path name) 1)) s)"
  by (rule read_tag_replies [OF plain_replies [OF assms]])

lemma read_into_plain:
  assumes "good_packet hdr (rr_data (response_bytes r))"
    and "unat (rp_ext_size r) = length (rp_ext r)" and "length (response_bytes r) < 65536"
    and "rp_status r = 0" and "rp_data r = le16 code @ b"
  shows "read_tag_into (tcp_transport plain_conn)
      (plain_client (packet hdr (rr_data (response_bytes r)) @ rest) out s) name dst =
    (go_unmarshal b dst,
     plain_client rest (out @ cip_packet s (new_read_tag_request (add_symbolic_segment new_path name) 1)) s)"
  using read_tag_plain [OF assms(1-3), of rest out s name] assms(4,5)
  by (simp add: read_tag_into_def)

lemma read_struct_run:
  assumes "ho_net h = plain_conn"
    and "ho_dial h (dial_address address) =
      Inr (tcp_plain (packet hdr d @ packet hdr' (rr_data (response_bytes r)) @ rest) [] False)"
    and "good_packet hdr d" and "good_packet hdr' (rr_data (response_bytes r))"
    and "unat (rp_ext_size r) = length (rp_ext r)" and "length (response_bytes r) < 65536"
    and "rp_status r = 0" and "rp_data r = le16 code @ b"
    and "read_as (to_lower ty) = Some (dst, line)" and "go_unmarshal b dst = Inr v"
  shows "tl_exit (read_tag_struct_main h address name ty) = 0 \<and>
    last (tl_out (read_tag_struct_main h address name ty)) =
      LogLine (log_line (lit ''[INFO]  '' @ line v))"
proof -
  let ?body = "read_tag_struct_body h name ty" and ?s = "eh_session hdr"
  let ?c = "plain_client (packet hdr' (rr_data (response_bytes r)) @ rest) register_packet ?s"
  let ?out = "infof ConsoleLogger (connecting address)"
  let ?failed = "connect_failed h ConsoleLogger"
  obtain o' i' p' where "?body ?c = (o' @ infof ConsoleLogger (line v), None, plain_client i' p' ?s)"
    by (simp add: read_tag_struct_body_def assms(1,9,10) Let_def
        read_into_plain [OF assms(4,5,6,7,8)])
  from run_client_tool_returns [where body = ?body and hdr = hdr and d = d and out = ?out
      and failed = ?failed, OF assms(1-3) this]
  show ?thesis by (simp add: read_tag_struct_main_def)
qed

text \<open>The types of the writing tool and those of the reading tool that fit them.\<close>

definition paired_types :: "(string \<times> string) list" where
  "paired_types = [(''SINT'', ''int8''), (''INT'', ''int16''), (''DINT'', ''int32''),
     (''LINT'', ''int64''), (''USINT'', ''uint8''), (''UINT'', ''uint16''), (''UDINT'', ''uint32''),
     (''ULINT'', ''uint64'')]"

lemma read_as_ints:
  "read_as (to_lower (lit ''int8'')) = Some (PtrTo [GInt8 0] False, value_line)"
  "read_as (to_lower (lit ''int16'')) = Some (PtrTo [GInt16 0] False, value_line)"
  "read_as (to_lower (lit ''int32'')) = Some (PtrTo [GInt32 0] False, value_line)"
  "read_as (to_lower (lit ''int64'')) = Some (PtrTo [GInt64 0] False, value_line)"
  "read_as (to_lower (lit ''uint8'')) = Some (PtrTo [GUint8 0] False, value_line)"
  "read_as (to_lower (lit ''uint16'')) = Some (PtrTo [GUint16 0] False, value_line)"
  "read_as (to_lower (lit ''uint32'')) = Some (PtrTo [GUint32 0] False, value_line)"
  "read_as (to_lower (lit ''uint64'')) = Some (PtrTo [GUint64 0] False, value_line)"
  by (simp_all add: read_as_def word_le_nat_alt)

lemma paired_read_as:
  assumes "(ty, rty) \<in> set paired_types" and "go_type_to_cip_type (Basic b) = Inr t"
    and "data_type_string t = ty" and "basic_bytes b \<noteq> None"
  shows "\<exists>x. read_as (to_lower (lit rty)) = Some (PtrTo [x] False, value_line) \<and> same_type x b"
  using assms unfolding paired_types_def
  by (cases b) (auto simp: go_type_to_cip_type_def type_strings read_as_ints same_type_def
      simp del: code_simps lit_simps)

lemma shown_int: "basic_int b = Some i \<Longrightarrow> shown_basic b = dec_int i"
  by (cases b) (auto simp: dec_signed_def dec_unsigned_def dec_int_def unat_eq_nat_uint)

section \<open>Properties\<close>

text \<open>
  C20: a number survives the device: if the writing tool accepts a text as one of the integer types,
  and a device returns the bytes of that value for a tag, the reading tool, told the fitting type
  with letters in either case, prints the number that the text denotes, and exits with 0.
\<close>

theorem written_number_is_read_back:
  assumes "(ty, sg, k) \<in> set int_types" and "(ty, rty) \<in> set paired_types"
    and "parse_value ft (lit ty) s = Some (Inr v)" and "numeral_value sg s = Some i"
    and "go_marshal v = Inr b"
    and "ho_net h = plain_conn"
    and "ho_dial h (dial_address address) =
      Inr (tcp_plain (packet hdr d @ packet hdr' (rr_data (response_bytes r)) @ rest) [] False)"
    and "good_packet hdr d" and "good_packet hdr' (rr_data (response_bytes r))"
    and "unat (rp_ext_size r) = length (rp_ext r)" and "length (response_bytes r) < 65536"
    and "rp_status r = 0" and "rp_data r = le16 code @ b"
    and "to_lower typed = to_lower (lit rty)"
  shows "tl_exit (read_tag_struct_main h address name typed) = 0 \<and>
    last (tl_out (read_tag_struct_main h address name typed)) =
      LogLine (log_line (lit ''[INFO]  Value: '' @ dec_int i))"
proof -
  obtain x t where x: "v = Basic x" "go_type_to_cip_type v = Inr t" "data_type_string t = ty"
    "basic_int x = Some i"
    using parsed_int_basic [OF assms(1,3)] assms(4) by (metis option.inject)
  then have "basic_bytes x \<noteq> None"
    using assms(5) by (auto simp: go_marshal_def split: option.splits)
  then obtain y where y: "read_as (to_lower (lit rty)) = Some (PtrTo [y] False, value_line)"
    "same_type y x"
    using paired_read_as [OF assms(2) _ x(3), of x] x(1,2) by auto
  obtain b' where b': "go_marshal (Basic x) = Inr b'"
    "\<And>r. go_unmarshal (b' @ r) (PtrTo [y] False) = Inr (Basic x)"
    using marshal_basic_roundtrip [OF y(2)] by metis
  then have "go_unmarshal b (PtrTo [y] False) = Inr (Basic x)"
    using b'(2) [of "[]"] assms(5) x(1) by simp
  from read_struct_run [OF assms(6-13) _ this, of typed value_line name] y(1) assms(14)
  show ?thesis
    using shown_int [OF x(4)] by (simp add: value_line_def)
qed

theorem written_number_is_read_back_witness:
  "tl_exit (read_tag_struct_main
     (device_host (register_reply @ cip_reply_packet (cip_reply 0xCC 0 [0xC2, 0, 0xFB]) @ []))
     ''plc'' [0x41] (lit ''INT8'')) = 0"
proof -
  let ?r = "cip_reply 0xCC 0 [0xC2, 0, 0xFB]" and ?d = "[1, 0, 0, 0] :: bytes"
  let ?h = "device_host (register_reply @ cip_reply_packet ?r @ [])"
  have "parse_value no_floats (lit ''SINT'') (lit ''-5'') = Some (Inr (Basic (GInt8 (- 5))))"
    unfolding parse_value_ints
    by (simp add: parse_int_def parse_uint_def is_decimal_def decimal_value_def)
  note run = written_number_is_read_back [where h = ?h and r = ?r and d = ?d and rest = "[]"
      and hdr = "request_header CommandRegisterSession ?d 7" and b = "[0xFB]" and code = "0xC2"
      and hdr' = "request_header CommandSendRRData (rr_data (response_bytes ?r)) 7"
      and address = "''plc''" and rty = "''int8''" and sg = True and k = 8 and i = "- 5"
      and typed = "lit ''INT8''" and name = "[0x41]",
      OF _ _ this _ _ _ _ good_packet_header good_packet_header]
  have "numeral_value True (lit ''-5'') = Some (- 5)"
    by (simp add: numeral_value_def is_decimal_def decimal_value_def)
  moreover have "response_bytes ?r = [0xCC, 0, 0, 0, 0xC2, 0, 0xFB]"
    by (simp add: response_bytes_def cip_reply_def)
  moreover have "to_lower (lit ''INT8'') = to_lower (lit ''int8'')" by (simp add: word_le_nat_alt)
  ultimately show ?thesis
    using run by (simp add: int_types_def paired_types_def go_marshal_def le8_def le16_def
        device_host_def register_reply_def cip_reply_packet_def cip_reply_def rr_data_length)
qed

end
