(* ===== verification/Monitor_Tool.thy ===== *)
theory Monitor_Tool
  imports Read_Tools
begin

text \<open>
  The tool that watches one tag, \<open>cmd/monitor_tag/main.go\<close>, and its copy \<open>cmd/testing/main.go\<close>,
  which differs in the limit for a slow read only: an endless loop that reads the tag and prints a
  line whenever the data differ from those printed last.
\<close>

section \<open>Decoding for display\<close>

text \<open>\<open>binary.Read\<close> whose error is ignored: the variable keeps its zero.\<close>

definition read_or :: "'a \<Rightarrow> 'a reader \<Rightarrow> bytes \<Rightarrow> 'a" where
  "read_or z m data = (case m data of Inl e \<Rightarrow> z | Inr (x, _) \<Rightarrow> x)"

definition raw_text :: "bytes \<Rightarrow> bytes" where
  "raw_text data = lit ''RAW['' @ hex_spaced data @ lit '']''"

definition decode_data :: "bytes \<Rightarrow> bytes \<Rightarrow> bytes" where
  "decode_data data typeName =
     (if typeName = lit ''bool'' then
        (if length data > 0 then bool_text (data ! 0 \<noteq> 0) else raw_text data)
      else if typeName = lit ''int8'' then dec_signed (read_or 0 read_u8 data)
      else if typeName = lit ''uint8'' then dec_unsigned (read_or 0 read_u8 data)
      else if typeName = lit ''int16'' then dec_signed (read_or 0 read_u16 data)
      else if typeName = lit ''uint16'' then dec_unsigned (read_or 0 read_u16 data)
      else if typeName = lit ''int32'' \<or> typeName = lit ''DINT'' then
        dec_signed (read_or 0 read_u32 data)
      else if typeName = lit ''uint32'' \<or> typeName = lit ''UDINT'' then
        dec_unsigned (read_or 0 read_u32 data)
      else if typeName = lit ''int64'' then dec_signed (read_or 0 read_u64 data)
      else if typeName = lit ''uint64'' then dec_unsigned (read_or 0 read_u64 data)
      else if typeName = lit ''float32'' \<or> typeName = lit ''REAL'' then
        fmt_f32 (read_or 0 read_u32 data)
      else if typeName = lit ''float64'' \<or> typeName = lit ''LREAL'' then
        fmt_f64 (read_or 0 read_u64 data)
      else if typeName = lit ''timer'' then
        (if length data \<ge> 12 then
           (case decode_timer data of
              Inl e \<Rightarrow> raw_text data
            | Inr t \<Rightarrow>
                lit ''TIMER{PRE='' @ dec_signed (tm_PRE t) @ lit '', ACC='' @ dec_signed (tm_ACC t) @
                lit '', EN='' @ bool_text (tm_EN t) @ lit '', TT='' @ bool_text (tm_TT t) @
                lit '', DN='' @ bool_text (tm_DN t) @ lit ''}'')
         else raw_text data)
      else if typeName = lit ''counter'' \<or> typeName = lit ''COUNTER'' then
        (if length data \<ge> 12 then
           (case decode_counter data of
              Inl e \<Rightarrow> raw_text data
            | Inr c \<Rightarrow>
                lit ''COUNTER{PRE='' @ dec_signed (ct_PRE c) @ lit '', ACC='' @ dec_signed (ct_ACC c) @
                lit '', CU='' @ bool_text (ct_CU c) @ lit '', CD='' @ bool_text (ct_CD c) @
                lit '', DN='' @ bool_text (ct_DN c) @ lit '', OV='' @ bool_text (ct_OV c) @
                lit '', UN='' @ bool_text (ct_UN c) @ lit ''}'')
         else raw_text data)
      else raw_text data)"

section \<open>The loop\<close>

text \<open>
  The variables of the loop; the zero \<open>time.Time\<close> is \<open>None\<close>.  The clock readings of one iteration:
  the start, the two for a slow read, the time of the change and the time printed.
\<close>

record watch =
  wa_lastData :: bytes
  wa_lastChangeTime :: "int option"
  wa_initialized :: bool

record ticks =
  tk_start :: int
  tk_slow :: int
  tk_shown :: int
  tk_now :: int
  tk_print :: int

definition watch_start :: watch where
  "watch_start = \<lparr>wa_lastData = [], wa_lastChangeTime = None, wa_initialized = False\<rparr>"

definition change_line :: "'c host \<Rightarrow> int \<Rightarrow> bytes \<Rightarrow> bytes \<Rightarrow> bytes \<Rightarrow> bytes" where
  "change_line h t label valStr durationStr =
     ho_time h t @ lit '' '' @ label @ lit '' Value: '' @ valStr @ lit '' | Since last: '' @
     durationStr @ [10]"

text \<open>A successful read.\<close>

definition watch_data ::
  "'c host \<Rightarrow> (bytes \<Rightarrow> bytes \<Rightarrow> bytes) \<Rightarrow> bytes \<Rightarrow> ticks \<Rightarrow> bytes \<Rightarrow> watch \<Rightarrow> outputs \<times> watch" where
  "watch_data h decode tagType t data wa =
     (if \<not> wa_initialized wa \<or> data \<noteq> wa_lastData wa then
        let label = (if wa_initialized wa then lit ''[CHANGE]'' else lit ''[INITIAL]'');
            durationStr = (case wa_lastChangeTime wa of
                None \<Rightarrow> lit ''N/A''
              | Some t0 \<Rightarrow> if wa_initialized wa then ho_duration h (tk_now t - t0) else lit ''N/A'')
        in ([Stdout (change_line h (tk_print t) label (decode data tagType) durationStr)],
            \<lparr>wa_lastData = data, wa_lastChangeTime = Some (tk_now t), wa_initialized = True\<rparr>)
      else ([], wa))"

text \<open>One iteration.  The logger of the tool is the one that logs nothing.\<close>

definition watch_step ::
  "'c host \<Rightarrow> int \<Rightarrow> (bytes \<Rightarrow> bytes \<Rightarrow> bytes) \<Rightarrow> bytes \<Rightarrow> bytes \<Rightarrow> ticks \<Rightarrow> watch \<times> 'c client
   \<Rightarrow> outputs \<times> watch \<times> 'c client" where
  "watch_step h limit decode tagName tagType t = (\<lambda>(wa, c).
     case read_tag (tcp_transport (ho_net h)) c tagName of
       (res, c') \<Rightarrow>
         (let slow = (if tk_slow t - tk_start t > limit
                      then errorf NopLogger (lit ''ReadTag took slow: '' @
                             ho_duration h (tk_shown t - tk_start t))
                      else [])
          in (case res of
                Inl e \<Rightarrow> (slow @ [Stderr (lit ''Read error: '' @ ho_error h e @ [10])], wa, c')
              | Inr data \<Rightarrow>
                  (case watch_data h decode tagType t data wa of
                     (out, wa') \<Rightarrow> (slow @ out, wa', c')))))"

text \<open>What the endless loop has printed after as many iterations as there are clock readings.\<close>

fun watch_run ::
  "'c host \<Rightarrow> int \<Rightarrow> (bytes \<Rightarrow> bytes \<Rightarrow> bytes) \<Rightarrow> bytes \<Rightarrow> bytes \<Rightarrow> ticks list \<Rightarrow> watch \<times> 'c client
   \<Rightarrow> outputs \<times> watch \<times> 'c client" where
  "watch_run h limit decode tagName tagType [] s = ([], s)"
| "watch_run h limit decode tagName tagType (t # ts) s =
     (case watch_step h limit decode tagName tagType t s of
        (out, s') \<Rightarrow>
          (case watch_run h limit decode tagName tagType ts s' of (out', s'') \<Rightarrow> (out @ out', s'')))"

definition watch_main ::
  "int \<Rightarrow> (bytes \<Rightarrow> bytes \<Rightarrow> bytes) \<Rightarrow> 'c host \<Rightarrow> string \<Rightarrow> bytes \<Rightarrow> bytes \<Rightarrow> ticks list
   \<Rightarrow> 'c tool_run + outputs \<times> watch \<times> 'c client" where
  "watch_main limit decode h address tagName tagType ts =
     (let out = infof NopLogger (connecting address)
      in (case new_client (ho_net h) (ho_dial h) address True of
            (Inl e, c) \<Rightarrow>
              Inl \<lparr>tl_exit = 1, tl_out = out @ connect_failed h NopLogger e, tl_conn = c\<rparr>
          | (Inr c, _) \<Rightarrow>
              (let out = out @ infof NopLogger (lit ''Monitoring tag '' @ quoted tagName @
                     lit '' (Type: '' @ tagType @ lit '') every 500ms...'')
               in (case watch_run h limit decode tagName tagType ts (watch_start, c) of
                     (out', s) \<Rightarrow> Inr (out @ out', s)))))"

definition monitor_tag_main where
  "monitor_tag_main = watch_main 10000000 decode_data"

text \<open>The copy: the same decoder, and 50 instead of 10 milliseconds.\<close>

definition testing_decode_data :: "bytes \<Rightarrow> bytes \<Rightarrow> bytes" where
  "testing_decode_data = decode_data"

definition testing_main where
  "testing_main = watch_main 50000000 testing_decode_data"

section \<open>What is printed\<close>

text \<open>The results of successive reads, and the data of those that succeed.\<close>

fun read_results :: "'t transport \<Rightarrow> bytes \<Rightarrow> nat \<Rightarrow> 't client \<Rightarrow> (go_error + bytes) list" where
  "read_results tr name 0 c = []"
| "read_results tr name (Suc n) c =
     (case read_tag tr c name of (res, c') \<Rightarrow> res # read_results tr name n c')"

fun successes :: "('e + 'a) list \<Rightarrow> 'a list" where
  "successes [] = []"
| "successes (Inl e # rs) = successes rs"
| "successes (Inr x # rs) = x # successes rs"

definition is_change_line :: "'c host \<Rightarrow> bytes \<Rightarrow> bytes \<Rightarrow> bytes \<Rightarrow> bool" where
  "is_change_line h label valStr l \<longleftrightarrow> (\<exists>t durationStr. l = change_line h t label valStr durationStr)"

lemma watch_run_Cons:
  "fst (watch_run h limit decode name ty (t # ts) s) =
     fst (watch_step h limit decode name ty t s) @
     fst (watch_run h limit decode name ty ts (snd (watch_step h limit decode name ty t s)))"
  by (simp split: prod.split)

lemma watch_step_error:
  assumes "read_tag (tcp_transport (ho_net h)) c name = (Inl e, c')"
  shows "watch_step h limit decode name ty t (wa, c) =
    ([Stderr (lit ''Read error: '' @ ho_error h e @ [10])], wa, c')"
  using assms by (simp add: watch_step_def Let_def)

lemma watch_step_data:
  assumes "read_tag (tcp_transport (ho_net h)) c name = (Inr d, c')"
  shows "watch_step h limit decode name ty t (wa, c) =
    (fst (watch_data h decode ty t d wa), snd (watch_data h decode ty t d wa), c')"
  using assms by (simp add: watch_step_def Let_def split: prod.split)

lemma watch_data_same:
  "wa_initialized wa \<Longrightarrow> d = wa_lastData wa \<Longrightarrow> watch_data h decode ty t d wa = ([], wa)"
  by (simp add: watch_data_def)

lemma watch_data_new:
  assumes "wa_initialized wa \<longrightarrow> d \<noteq> wa_lastData wa"
  shows "\<exists>l. watch_data h decode ty t d wa = ([Stdout l],
      \<lparr>wa_lastData = d, wa_lastChangeTime = Some (tk_now t), wa_initialized = True\<rparr>) \<and>
    is_change_line h (lit (if wa_initialized wa then ''[CHANGE]'' else ''[INITIAL]'')) (decode d ty) l"
  using assms by (auto simp: watch_data_def is_change_line_def Let_def simp del: lit_simps)

lemma list_all2_remdups_hd:
  "P d l \<Longrightarrow> list_all2 P (tl (remdups_adj (d # xs))) ls \<Longrightarrow> list_all2 P (remdups_adj (d # xs)) (l # ls)"
  by (subst remdups_adj_Cons_alt [symmetric]) (simp del: remdups_adj_Cons_alt)

lemma list_all2_zip_replicate:
  "length xs \<le> n \<Longrightarrow>
   list_all2 (\<lambda>(a, d). Q a d) (zip (replicate n x) xs) ls \<longleftrightarrow> list_all2 (Q x) xs ls"
proof (induction xs arbitrary: n ls)
  case (Cons d xs)
  then show ?case by (cases n) (auto simp: list_all2_Cons1)
qed simp

abbreviation watched :: "'c host \<Rightarrow> bytes \<Rightarrow> nat \<Rightarrow> 'c client \<Rightarrow> bytes list" where
  "watched h name n c \<equiv> successes (read_results (tcp_transport (ho_net h)) name n c)"

lemma watch_run_initialized:
  assumes "wa_initialized wa"
  shows "list_all2 (\<lambda>d. is_change_line h (lit ''[CHANGE]'') (decode d ty))
    (tl (remdups_adj (wa_lastData wa # watched h name (length ts) c)))
    (stdout_texts (fst (watch_run h limit decode name ty ts (wa, c))))"
  using assms
proof (induction ts arbitrary: wa c)
  case (Cons t ts)
  obtain res c' where r: "read_tag (tcp_transport (ho_net h)) c name = (res, c')" by fastforce
  show ?case
  proof (cases res)
    case (Inl e)
    then show ?thesis
      using Cons.IH [OF Cons.prems, of c'] r
      unfolding watch_run_Cons by (simp add: watch_step_error)
  next
    case (Inr d)
    show ?thesis
    proof (cases "d = wa_lastData wa")
      case True
      then show ?thesis
        using Inr Cons.IH [OF Cons.prems, of c'] Cons.prems r
        unfolding watch_run_Cons by (simp add: watch_step_data watch_data_same)
    next
      case False
      let ?wa = "\<lparr>wa_lastData = d, wa_lastChangeTime = Some (tk_now t), wa_initialized = True\<rparr>"
      obtain l where l: "watch_data h decode ty t d wa = ([Stdout l], ?wa)"
        "is_change_line h (lit ''[CHANGE]'') (decode d ty) l"
        using watch_data_new [of wa d h decode ty t] False Cons.prems by auto
      have "list_all2 (\<lambda>d. is_change_line h (lit ''[CHANGE]'') (decode d ty))
          (tl (remdups_adj (d # watched h name (length ts) c')))
          (stdout_texts (fst (watch_run h limit decode name ty ts (?wa, c'))))"
        using Cons.IH [of ?wa c'] by simp
      note list_all2_remdups_hd [OF l(2) this]
      then show ?thesis
        using Inr False l(1) r
        unfolding watch_run_Cons by (simp add: watch_step_data del: lit_simps)
    qed
  qed
qed simp

text \<open>The data of n reads without failed reads and repetitions.\<close>

definition changed_data :: "'c host \<Rightarrow> bytes \<Rightarrow> nat \<Rightarrow> 'c client \<Rightarrow> bytes list" where
  "changed_data h name n c = remdups_adj (watched h name n c)"

lemma dint_bytes:
  fixes w :: u32
  shows "(196 :: u32) OR (push_bit 16 (ucast (ucast w :: byte)) OR
      push_bit 24 (ucast (ucast (drop_bit 8 w) :: byte))) = push_bit 16 w OR 196"
proof (rule bit_word_eqI)
  fix n assume n: "n < LENGTH(32)"
  have "24 \<le> n \<Longrightarrow> n - 16 = 8 + (n - 24)" by simp
  with n show "bit ((196 :: u32) OR (push_bit 16 (ucast (ucast w :: byte)) OR
      push_bit 24 (ucast (ucast (drop_bit 8 w) :: byte)))) n \<longleftrightarrow> bit (push_bit 16 w OR 196) n"
    by (cases "n < 24") (auto simp: bit_or_iff bit_push_bit_iff bit_ucast_iff bit_drop_bit_eq)
qed

section \<open>Properties\<close>

text \<open>
  C21: the monitoring tool prints exactly the changes: whatever reads fail in between, its lines are,
  in order, one for each datum that differs from the last one read successfully, each with the
  decoded datum, the first marked as initial and all others as changes.
\<close>

theorem monitor_prints_changes:
  "list_all2 (\<lambda>(label, d). is_change_line h (lit label) (decode d ty))
    (zip (''[INITIAL]'' # replicate (length (changed_data h name (length ts) c)) ''[CHANGE]'')
         (changed_data h name (length ts) c))
    (stdout_texts (fst (watch_run h limit decode name ty ts (watch_start, c))))"
proof (induction ts arbitrary: c)
  case (Cons t ts)
  obtain res c' where r: "read_tag (tcp_transport (ho_net h)) c name = (res, c')" by fastforce
  show ?case
  proof (cases res)
    case (Inl e)
    then show ?thesis
      using Cons [of c'] r unfolding watch_run_Cons by (simp add: watch_step_error changed_data_def)
  next
    case (Inr d)
    let ?wa = "\<lparr>wa_lastData = d, wa_lastChangeTime = Some (tk_now t), wa_initialized = True\<rparr>"
    obtain rest where rest: "remdups_adj (d # watched h name (length ts) c') = d # rest"
      by (metis remdups_adj_Cons_alt)
    obtain l where l: "watch_data h decode ty t d watch_start = ([Stdout l], ?wa)"
      "is_change_line h (lit ''[INITIAL]'') (decode d ty) l"
      using watch_data_new [of watch_start d h decode ty t] by (auto simp: watch_start_def)
    have "changed_data h name (length (t # ts)) c = d # rest"
      using r Inr rest by (simp add: changed_data_def)
    moreover have "list_all2 (\<lambda>(label, d). is_change_line h (lit label) (decode d ty))
        (zip (replicate (Suc (length rest)) ''[CHANGE]'') rest)
        (stdout_texts (fst (watch_run h limit decode name ty ts (?wa, c'))))"
      using watch_run_initialized [of ?wa h decode ty name ts c' limit] rest
      by (subst list_all2_zip_replicate) simp_all
    ultimately show ?thesis
      using Inr l r unfolding watch_run_Cons by (simp add: watch_step_data del: lit_simps)
  qed
qed (simp add: changed_data_def)

text \<open>
  The number that the tool shows for an integer tag is not the tag's: \<open>decodeData\<close> is given the
  data of \<open>ReadTag\<close>, which begin with the two bytes of the type code, so a SINT is shown as its
  type code, and an INT or DINT is shown with the code in its low bits.
\<close>

theorem monitor_shows_type_code:
  "decode_data (le16 TypeSINT @ le8 a) (lit ''int8'') = dec_int (- 62) \<and>
   decode_data (le16 TypeINT @ le16 b) (lit ''int16'') = dec_int 195 \<and>
   decode_data (le16 TypeDINT @ le32 w) (lit ''DINT'') =
     dec_signed (push_bit 16 w OR ucast TypeDINT :: u32)"
proof -
  have dint: "read_u32 (le16 TypeDINT @ le32 w) =
      Inr (push_bit 16 w OR ucast TypeDINT, [ucast (drop_bit 16 w), ucast (drop_bit 24 w)])"
    by (simp add: read_u32_def rd_bind_def read_full_def le16_def le32_def dint_bytes)
  have "read_u8 (le16 TypeSINT @ le8 a) = Inr (0xC2, 0 # le8 a)"
    by (simp add: le16_def codec_simps)
  moreover have "read_u16 (le16 TypeINT @ le16 b) = Inr (0xC3, le16 b)"
    by (simp add: codec_simps)
  ultimately show ?thesis
    using dint by (simp add: decode_data_def read_or_def dec_signed_def del: lit_simps code_simps)
qed

end
