(* ===== verification/Reconnect.thy ===== *)
theory Reconnect
  imports Go_Prelude
begin

text \<open>
  The reconnecting client, \<open>pkg/client/reconnect.go\<close>.  The world is everything outside the struct:
  the network and the clients made so far; the factory and the close of a client act on it.
  While an operation runs and while the loop sleeps, other goroutines may use the same
  reconnecting client, so the operation and the sleep act on its whole state.  The loop need not
  end, so it is a partial function: None stands for never returning.  A client is a value of
  type 'c that stands for a pointer: the loop compares pointers.
\<close>

record ('c, 'w) reconn =
  rc_client :: "'c option"
  rc_closed :: bool
  rc_factory :: "('w \<Rightarrow> (go_error + 'c) \<times> 'w) option"
  rc_max_retries :: int
  rc_retry_delay :: int
  rc_auto_connect :: bool
  rc_world :: 'w

record ('c, 'w) reconn_env =
  en_close :: "'c \<Rightarrow> 'w \<Rightarrow> go_error option \<times> 'w"
  en_sleep :: "int \<Rightarrow> ('c, 'w) reconn \<Rightarrow> ('c, 'w) reconn"

section \<open>Construction and connection\<close>

datatype ('c, 'w) reconnect_option =
    WithMaxRetries int
  | WithRetryDelay int
  | WithAutoConnect bool
  | WithClientFactory "('w \<Rightarrow> (go_error + 'c) \<times> 'w) option"

fun apply_option :: "('c, 'w) reconnect_option \<Rightarrow> ('c, 'w) reconn \<Rightarrow> ('c, 'w) reconn" where
  "apply_option (WithMaxRetries n) rc = rc\<lparr>rc_max_retries := n\<rparr>"
| "apply_option (WithRetryDelay d) rc = rc\<lparr>rc_retry_delay := d\<rparr>"
| "apply_option (WithAutoConnect b) rc = rc\<lparr>rc_auto_connect := b\<rparr>"
| "apply_option (WithClientFactory f) rc = rc\<lparr>rc_factory := f\<rparr>"

definition rc_connect :: "('c, 'w) reconn \<Rightarrow> go_error option \<times> ('c, 'w) reconn" where
  "rc_connect rc =
     (case rc_factory rc of
        None \<Rightarrow> (Some (Errorf ''no client factory configured'' []), rc)
      | Some f \<Rightarrow>
          (case f (rc_world rc) of
             (Inl e, w) \<Rightarrow> (Some e, rc\<lparr>rc_world := w\<rparr>)
           | (Inr c, w) \<Rightarrow> (None, rc\<lparr>rc_client := Some c, rc_world := w\<rparr>)))"

definition new_reconnecting_client ::
  "('w \<Rightarrow> (go_error + 'c) \<times> 'w) \<Rightarrow> 'w \<Rightarrow> ('c, 'w) reconnect_option list \<Rightarrow> ('c, 'w) reconn" where
  "new_reconnecting_client newClient w opts =
     (let rc = fold apply_option opts
            \<lparr>rc_client = None, rc_closed = False, rc_factory = Some newClient, rc_max_retries = 3,
             rc_retry_delay = 10 ^ 9, rc_auto_connect = True, rc_world = w\<rparr>
      in if rc_auto_connect rc then snd (rc_connect rc) else rc)"

definition rc_get_client :: "('c, 'w) reconn \<Rightarrow> (go_error + 'c) \<times> ('c, 'w) reconn" where
  "rc_get_client rc =
     (if rc_closed rc then (Inl (Errorf ''client is closed'' []), rc)
      else
        (case rc_client rc of
           Some c \<Rightarrow> (Inr c, rc)
         | None \<Rightarrow>
             (case rc_connect rc of
                (Some e, rc') \<Rightarrow> (Inl e, rc')
              | (None, rc') \<Rightarrow> (Inr (the (rc_client rc')), rc'))))"

definition rc_close ::
  "('c, 'w, 'z) reconn_env_scheme \<Rightarrow> ('c, 'w) reconn \<Rightarrow> go_error option \<times> ('c, 'w) reconn" where
  "rc_close env rc =
     (case rc_client rc of
        None \<Rightarrow> (None, rc\<lparr>rc_closed := True\<rparr>)
      | Some c \<Rightarrow>
          (case en_close env c (rc_world rc) of
             (e, w) \<Rightarrow> (e, rc\<lparr>rc_closed := True, rc_client := None, rc_world := w\<rparr>)))"

section \<open>The retry loop\<close>

text \<open>The client that failed is closed and dropped, unless another one took its place.\<close>

definition rc_invalidate ::
  "('c, 'w) reconn_env \<Rightarrow> 'c \<Rightarrow> ('c, 'w) reconn \<Rightarrow> ('c, 'w) reconn" where
  "rc_invalidate env c rc =
     (if rc_client rc = Some c
      then rc\<lparr>rc_client := None, rc_world := snd (en_close env c (rc_world rc))\<rparr>
      else rc)"

definition rc_backoff ::
  "('c, 'w) reconn_env \<Rightarrow> int \<Rightarrow> ('c, 'w) reconn \<Rightarrow> ('c, 'w) reconn" where
  "rc_backoff env i rc =
     (if rc_max_retries rc < 0 \<or> i < rc_max_retries rc
      then en_sleep env (rc_retry_delay rc) rc else rc)"

text \<open>The increment of a variable of type int.\<close>

definition int_inc :: "int \<Rightarrow> int" where
  "int_inc i = signed_take_bit 63 (i + 1)"

definition retries_exceeded :: "go_error option \<Rightarrow> go_error" where
  "retries_exceeded lastErr =
     (case lastErr of
        None \<Rightarrow> Errorf ''max retries exceeded: %w'' []
      | Some e \<Rightarrow> Wrapf ''max retries exceeded'' e)"

partial_function (option) retry_loop ::
  "('c, 'w) reconn_env \<Rightarrow> ('c \<Rightarrow> ('c, 'w) reconn \<Rightarrow> (go_error + bytes) \<times> ('c, 'w) reconn)
   \<Rightarrow> int \<Rightarrow> go_error option \<Rightarrow> ('c, 'w) reconn
   \<Rightarrow> ((go_error + bytes) \<times> ('c, 'w) reconn) option" where
  "retry_loop env op i lastErr rc =
     (if \<not> (rc_max_retries rc < 0 \<or> i \<le> rc_max_retries rc)
      then Some (Inl (retries_exceeded lastErr), rc)
      else
        (case rc_get_client rc of
           (Inl e, rc1) \<Rightarrow> retry_loop env op (int_inc i) (Some e) (rc_backoff env i rc1)
         | (Inr c, rc1) \<Rightarrow>
             (case op c rc1 of
                (Inr res, rc2) \<Rightarrow> Some (Inr res, rc2)
              | (Inl e, rc2) \<Rightarrow>
                  retry_loop env op (int_inc (if i = 2147483647 then 0 else i)) (Some e)
                    (rc_backoff env i (rc_invalidate env c rc2)))))"

definition execute_with_retry ::
  "('c, 'w) reconn_env \<Rightarrow> ('c \<Rightarrow> ('c, 'w) reconn \<Rightarrow> (go_error + bytes) \<times> ('c, 'w) reconn)
   \<Rightarrow> ('c, 'w) reconn \<Rightarrow> ((go_error + bytes) \<times> ('c, 'w) reconn) option" where
  "execute_with_retry env op rc = retry_loop env op 0 None rc"

definition rc_read_tag ::
  "('c, 'w) reconn_env
   \<Rightarrow> (bytes \<Rightarrow> 'c \<Rightarrow> ('c, 'w) reconn \<Rightarrow> (go_error + bytes) \<times> ('c, 'w) reconn)
   \<Rightarrow> bytes \<Rightarrow> ('c, 'w) reconn \<Rightarrow> ((go_error + bytes) \<times> ('c, 'w) reconn) option" where
  "rc_read_tag env readTag name rc = execute_with_retry env (readTag name) rc"

text \<open>\<open>WriteTag\<close> wraps an operation without a result and drops the empty one.\<close>

definition rc_write_tag ::
  "('c, 'w) reconn_env
   \<Rightarrow> (bytes \<Rightarrow> 'v \<Rightarrow> 'c \<Rightarrow> ('c, 'w) reconn \<Rightarrow> go_error option \<times> ('c, 'w) reconn)
   \<Rightarrow> bytes \<Rightarrow> 'v \<Rightarrow> ('c, 'w) reconn \<Rightarrow> (go_error option \<times> ('c, 'w) reconn) option" where
  "rc_write_tag env writeTag name v rc =
     map_option (\<lambda>(r, rc'). (case r of Inl e \<Rightarrow> Some e | Inr _ \<Rightarrow> None, rc'))
       (execute_with_retry env
          (\<lambda>c rc. case writeTag name v c rc of
             (None, rc') \<Rightarrow> (Inr [], rc') | (Some e, rc') \<Rightarrow> (Inl e, rc')) rc)"

section \<open>The configuration does not change\<close>

text \<open>
  What the code never does: nothing assigns to the configuration after construction, so neither
  an operation nor what other goroutines do during a sleep changes the number of retries.
\<close>

definition keeps_config ::
  "('c, 'w) reconn_env \<Rightarrow> ('c \<Rightarrow> ('c, 'w) reconn \<Rightarrow> (go_error + bytes) \<times> ('c, 'w) reconn) \<Rightarrow> bool" where
  "keeps_config env op \<longleftrightarrow>
     (\<forall>d rc. rc_max_retries (en_sleep env d rc) = rc_max_retries rc) \<and>
     (\<forall>c rc. rc_max_retries (snd (op c rc)) = rc_max_retries rc)"

lemma rc_connect_max: "rc_connect rc = (e, rc') \<Longrightarrow> rc_max_retries rc' = rc_max_retries rc"
  by (auto simp: rc_connect_def split: option.splits prod.splits sum.splits)

lemma rc_get_client_max: "rc_get_client rc = (r, rc') \<Longrightarrow> rc_max_retries rc' = rc_max_retries rc"
  by (auto simp: rc_get_client_def split: if_splits option.splits prod.splits dest: rc_connect_max)

lemma rc_invalidate_max [simp]: "rc_max_retries (rc_invalidate env c rc) = rc_max_retries rc"
  by (simp add: rc_invalidate_def)

lemma rc_backoff_max:
  "keeps_config env op \<Longrightarrow> rc_max_retries (rc_backoff env i rc) = rc_max_retries rc"
  by (simp add: rc_backoff_def keeps_config_def)

lemma op_max: "keeps_config env op \<Longrightarrow> op c rc = (r, rc') \<Longrightarrow> rc_max_retries rc' = rc_max_retries rc"
  unfolding keeps_config_def by (metis snd_conv)

lemma int_inc_small: "- (2 ^ 63) \<le> i + 1 \<Longrightarrow> i + 1 < 2 ^ 63 \<Longrightarrow> int_inc i = i + 1"
  unfolding int_inc_def by (rule signed_take_bit_int_eq_self) simp_all

text \<open>One iteration, by what it leads to.\<close>

lemma retry_loop_cases:
  obtains (over) "\<not> (rc_max_retries rc < 0 \<or> i \<le> rc_max_retries rc)"
      "retry_loop env op i le rc = Some (Inl (retries_exceeded le), rc)"
  | (no_client) e rc1 where "rc_max_retries rc < 0 \<or> i \<le> rc_max_retries rc"
      "rc_get_client rc = (Inl e, rc1)"
      "retry_loop env op i le rc = retry_loop env op (int_inc i) (Some e) (rc_backoff env i rc1)"
  | (success) c rc1 res rc2 where "rc_max_retries rc < 0 \<or> i \<le> rc_max_retries rc"
      "rc_get_client rc = (Inr c, rc1)" "op c rc1 = (Inr res, rc2)"
      "retry_loop env op i le rc = Some (Inr res, rc2)"
  | (failure) c rc1 e rc2 where "rc_max_retries rc < 0 \<or> i \<le> rc_max_retries rc"
      "rc_get_client rc = (Inr c, rc1)" "op c rc1 = (Inl e, rc2)"
      "retry_loop env op i le rc =
         retry_loop env op (int_inc (if i = 2147483647 then 0 else i)) (Some e)
           (rc_backoff env i (rc_invalidate env c rc2))"
proof (cases "rc_max_retries rc < 0 \<or> i \<le> rc_max_retries rc")
  case False
  then show thesis using over by (simp add: retry_loop.simps [of env op i le rc])
next
  case True
  obtain g rc1 where g: "rc_get_client rc = (g, rc1)" by fastforce
  show thesis
  proof (cases g)
    case (Inl e)
    then show thesis
      using no_client True g by (simp add: retry_loop.simps [of env op i le rc])
  next
    case (Inr c)
    obtain r rc2 where "op c rc1 = (r, rc2)" by fastforce
    then show thesis
      using success failure True g Inr
      by (cases r) (simp_all add: retry_loop.simps [of env op i le rc])
  qed
qed

lemma retry_loop_success:
  "rc_max_retries rc < 0 \<or> i \<le> rc_max_retries rc \<Longrightarrow> rc_get_client rc = (Inr c, rc1) \<Longrightarrow>
   op c rc1 = (Inr res, rc2) \<Longrightarrow> retry_loop env op i le rc = Some (Inr res, rc2)"
  by (simp add: retry_loop.simps [of env op i le rc])

section \<open>Bounded retries\<close>

text \<open>A count that only the operation advances, by at most one.\<close>

definition counts_operations ::
  "('w \<Rightarrow> nat) \<Rightarrow> ('c, 'w) reconn_env
   \<Rightarrow> ('c \<Rightarrow> ('c, 'w) reconn \<Rightarrow> (go_error + bytes) \<times> ('c, 'w) reconn) \<Rightarrow> ('c, 'w) reconn \<Rightarrow> bool" where
  "counts_operations n env op rc \<longleftrightarrow>
     (\<forall>c rc. n (rc_world (snd (op c rc))) \<le> Suc (n (rc_world rc))) \<and>
     (\<forall>c rc. rc_factory (snd (op c rc)) = rc_factory rc) \<and>
     (\<forall>c w. n (snd (en_close env c w)) \<le> n w) \<and>
     (\<forall>d rc. n (rc_world (en_sleep env d rc)) \<le> n (rc_world rc) \<and>
             rc_factory (en_sleep env d rc) = rc_factory rc) \<and>
     (\<forall>f w. rc_factory rc = Some f \<longrightarrow> n (snd (f w)) \<le> n w)"

lemma rc_get_client_count:
  assumes "counts_operations n env op rc" and "rc_get_client rc = (r, rc')"
  shows "n (rc_world rc') \<le> n (rc_world rc) \<and> rc_factory rc' = rc_factory rc"
proof (cases "rc_closed rc \<or> rc_client rc \<noteq> None \<or> rc_factory rc = None")
  case True
  then show ?thesis
    using assms(2) by (auto simp: rc_get_client_def rc_connect_def split: if_splits option.splits)
next
  case False
  then obtain f where f: "\<not> rc_closed rc" "rc_client rc = None" "rc_factory rc = Some f" by auto
  obtain r1 w where w: "f (rc_world rc) = (r1, w)" by fastforce
  have "n w \<le> n (rc_world rc)"
    using assms(1) f(3) w unfolding counts_operations_def by (metis snd_conv)
  then show ?thesis
    using assms(2) f w
    by (auto simp: rc_get_client_def rc_connect_def split: sum.splits)
qed

lemma counts_operations_factory:
  "counts_operations n env op rc \<Longrightarrow> rc_factory rc' = rc_factory rc \<Longrightarrow>
   counts_operations n env op rc'"
  by (simp add: counts_operations_def)

lemma rc_backoff_count:
  assumes "counts_operations n env op rc"
  shows "n (rc_world (rc_backoff env i rc')) \<le> n (rc_world rc') \<and>
    rc_factory (rc_backoff env i rc') = rc_factory rc'"
  using assms by (simp add: rc_backoff_def counts_operations_def)

lemma rc_invalidate_count:
  assumes "counts_operations n env op rc"
  shows "n (rc_world (rc_invalidate env c rc')) \<le> n (rc_world rc') \<and>
    rc_factory (rc_invalidate env c rc') = rc_factory rc'"
  using assms by (simp add: rc_invalidate_def counts_operations_def)

lemma op_count:
  assumes "counts_operations n env op rc" and "op c rc1 = (r, rc2)"
  shows "n (rc_world rc2) \<le> Suc (n (rc_world rc1)) \<and> rc_factory rc2 = rc_factory rc1"
  using assms unfolding counts_operations_def by (metis snd_conv)

lemma retry_loop_bounded:
  assumes "keeps_config env op" and "counts_operations n env op rc"
    and "0 \<le> i" and "i \<le> rc_max_retries rc + 1"
    and "0 \<le> rc_max_retries rc" and "rc_max_retries rc < 2147483647"
  shows "\<exists>r rc'. retry_loop env op i le rc = Some (r, rc') \<and>
    n (rc_world rc') \<le> n (rc_world rc) + nat (rc_max_retries rc + 1 - i)"
  using assms(2-6)
proof (induction "nat (rc_max_retries rc + 1 - i)" arbitrary: i le rc)
  case 0
  then have "\<not> (rc_max_retries rc < 0 \<or> i \<le> rc_max_retries rc)" by simp
  then show ?case using 0 by (simp add: retry_loop.simps [of env op i le rc])
next
  case (Suc k)
  have i: "i \<le> rc_max_retries rc" "int_inc i = i + 1" "i \<noteq> 2147483647"
    using Suc.hyps(2) Suc.prems by (simp_all add: int_inc_small)
  have next': "\<exists>r rc''. retry_loop env op (i + 1) le' rc' = Some (r, rc'') \<and>
      n (rc_world rc'') \<le> n (rc_world rc') + k"
    if "rc_max_retries rc' = rc_max_retries rc" "rc_factory rc' = rc_factory rc" for rc' le'
    using Suc.hyps(1) [of rc' "i + 1" le'] Suc.hyps(2) Suc.prems i that
      counts_operations_factory [OF Suc.prems(1) that(2)] by force
  have k: "nat (rc_max_retries rc + 1 - i) = Suc k" using Suc.hyps(2) by simp
  note max = rc_get_client_max rc_backoff_max [OF assms(1)] op_max [OF assms(1)]
  show ?case
  proof (cases rule: retry_loop_cases [of rc i env op le])
    case over
    then show ?thesis using i Suc.prems by simp
  next
    case (no_client e rc1)
    let ?rc = "rc_backoff env i rc1"
    have m: "rc_max_retries ?rc = rc_max_retries rc" using max no_client(2) by simp
    have c1: "n (rc_world rc1) \<le> n (rc_world rc)" "rc_factory rc1 = rc_factory rc"
      using rc_get_client_count [OF Suc.prems(1) no_client(2)] by simp_all
    have c2: "n (rc_world ?rc) \<le> n (rc_world rc1)" "rc_factory ?rc = rc_factory rc1"
      using rc_backoff_count [OF Suc.prems(1)] by blast+
    obtain r rc'' where "retry_loop env op (i + 1) (Some e) ?rc = Some (r, rc'')"
      "n (rc_world rc'') \<le> n (rc_world ?rc) + k"
      using next' [OF m, of "Some e"] c1 c2 by auto
    then show ?thesis using no_client(3) i k c1 c2 by auto
  next
    case (success c rc1 res rc2)
    have "n (rc_world rc2) \<le> n (rc_world rc) + Suc k"
      using rc_get_client_count [OF Suc.prems(1) success(2)]
        op_count [OF Suc.prems(1) success(3)] by simp
    then show ?thesis using success(4) k by simp
  next
    case (failure c rc1 e rc2)
    let ?rc = "rc_backoff env i (rc_invalidate env c rc2)"
    have m: "rc_max_retries ?rc = rc_max_retries rc" using max failure(2, 3) by simp
    have c1: "n (rc_world rc1) \<le> n (rc_world rc)" "rc_factory rc1 = rc_factory rc"
      using rc_get_client_count [OF Suc.prems(1) failure(2)] by simp_all
    have c2: "n (rc_world rc2) \<le> Suc (n (rc_world rc1))" "rc_factory rc2 = rc_factory rc1"
      using op_count [OF Suc.prems(1) failure(3)] by simp_all
    have c3: "n (rc_world ?rc) \<le> n (rc_world rc2)" "rc_factory ?rc = rc_factory rc2"
      using rc_backoff_count [OF Suc.prems(1), of i "rc_invalidate env c rc2"]
        rc_invalidate_count [OF Suc.prems(1), of c rc2] by simp_all
    obtain r rc'' where "retry_loop env op (i + 1) (Some e) ?rc = Some (r, rc'')"
      "n (rc_world rc'') \<le> n (rc_world ?rc) + k"
      using next' [OF m, of "Some e"] c1 c2 c3 by auto
    then show ?thesis using failure(4) i k c1 c2 c3 by auto
  qed
qed

section \<open>Loops that do not end\<close>

text \<open>
  A condition on state and counter under which the loop never returns: it holds again after
  every iteration, and no iteration returns.
\<close>

lemma retry_loop_diverges:
  assumes step: "\<And>i rc. P i rc \<Longrightarrow> rc_max_retries rc < 0 \<or> i \<le> rc_max_retries rc"
    and no_client: "\<And>i rc e rc1. P i rc \<Longrightarrow> rc_get_client rc = (Inl e, rc1) \<Longrightarrow>
           P (int_inc i) (rc_backoff env i rc1)"
    and no_success: "\<And>i rc c rc1 res rc2. P i rc \<Longrightarrow> rc_get_client rc = (Inr c, rc1) \<Longrightarrow>
           op c rc1 = (Inr res, rc2) \<Longrightarrow> False"
    and failure: "\<And>i rc c rc1 e rc2. P i rc \<Longrightarrow> rc_get_client rc = (Inr c, rc1) \<Longrightarrow>
           op c rc1 = (Inl e, rc2) \<Longrightarrow>
           P (int_inc (if i = 2147483647 then 0 else i))
             (rc_backoff env i (rc_invalidate env c rc2))"
    and "P i rc"
  shows "retry_loop env op i le rc = None"
proof -
  have "env' = env \<longrightarrow> op' = op \<longrightarrow> \<not> P i rc"
    if "retry_loop env' op' i le rc = Some y" for env' op' i le rc y
  proof (rule retry_loop.raw_induct
      [where P = "\<lambda>env' op' i le rc y. env' = env \<longrightarrow> op' = op \<longrightarrow> \<not> P i rc", OF _ that])
    fix loop env' op' i le rc y
    assume 1: "\<And>env' op' i le rc y. loop env' op' i le rc = Some y \<Longrightarrow>
        env' = env \<longrightarrow> op' = op \<longrightarrow> \<not> P i rc"
      and 2: "(if \<not> (rc_max_retries rc < 0 \<or> i \<le> rc_max_retries rc)
      then Some (Inl (retries_exceeded le), rc)
      else
        (case rc_get_client rc of
           (Inl e, rc1) \<Rightarrow> loop env' op' (int_inc i) (Some e) (rc_backoff env' i rc1)
         | (Inr c, rc1) \<Rightarrow>
             (case op' c rc1 of
                (Inr res, rc2) \<Rightarrow> Some (Inr res, rc2)
              | (Inl e, rc2) \<Rightarrow>
                  loop env' op' (int_inc (if i = 2147483647 then 0 else i)) (Some e)
                    (rc_backoff env' i (rc_invalidate env' c rc2))))) = Some y"
    show "env' = env \<longrightarrow> op' = op \<longrightarrow> \<not> P i rc"
    proof (intro impI notI)
      assume e: "env' = env" "op' = op" and P: "P i rc"
      have go: "rc_max_retries rc < 0 \<or> i \<le> rc_max_retries rc" by (rule step [OF P])
      obtain g rc1 where g: "rc_get_client rc = (g, rc1)" by fastforce
      show False
      proof (cases g)
        case (Inl err)
        then show False
          using 1 [of env op "int_inc i" "Some err"] 2 go g e no_client [OF P, of err rc1]
          by simp
      next
        case (Inr c)
        obtain r rc2 where r: "op c rc1 = (r, rc2)" by fastforce
        show False
        proof (cases r)
          case (Inl err)
          then show False
            using 1 [of env op _ "Some err"] 2 go g e r \<open>g = Inr c\<close>
              failure [OF P, of c rc1 err rc2] by simp
        next
          case (Inr res)
          then show False using no_success [OF P, of c rc1 res rc2] g r \<open>g = Inr c\<close> by simp
        qed
      qed
    qed
  qed
  then show ?thesis using assms(5) by (cases "retry_loop env op i le rc") auto
qed

section \<open>What a call does\<close>

text \<open>
  C14: With a retry limit below 2147483647 a call returns, whatever the operation, the factory and
  the other goroutines do, and it runs the operation at most limit + 1 times: any count that
  only the operation advances, by at most one, grows by at most that.
\<close>

theorem retries_bounded:
  assumes "keeps_config env op" and "counts_operations n env op rc"
    and "0 \<le> rc_max_retries rc" and "rc_max_retries rc < 2147483647"
  shows "\<exists>r rc'. execute_with_retry env op rc = Some (r, rc') \<and>
    n (rc_world rc') \<le> n (rc_world rc) + nat (rc_max_retries rc + 1)"
  using retry_loop_bounded [OF assms(1,2), of 0 None] assms(3,4)
  by (simp add: execute_with_retry_def)

text \<open>
  An operation that fails, with any error at all and not only one of the network, costs the
  connection: without retries the caller gets the error wrapped, and the client the operation
  ran on has been closed and dropped.
\<close>

theorem failed_operation_drops_client:
  assumes "\<not> rc_closed rc" and "rc_client rc = Some c" and "rc_max_retries rc = 0"
    and "op c rc = (Inl e, rc1)" and "rc_client rc1 = Some c" and "rc_max_retries rc1 = 0"
  shows "execute_with_retry env op rc =
    Some (Inl (Wrapf ''max retries exceeded'' e),
      rc1\<lparr>rc_client := None, rc_world := snd (en_close env c (rc_world rc1))\<rparr>)"
proof -
  have g: "rc_get_client rc = (Inr c, rc)" using assms(1,2) by (simp add: rc_get_client_def)
  have inc: "int_inc 0 = 1" by (simp add: int_inc_small)
  let ?rc = "rc1\<lparr>rc_client := None, rc_world := snd (en_close env c (rc_world rc1))\<rparr>"
  have b: "rc_backoff env 0 (rc_invalidate env c rc1) = ?rc"
    using assms(5,6) by (simp add: rc_backoff_def rc_invalidate_def)
  have "retry_loop env op 0 None rc = retry_loop env op 1 (Some e) ?rc"
    using assms(3,4) g inc b by (simp add: retry_loop.simps [of env op 0 None rc])
  also have "\<dots> = Some (Inl (retries_exceeded (Some e)), ?rc)"
    using assms(6) by (simp add: retry_loop.simps [of env op 1])
  finally show ?thesis by (simp add: execute_with_retry_def retries_exceeded_def)
qed

text \<open>
  C15: With infinite retries a call ends with the operation's result as soon as failures are
  finite: if, under an invariant of the states between attempts, every failed connection and every
  failed operation leaves fewer failures ahead, the call returns a result and never an error.
\<close>

theorem retry_until_success:
  assumes "keeps_config env op" and "rc_max_retries rc < 0" and "I rc"
    and connect: "\<And>i rc e rc1. I rc \<Longrightarrow> rc_get_client rc = (Inl e, rc1) \<Longrightarrow>
          I (rc_backoff env i rc1) \<and> ahead (rc_backoff env i rc1) < (ahead rc :: nat)"
    and fails: "\<And>i rc c rc1 e rc2. I rc \<Longrightarrow> rc_get_client rc = (Inr c, rc1) \<Longrightarrow>
          op c rc1 = (Inl e, rc2) \<Longrightarrow>
          I (rc_backoff env i (rc_invalidate env c rc2)) \<and>
          ahead (rc_backoff env i (rc_invalidate env c rc2)) < ahead rc"
  shows "\<exists>res rc'. execute_with_retry env op rc = Some (Inr res, rc')"
proof -
  have "\<exists>res rc'. retry_loop env op i le rc = Some (Inr res, rc')"
    if "rc_max_retries rc < 0" and "I rc" for i le rc
    using that
  proof (induction "ahead rc" arbitrary: i le rc rule: less_induct)
    case less
    note next' = less.hyps [of "rc_backoff env i _"]
    show ?case
    proof (cases rule: retry_loop_cases [of rc i env op le])
      case (no_client e rc1)
      show ?thesis
        using next' [of rc1] connect [OF less.prems(2) no_client(2), of i] less.prems(1)
          rc_get_client_max [OF no_client(2)] rc_backoff_max [OF assms(1)]
        unfolding no_client(3) by simp
    next
      case (failure c rc1 e rc2)
      show ?thesis
        using next' [of "rc_invalidate env c rc2"] fails [OF less.prems(2) failure(2,3), of i]
          less.prems(1) rc_get_client_max [OF failure(2)] op_max [OF assms(1) failure(3)]
          rc_backoff_max [OF assms(1)]
        unfolding failure(4) by simp
    qed (use less.prems in auto)
  qed
  then show ?thesis using assms(2,3) by (simp add: execute_with_retry_def)
qed

text \<open>
  C37: A client with infinite retries that has been closed, by this or another goroutine, never
  answers again: nothing opens it, every attempt finds it closed, and the call does not return.
\<close>

theorem closed_never_returns:
  fixes rc :: "('a, 'b) reconn"
  assumes "keeps_config env op" and "\<And>d rc. rc_closed rc \<Longrightarrow> rc_closed (en_sleep env d rc)"
    and "rc_max_retries rc < 0"
  shows "execute_with_retry env op (snd (rc_close env rc)) = None"
proof -
  let ?P = "\<lambda>(i :: int) rc. rc_closed rc \<and> rc_max_retries rc < 0"
  have g: "rc_get_client rc = (Inl (Errorf ''client is closed'' []), rc)" if "rc_closed rc"
    for rc :: "('a, 'b) reconn"
    using that by (simp add: rc_get_client_def)
  have "retry_loop env op 0 None (snd (rc_close env rc)) = None"
  proof (rule retry_loop_diverges [where P = ?P])
    show "?P 0 (snd (rc_close env rc))"
      using assms(3) by (simp add: rc_close_def split: option.split prod.split)
  next
    fix i e and rc rc1 :: "('a, 'b) reconn"
    assume P: "?P i rc" and "rc_get_client rc = (Inl e, rc1)"
    then have "rc1 = rc" using g [of rc] by simp
    moreover have "rc_closed (rc_backoff env i rc)" using P assms(2) by (simp add: rc_backoff_def)
    ultimately show "?P (int_inc i) (rc_backoff env i rc1)"
      using P by (simp add: rc_backoff_max [OF assms(1)])
  qed (use g in auto)
  then show ?thesis by (simp add: execute_with_retry_def)
qed

text \<open>
  A limit of 2147483647 or more is no limit: the counter is set back to 0 when it reaches that
  value, so against a device that always accepts the connection and always fails the operation
  the call never returns.
\<close>

theorem counter_reset_diverges:
  fixes rc :: "('a, 'b) reconn"
  assumes "keeps_config env op" and "2147483647 \<le> rc_max_retries rc"
    and "\<not> rc_closed rc" and "rc_factory rc = Some f" and connects: "\<And>w. \<exists>c w'. f w = (Inr c, w')"
    and fails: "\<And>c rc. \<exists>e. fst (op c rc) = Inl e"
    and same: "\<And>c rc. rc_closed (snd (op c rc)) = rc_closed rc \<and> rc_factory (snd (op c rc)) = rc_factory rc"
      "\<And>d rc. rc_closed (en_sleep env d rc) = rc_closed rc \<and> rc_factory (en_sleep env d rc) = rc_factory rc"
  shows "execute_with_retry env op rc = None"
proof -
  let ?P = "\<lambda>i rc. 0 \<le> i \<and> i \<le> 2147483647 \<and> 2147483647 \<le> rc_max_retries rc \<and>
    \<not> rc_closed rc \<and> rc_factory rc = Some f"
  have g: "\<exists>c rc1. rc_get_client rc' = (Inr c, rc1) \<and> \<not> rc_closed rc1 \<and> rc_factory rc1 = Some f"
    if "?P i rc'" for i rc'
    using that connects [of "rc_world rc'"]
    by (auto simp: rc_get_client_def rc_connect_def split: option.split)
  have "retry_loop env op 0 None rc = None"
  proof (rule retry_loop_diverges [where P = ?P])
    fix i :: int and c e and rc rc1 rc2 :: "('a, 'b) reconn"
    assume P: "?P i rc" and c: "rc_get_client rc = (Inr c, rc1)" and o: "op c rc1 = (Inl e, rc2)"
    let ?rc = "rc_backoff env i (rc_invalidate env c rc2)"
    have rc2: "rc_closed rc2 = rc_closed rc1" "rc_factory rc2 = rc_factory rc1"
      using same(1) [of c rc1] o by simp_all
    have rc: "rc_closed ?rc = rc_closed rc1" "rc_factory ?rc = rc_factory rc1"
      using rc2 same(2) by (simp_all add: rc_backoff_def rc_invalidate_def)
    have "rc_max_retries ?rc = rc_max_retries rc"
      using rc_backoff_max [OF assms(1)] op_max [OF assms(1) o] rc_get_client_max [OF c] by simp
    moreover have "int_inc (if i = 2147483647 then 0 else i) = (if i = 2147483647 then 0 else i) + 1"
      using P int_inc_small [of 0] int_inc_small [of i] by auto
    ultimately show "?P (int_inc (if i = 2147483647 then 0 else i)) ?rc"
      using P g [OF P] c rc by auto
  next
    fix i :: int and e and rc rc1 :: "('a, 'b) reconn"
    assume "?P i rc" and "rc_get_client rc = (Inl e, rc1)"
    then show "?P (int_inc i) (rc_backoff env i rc1)" using g [of i rc] by auto
  next
    fix i :: int and c res and rc rc1 rc2 :: "('a, 'b) reconn"
    assume "op c rc1 = (Inr res, rc2)"
    then show False using fails [of c rc1] by simp
  qed (use assms in auto)
  then show ?thesis by (simp add: execute_with_retry_def)
qed

section \<open>A concrete client\<close>

text \<open>
  The world counts the operations run so far, clients are numbers, and the operation fails until
  it has run k times.
\<close>

definition demo_env :: "(nat, nat) reconn_env" where
  "demo_env = \<lparr>en_close = \<lambda>c w. (None, w), en_sleep = \<lambda>d rc. rc\<rparr>"

definition demo_op :: "nat \<Rightarrow> nat \<Rightarrow> (nat, nat) reconn \<Rightarrow> (go_error + bytes) \<times> (nat, nat) reconn" where
  "demo_op k c rc =
     (if rc_world rc < k then Inl EOF else Inr [7], rc\<lparr>rc_world := Suc (rc_world rc)\<rparr>)"

definition demo_client :: "int \<Rightarrow> (nat, nat) reconn" where
  "demo_client limit = new_reconnecting_client (\<lambda>w. (Inr w, w)) 0 [WithMaxRetries limit]"

lemma demo_keeps_config: "keeps_config demo_env (demo_op k)"
  by (simp add: keeps_config_def demo_env_def demo_op_def)

lemma demo_client_simps [simp]:
  "rc_client (demo_client limit) = Some 0" "rc_closed (demo_client limit) = False"
  "rc_max_retries (demo_client limit) = limit" "rc_world (demo_client limit) = 0"
  "rc_factory (demo_client limit) = Some (\<lambda>w. (Inr w, w))"
  by (simp_all add: demo_client_def new_reconnecting_client_def rc_connect_def)

lemma demo_get_client:
  "rc_get_client rc = (Inr c, rc1) \<Longrightarrow> rc_factory rc = Some (\<lambda>w. (Inr w, w)) \<Longrightarrow>
   rc_world rc1 = rc_world rc \<and> rc_factory rc1 = rc_factory rc"
  by (auto simp: rc_get_client_def rc_connect_def split: if_splits option.splits)

theorem retries_bounded_witness:
  "\<exists>r rc'. execute_with_retry demo_env (demo_op 9) (demo_client 2) = Some (r, rc') \<and>
    rc_world rc' \<le> 3"
  using retries_bounded [OF demo_keeps_config [of 9], where n = id and rc = "demo_client 2"]
  by (simp add: counts_operations_def demo_env_def demo_op_def)

theorem failed_operation_drops_client_witness:
  "execute_with_retry demo_env (demo_op 9) (demo_client 0) =
    Some (Inl (Wrapf ''max retries exceeded'' EOF),
      demo_client 0\<lparr>rc_world := 1, rc_client := None\<rparr>)"
  using failed_operation_drops_client [of "demo_client 0" 0 "demo_op 9" EOF
      "demo_client 0\<lparr>rc_world := 1\<rparr>" demo_env]
  by (simp add: demo_op_def demo_env_def)

theorem retry_until_success_witness:
  "\<exists>res rc'. execute_with_retry demo_env (demo_op 9) (demo_client (-1)) = Some (Inr res, rc')"
proof (rule retry_until_success [OF demo_keeps_config,
      where I = "\<lambda>rc. \<not> rc_closed rc \<and> rc_factory rc = Some (\<lambda>w. (Inr w, w))"
        and ahead = "\<lambda>rc. 9 - rc_world rc"])
  fix i c e and rc rc1 rc2 :: "(nat, nat) reconn"
  assume I: "\<not> rc_closed rc \<and> rc_factory rc = Some (\<lambda>w. (Inr w, w))"
    and g: "rc_get_client rc = (Inr c, rc1)" and o: "demo_op 9 c rc1 = (Inl e, rc2)"
  have "rc_closed rc1 = rc_closed rc"
    using I g by (auto simp: rc_get_client_def rc_connect_def split: if_splits option.splits)
  then show "(\<not> rc_closed (rc_backoff demo_env i (rc_invalidate demo_env c rc2)) \<and>
      rc_factory (rc_backoff demo_env i (rc_invalidate demo_env c rc2)) = Some (\<lambda>w. (Inr w, w))) \<and>
    9 - rc_world (rc_backoff demo_env i (rc_invalidate demo_env c rc2)) < 9 - rc_world rc"
    using demo_get_client [OF g] I o
    by (auto simp: demo_op_def demo_env_def rc_backoff_def rc_invalidate_def split: if_splits)
qed (auto simp: rc_get_client_def rc_connect_def split: option.splits)

theorem closed_never_returns_witness:
  "execute_with_retry demo_env (demo_op 0) (snd (rc_close demo_env (demo_client (-1)))) = None"
  by (rule closed_never_returns [OF demo_keeps_config]) (simp_all add: demo_env_def)

theorem counter_reset_diverges_witness:
  "execute_with_retry demo_env (\<lambda>c rc. (Inl EOF, rc)) (demo_client 2147483647) = None"
  by (rule counter_reset_diverges) (auto simp: keeps_config_def demo_env_def)

end
