(* ===== verification/Reconnect_Client.thy ===== *)
theory Reconnect_Client
  imports Reconnect Client
begin

text \<open>
  The reconnecting client over the clients of \<open>pkg/client/client.go\<close>: \<open>ClientFactory\<close>,
  \<open>c.ReadTag\<close> and \<open>c.Close\<close> of \<open>pkg/client/reconnect.go\<close>.  Clients are in a store and known by
  their references; what the k-th attempt to connect gives is up to the network.
\<close>

record 't client_world =
  cw_clients :: "nat \<Rightarrow> 't client"
  cw_next :: nat
  cw_dial :: "nat \<Rightarrow> go_error + 't client"
  cw_dials :: nat

definition client_factory :: "'t client_world \<Rightarrow> (go_error + nat) \<times> 't client_world" where
  "client_factory w =
     (case cw_dial w (cw_dials w) of
        Inl e \<Rightarrow> (Inl e, w\<lparr>cw_dials := Suc (cw_dials w)\<rparr>)
      | Inr c \<Rightarrow>
          (Inr (cw_next w),
           w\<lparr>cw_dials := Suc (cw_dials w), cw_next := Suc (cw_next w),
             cw_clients := (cw_clients w)(cw_next w := c)\<rparr>))"

text \<open>
  The reconnecting client always has a logger, so closing one of its clients does not panic.
\<close>

definition close_client ::
  "'t transport \<Rightarrow> nat \<Rightarrow> 't client_world \<Rightarrow> go_error option \<times> 't client_world" where
  "close_client tr r w =
     (case client_close tr (cw_clients w r) of
        (Return e, c) \<Rightarrow> (e, w\<lparr>cw_clients := (cw_clients w)(r := c)\<rparr>)
      | (Panic p, c) \<Rightarrow> (None, w\<lparr>cw_clients := (cw_clients w)(r := c)\<rparr>))"

lemma client_close_logger: "cl_logger c \<Longrightarrow> \<exists>e c'. client_close tr c = (Return e, c')"
  by (simp add: client_close_def split: prod.split)

definition read_tag_op ::
  "'t transport \<Rightarrow> bytes \<Rightarrow> nat \<Rightarrow> (nat, 't client_world) reconn
   \<Rightarrow> (go_error + bytes) \<times> (nat, 't client_world) reconn" where
  "read_tag_op tr name r rc =
     (let w = rc_world rc; (res, c) = read_tag tr (cw_clients w r) name
      in (res, rc\<lparr>rc_world := w\<lparr>cw_clients := (cw_clients w)(r := c)\<rparr>\<rparr>))"

text \<open>A program with one goroutine: nothing happens during a sleep.\<close>

definition quiet_env :: "'t transport \<Rightarrow> (nat, 't client_world) reconn_env" where
  "quiet_env tr = \<lparr>en_close = close_client tr, en_sleep = \<lambda>d rc. rc\<rparr>"

lemma quiet_env_sel [simp]:
  "en_close (quiet_env tr) = close_client tr" "rc_backoff (quiet_env tr) i rc = rc"
  by (simp_all add: quiet_env_def rc_backoff_def)

lemma close_client_world:
  "snd (close_client tr r w) =
     w\<lparr>cw_clients := (cw_clients w)(r := snd (client_close tr (cw_clients w r)))\<rparr>"
  by (simp add: close_client_def split: prod.split go.split)

section \<open>Reconnecting\<close>

text \<open>Attempts that do not get a connection only count.\<close>

lemma reconnect_attempts:
  assumes "\<not> rc_closed rc" and "rc_client rc = None" and "rc_factory rc = Some client_factory"
    and "rc_max_retries rc < 0 \<or> i + int k \<le> rc_max_retries rc"
    and "0 \<le> i" and "i + int k < 2 ^ 62"
    and "\<And>j. j < k \<Longrightarrow> \<exists>e. cw_dial (rc_world rc) (cw_dials (rc_world rc) + j) = Inl e"
  shows "\<exists>le'. retry_loop (quiet_env tr) op i le rc =
    retry_loop (quiet_env tr) op (i + int k) le'
      (rc\<lparr>rc_world := (rc_world rc)\<lparr>cw_dials := cw_dials (rc_world rc) + k\<rparr>\<rparr>)"
  using assms
proof (induction k arbitrary: i le rc)
  case 0
  then show ?case by auto
next
  case (Suc k)
  obtain e where e: "cw_dial (rc_world rc) (cw_dials (rc_world rc)) = Inl e"
    using Suc.prems(7) [of 0] by auto
  let ?rc = "rc\<lparr>rc_world := (rc_world rc)\<lparr>cw_dials := Suc (cw_dials (rc_world rc))\<rparr>\<rparr>"
  have g: "rc_get_client rc = (Inl e, ?rc)"
    using Suc.prems(1-3) e by (simp add: rc_get_client_def rc_connect_def client_factory_def)
  have i: "int_inc i = i + 1" using Suc.prems(5,6) by (intro int_inc_small) simp_all
  have "retry_loop (quiet_env tr) op i le rc = retry_loop (quiet_env tr) op (i + 1) (Some e) ?rc"
    using Suc.prems(4) g i
    by (auto simp: retry_loop.simps [of "quiet_env tr" op i le rc])
  moreover have "\<exists>le'. retry_loop (quiet_env tr) op (i + 1) (Some e) ?rc =
      retry_loop (quiet_env tr) op (i + 1 + int k) le'
        (?rc\<lparr>rc_world := (rc_world ?rc)\<lparr>cw_dials := cw_dials (rc_world ?rc) + k\<rparr>\<rparr>)"
  proof (rule Suc.IH)
    show "\<exists>e. cw_dial (rc_world ?rc) (cw_dials (rc_world ?rc) + j) = Inl e" if "j < k" for j
      using Suc.prems(7) [of "Suc j"] that by simp
  qed (use Suc.prems in auto)
  ultimately show ?case by (simp add: algebra_simps)
qed

section \<open>Properties\<close>

text \<open>
  C13: a connection that is lost is made again.  If reading a tag fails on the present client, then
  k attempts to connect fail, and the next gives a client on which the device answers, the caller
  gets the device's answer as if nothing had happened, given that the limit is at least k + 1;
  the old client has been closed, and the new one is kept.
\<close>

theorem read_survives_disconnect:
  assumes "\<not> rc_closed rc" and "rc_client rc = Some p" and "rc_factory rc = Some client_factory"
    and "rc_max_retries rc < 0 \<or> int (Suc k) \<le> rc_max_retries rc" and "int k < 2 ^ 61"
    and "read_tag tr (cw_clients (rc_world rc) p) name = (Inl e, c1)"
    and "\<And>j. j < k \<Longrightarrow> \<exists>e. cw_dial (rc_world rc) (cw_dials (rc_world rc) + j) = Inl e"
    and "cw_dial (rc_world rc) (cw_dials (rc_world rc) + k) = Inr c2"
    and "replies tr c2 \<lparr>rq_service = 0x4C, rq_path = add_symbolic_segment [] name,
                         rq_data = [1, 0]\<rparr> r c3"
    and "rp_status r = 0" and "p < cw_next (rc_world rc)"
  shows "\<exists>rc'. rc_read_tag (quiet_env tr) (read_tag_op tr) name rc = Some (Inr (rp_data r), rc') \<and>
    rc_client rc' = Some (cw_next (rc_world rc)) \<and>
    cw_clients (rc_world rc') p = snd (client_close tr c1) \<and>
    cw_clients (rc_world rc') (cw_next (rc_world rc)) = c3 \<and>
    cw_dials (rc_world rc') = cw_dials (rc_world rc) + Suc k"
proof -
  let ?w = "rc_world rc" and ?env = "quiet_env tr" and ?op = "read_tag_op tr name"
  have g: "rc_get_client rc = (Inr p, rc)" using assms(1,2) by (simp add: rc_get_client_def)
  let ?rc1 = "rc\<lparr>rc_client := None, rc_world := ?w\<lparr>cw_clients :=
    (cw_clients ?w)(p := snd (client_close tr c1))\<rparr>\<rparr>"
  have op1: "?op p rc = (Inl e, rc\<lparr>rc_world := ?w\<lparr>cw_clients := (cw_clients ?w)(p := c1)\<rparr>\<rparr>)"
    by (simp add: read_tag_op_def assms(6) Let_def)
  have inv: "rc_invalidate ?env p (rc\<lparr>rc_world := ?w\<lparr>cw_clients := (cw_clients ?w)(p := c1)\<rparr>\<rparr>) = ?rc1"
    using assms(2) by (simp add: rc_invalidate_def close_client_world)
  have step1: "retry_loop ?env ?op 0 None rc = retry_loop ?env ?op 1 (Some e) ?rc1"
    using assms(4) g op1 inv int_inc_small [of 0]
    by (auto simp: retry_loop.simps [of ?env ?op 0 None rc])
  let ?rc2 = "?rc1\<lparr>rc_world := (rc_world ?rc1)\<lparr>cw_dials := cw_dials ?w + k\<rparr>\<rparr>"
  obtain le where step2: "retry_loop ?env ?op 1 (Some e) ?rc1 = retry_loop ?env ?op (1 + int k) le ?rc2"
    using reconnect_attempts [of ?rc1 1 k tr ?op "Some e"] assms(1,3,4,5,7) by auto
  let ?w3 = "(rc_world ?rc2)\<lparr>cw_dials := Suc (cw_dials ?w + k), cw_next := Suc (cw_next ?w),
    cw_clients := (cw_clients (rc_world ?rc2))(cw_next ?w := c2)\<rparr>"
  let ?rc3 = "?rc2\<lparr>rc_client := Some (cw_next ?w), rc_world := ?w3\<rparr>"
  have g3: "rc_get_client ?rc2 = (Inr (cw_next ?w), ?rc3)"
    using assms(1,3,8) by (simp add: rc_get_client_def rc_connect_def client_factory_def)
  have "read_tag tr c2 name = (Inr (rp_data r), c3)"
    using read_tag_replies [of tr c2 name r c3] assms(9,10)
    by (simp add: new_read_tag_request_def new_path_def)
  then have op3: "?op (cw_next ?w) ?rc3 = (Inr (rp_data r),
      ?rc3\<lparr>rc_world := ?w3\<lparr>cw_clients := (cw_clients ?w3)(cw_next ?w := c3)\<rparr>\<rparr>)"
    by (simp add: read_tag_op_def)
  have "rc_max_retries ?rc2 < 0 \<or> 1 + int k \<le> rc_max_retries ?rc2" using assms(4) by auto
  note step3 = retry_loop_success [where op = ?op and env = ?env and le = le, OF this g3 op3]
  show ?thesis
    unfolding rc_read_tag_def execute_with_retry_def step1 step2 step3
    using assms(11) by simp
qed

text \<open>An example: the first client has lost its connection, one attempt to connect fails.\<close>

definition demo_answer :: mr_response where
  "demo_answer = \<lparr>rp_service = 0xCC, rp_reserved = 0, rp_status = 0, rp_ext_size = 0, rp_ext = [],
     rp_data = le16 0xC4 @ le32 100000\<rparr>"

definition demo_world :: "script client_world" where
  "demo_world = \<lparr>cw_clients = (\<lambda>_. scripted_client [] []), cw_next = 0,
     cw_dial = (\<lambda>n. if n = 1 then Inl (NetError ''refused'')
                    else Inr (scripted_client [] (if n = 0 then [] else [demo_answer]))),
     cw_dials = 0\<rparr>"

theorem read_survives_disconnect_witness:
  "\<exists>rc'. rc_read_tag (quiet_env scripted) (read_tag_op scripted) [0x41]
      (new_reconnecting_client client_factory demo_world []) = Some (Inr (rp_data demo_answer), rc') \<and>
    rc_client rc' = Some 1"
proof -
  let ?rc = "new_reconnecting_client client_factory demo_world []"
  have rc: "rc_closed ?rc = False" "rc_client ?rc = Some 0" "rc_factory ?rc = Some client_factory"
    "rc_max_retries ?rc = 3" "cw_clients (rc_world ?rc) 0 = scripted_client [] []"
    "cw_dials (rc_world ?rc) = 1" "cw_next (rc_world ?rc) = 1" "cw_dial (rc_world ?rc) = cw_dial demo_world"
    by (simp_all add: new_reconnecting_client_def rc_connect_def client_factory_def demo_world_def)
  obtain e c1 where e: "read_tag scripted (scripted_client [] []) [0x41] = (Inl e, c1)"
    by (simp add: read_tag_def client_send_cip_def send_cip_request_def session_send_rr_data_def
        scripted_def scripted_client_def)
  have r: "replies scripted (scripted_client [] [demo_answer])
      \<lparr>rq_service = 0x4C, rq_path = add_symbolic_segment [] [0x41], rq_data = [1, 0]\<rparr> demo_answer
      (scripted_client ([] @ [(CommandSendRRData, rr_data (request_encode
        \<lparr>rq_service = 0x4C, rq_path = add_symbolic_segment [] [0x41], rq_data = [1, 0]\<rparr>), 7)]) [])"
    by (rule scripted_replies) (simp_all add: demo_answer_def response_bytes_def)
  have "\<exists>rc'. rc_read_tag (quiet_env scripted) (read_tag_op scripted) [0x41] ?rc =
      Some (Inr (rp_data demo_answer), rc') \<and> rc_client rc' = Some (cw_next (rc_world ?rc)) \<and>
    cw_clients (rc_world rc') 0 = snd (client_close scripted c1) \<and>
    cw_clients (rc_world rc') (cw_next (rc_world ?rc)) =
      scripted_client ([] @ [(CommandSendRRData, rr_data (request_encode
        \<lparr>rq_service = 0x4C, rq_path = add_symbolic_segment [] [0x41], rq_data = [1, 0]\<rparr>), 7)]) [] \<and>
    cw_dials (rc_world rc') = cw_dials (rc_world ?rc) + Suc 1"
    by (rule read_survives_disconnect [OF _ _ _ _ _ _ _ _ r])
      (use rc e in \<open>simp_all add: demo_world_def demo_answer_def\<close>)
  then show ?thesis using rc by auto
qed

end
