(* ===== verification/Reconnect_Tool.thy ===== *)
theory Reconnect_Tool
  imports Reconnect_Client Read_Tools
begin

text \<open>
  The tool \<open>cmd/read_tag_single_reconnecting/main.go\<close>: on the ticks of a ticker of one second it
  reads a tag through a reconnecting client with five retries, and prints what it got.  The
  network is the world of \<open>Reconnect_Client\<close>: what each attempt to connect gives.  A read also
  takes its time, sleeps between retries included, or never returns, as the reads of a connection
  have no deadline; how long each takes is given.  Times are nanoseconds since the ticker was
  made.
\<close>

definition tick_period :: int where
  "tick_period = 1000000000"

text \<open>
  The ticker sends at the multiples of its period into a channel that holds one tick; a tick that
  finds it full is dropped.  After a read from b to e, the loop goes on at e if there was a tick
  in between, however many, and otherwise at the next tick.
\<close>

definition next_tick :: "int \<Rightarrow> int \<Rightarrow> int" where
  "next_tick b e =
     (if b div tick_period < e div tick_period then e else (e div tick_period + 1) * tick_period)"

definition read_line ::
  "'c host \<Rightarrow> nat \<Rightarrow> int \<Rightarrow> go_error + bytes \<Rightarrow> out_event" where
  "read_line h idx t res =
     print_line (lit ''['' @ ho_time h t @ lit ''] #'' @ dec_nat idx @
       (case res of
          Inl e \<Rightarrow> lit '' ERROR: '' @ ho_error h e
        | Inr val \<Rightarrow> lit '' SUCCESS: '' @ dec_nat (length val) @ lit '' bytes'' @ [10] @ HexDump val))"

text \<open>
  The loop, for the reads with the given durations (None never returns), the first from the time b:
  what it prints, and the client, or None when it hangs in a read.
\<close>

fun read_loop ::
  "'c host \<Rightarrow> 't transport \<Rightarrow> bytes \<Rightarrow> nat \<Rightarrow> int \<Rightarrow> int option list \<Rightarrow> (nat, 't client_world) reconn
   \<Rightarrow> outputs \<times> (nat, 't client_world) reconn option" where
  "read_loop h tr tagName idx b [] rc = ([], Some rc)"
| "read_loop h tr tagName idx b (None # ds) rc = ([], None)"
| "read_loop h tr tagName idx b (Some d # ds) rc =
     (case rc_read_tag (quiet_env tr) (read_tag_op tr) tagName rc of
        None \<Rightarrow> ([], None)
      | Some (res, rc') \<Rightarrow>
          (let (out, r) = read_loop h tr tagName (idx + 1) (next_tick b (b + d)) ds rc'
           in (read_line h idx (b + d) res # out, r)))"

text \<open>
  Without a tag name the tool exits with 1.  The client is made with the options of the source;
  making it cannot fail, a first connection that fails is tried again by the first read.
\<close>

definition reconnecting_main ::
  "'c host \<Rightarrow> 't transport \<Rightarrow> string \<Rightarrow> bytes \<Rightarrow> int option list \<Rightarrow> 't client_world
   \<Rightarrow> (nat \<times> outputs) + outputs \<times> (nat, 't client_world) reconn option" where
  "reconnecting_main h tr addr tagName ds w =
     (if tagName = [] then Inl (1, [print_line (lit ''Error: --tag is required'')])
      else
        let rc = new_reconnecting_client client_factory w
                   [WithMaxRetries 5, WithRetryDelay (500 * 1000000)];
            out = [print_line (connecting addr),
                   print_line (lit ''Reading tag '' @ quoted tagName @
                     lit '' every second. Press Ctrl+C to stop.''),
                   print_line (replicate 57 45)];
            (out', r) = read_loop h tr tagName 1 tick_period ds rc
        in Inr (out @ out', r))"

lemma div_less_period: "b div tick_period < k \<longleftrightarrow> b < k * tick_period"
proof -
  have P: "0 < tick_period" by (simp add: tick_period_def)
  have b: "b = b div tick_period * tick_period + b mod tick_period" by simp
  have m: "0 \<le> b mod tick_period" "b mod tick_period < tick_period" using P by simp_all
  show ?thesis
  proof
    assume "b div tick_period < k"
    then have "(b div tick_period + 1) * tick_period \<le> k * tick_period"
      using P by (intro mult_right_mono) simp_all
    then show "b < k * tick_period" using b m unfolding distrib_right by linarith
  next
    assume l: "b < k * tick_period"
    show "b div tick_period < k"
    proof (rule ccontr)
      assume "\<not> b div tick_period < k"
      then have "k * tick_period \<le> b div tick_period * tick_period"
        using P by (intro mult_right_mono) simp_all
      then show False using l b m by linarith
    qed
  qed
qed

text \<open>There was a tick between b and e if the quotients differ; the loop never waits for long.\<close>

lemma tick_between: "b div tick_period < e div tick_period \<longleftrightarrow> (\<exists>k. b < k * tick_period \<and> k * tick_period \<le> e)"
proof
  assume "b div tick_period < e div tick_period"
  then show "\<exists>k. b < k * tick_period \<and> k * tick_period \<le> e"
    using div_less_period [of b "e div tick_period"] div_less_period [of e "e div tick_period"]
    by (intro exI [of _ "e div tick_period"]) simp
next
  assume "\<exists>k. b < k * tick_period \<and> k * tick_period \<le> e"
  then obtain k where "b < k * tick_period" "\<not> e < k * tick_period" by auto
  then show "b div tick_period < e div tick_period"
    using div_less_period [of b k] div_less_period [of e k] by simp
qed

lemma next_tick_bounds:
  assumes "b \<le> e"
  shows "e \<le> next_tick b e" and "next_tick b e \<le> e + tick_period"
proof -
  have "e < (e div tick_period + 1) * tick_period" "e div tick_period * tick_period \<le> e"
    using div_less_period [of e "e div tick_period + 1"] div_less_period [of e "e div tick_period"] by simp_all
  moreover have "0 < tick_period" by (simp add: tick_period_def)
  ultimately show "e \<le> next_tick b e" "next_tick b e \<le> e + tick_period"
    unfolding next_tick_def distrib_right by (simp_all del: minus_mod_eq_div_mult [symmetric])
qed

lemma next_tick_quick:
  assumes "0 \<le> d" and "d < tick_period"
  shows "next_tick (k * tick_period) (k * tick_period + d) = (k + 1) * tick_period"
proof -
  have P: "tick_period \<noteq> 0" by (simp add: tick_period_def)
  have "(k * tick_period + d) div tick_period = k" using assms P by simp
  then show ?thesis using P by (simp add: next_tick_def)
qed

lemma next_tick_slow:
  assumes "tick_period \<le> d"
  shows "next_tick b (b + d) = b + d"
proof -
  define q where "q = b div tick_period"
  have "b < (q + 1) * tick_period" "\<not> b < q * tick_period"
    using div_less_period [of b "q + 1"] div_less_period [of b q] by (simp_all add: q_def)
  moreover have "(q + 1) * tick_period = q * tick_period + tick_period" by (simp add: distrib_right)
  ultimately have "b < (q + 1) * tick_period \<and> (q + 1) * tick_period \<le> b + d" using assms by linarith
  then have "b div tick_period < (b + d) div tick_period" unfolding tick_between by blast
  then show ?thesis by (simp add: next_tick_def)
qed

lemma next_tick_count:
  assumes "k * tick_period \<le> b" and "b \<le> e"
  shows "(k + 1) * tick_period \<le> next_tick b e"
proof -
  have k: "k \<le> b div tick_period" "k \<le> e div tick_period"
    using div_less_period [of b k] div_less_period [of e k] assms by simp_all
  show ?thesis
  proof (cases "b div tick_period < e div tick_period")
    case True
    then show ?thesis
      using k(1) div_less_period [of e "k + 1"] by (simp add: next_tick_def)
  next
    case False
    have "(k + 1) * tick_period \<le> (e div tick_period + 1) * tick_period"
      using k(2) by (intro mult_right_mono) (simp_all add: tick_period_def)
    then show ?thesis using False by (simp add: next_tick_def)
  qed
qed

section \<open>Every read returns\<close>

lemma retry_loop_max:
  assumes "keeps_config env op" and "retry_loop env op i le rc = Some (r, rc')"
  shows "rc_max_retries rc' = rc_max_retries rc"
proof -
  have "keeps_config env op \<longrightarrow> rc_max_retries (snd y) = rc_max_retries rc"
    if "retry_loop env op i le rc = Some y" for env op i le rc y
  proof (rule retry_loop.raw_induct
      [where P = "\<lambda>env op i le rc y. keeps_config env op \<longrightarrow> rc_max_retries (snd y) = rc_max_retries rc",
       OF _ that])
    fix loop env op i le rc y
    assume 1: "\<And>env op i le rc y. loop env op i le rc = Some y \<Longrightarrow>
        keeps_config env op \<longrightarrow> rc_max_retries (snd y) = rc_max_retries rc"
      and 2: "(if \<not> (rc_max_retries rc < 0 \<or> i \<le> rc_max_retries rc)
      then Some (Inl (retries_exceeded le), rc)
      else
        (case rc_get_client rc of
           (Inl e, rc1) \<Rightarrow> loop env op (int_inc i) (Some e) (rc_backoff env i rc1)
         | (Inr c, rc1) \<Rightarrow>
             (case op c rc1 of
                (Inr res, rc2) \<Rightarrow> Some (Inr res, rc2)
              | (Inl e, rc2) \<Rightarrow>
                  loop env op (int_inc (if i = 2147483647 then 0 else i)) (Some e)
                    (rc_backoff env i (rc_invalidate env c rc2))))) = Some y"
    show "keeps_config env op \<longrightarrow> rc_max_retries (snd y) = rc_max_retries rc"
    proof
      assume k: "keeps_config env op"
      then have o: "rc_max_retries (snd (op c rc)) = rc_max_retries rc" for c rc
        by (simp add: keeps_config_def)
      from 2 show "rc_max_retries (snd y) = rc_max_retries rc"
        by (auto split: if_splits prod.splits sum.splits dest!: 1 rc_get_client_max
            dest: op_max [OF k] simp: k o rc_backoff_max [OF k])
    qed
  qed
  from this [OF assms(2)] assms(1) show ?thesis by simp
qed

lemma read_tool_env: "keeps_config (quiet_env tr) (read_tag_op tr name)"
  "counts_operations (\<lambda>_. 0) (quiet_env tr) (read_tag_op tr name) rc"
  by (simp_all add: keeps_config_def counts_operations_def quiet_env_def read_tag_op_def Let_def
      split: prod.split)

lemma read_tool_returns:
  assumes "rc_max_retries rc = 5"
  shows "\<exists>res rc'. rc_read_tag (quiet_env tr) (read_tag_op tr) name rc = Some (res, rc') \<and>
    rc_max_retries rc' = 5"
proof -
  obtain res rc' where r: "retry_loop (quiet_env tr) (read_tag_op tr name) 0 None rc = Some (res, rc')"
    using retry_loop_bounded [OF read_tool_env(1) read_tool_env(2) [of tr name rc], of 0 None] assms
    by auto
  with retry_loop_max [OF read_tool_env(1) r] assms show ?thesis
    by (simp add: rc_read_tag_def execute_with_retry_def)
qed

lemma new_reconnecting_max:
  "rc_max_retries (new_reconnecting_client client_factory w [WithMaxRetries 5, WithRetryDelay d]) = 5"
  by (simp add: new_reconnecting_client_def rc_connect_def Let_def split: prod.split sum.split)

text \<open>The durations of the reads up to the first that never returns.\<close>

definition returning :: "int option list \<Rightarrow> int list" where
  "returning ds = map the (takeWhile (\<lambda>d. d \<noteq> None) ds)"

lemma returning_simps [simp]:
  "returning [] = []" "returning (None # ds) = []" "returning (Some d # ds) = d # returning ds"
  by (simp_all add: returning_def)

text \<open>
  The reads of a run: the times they start at, their results, and the client before and after
  each.
\<close>

definition reads_run ::
  "'t transport \<Rightarrow> bytes \<Rightarrow> int list \<Rightarrow> int list \<Rightarrow> (go_error + bytes) list \<Rightarrow>
   (nat, 't client_world) reconn list \<Rightarrow> bool" where
  "reads_run tr name ds starts res rcs \<longleftrightarrow>
     length starts = length ds \<and> length res = length ds \<and> length rcs = Suc (length ds) \<and>
     (\<forall>j < length ds. rc_read_tag (quiet_env tr) (read_tag_op tr) name (rcs ! j) = Some (res ! j, rcs ! Suc j)) \<and>
     (\<forall>j. Suc j < length ds \<longrightarrow> starts ! Suc j = next_tick (starts ! j) (starts ! j + ds ! j))"

lemma reads_run_Cons:
  assumes "reads_run tr name ds starts res rcs" and "ds \<noteq> [] \<longrightarrow> starts ! 0 = next_tick b (b + d)"
    and "rc_read_tag (quiet_env tr) (read_tag_op tr) name rc = Some (x, rcs ! 0)"
  shows "reads_run tr name (d # ds) (b # starts) (x # res) (rc # rcs)"
  using assms by (auto simp: reads_run_def nth_Cons split: nat.split)

lemma read_loop_lines:
  assumes "rc_max_retries rc = 5"
  shows "\<exists>starts res rcs. reads_run tr name (returning ds) starts res rcs \<and> rcs ! 0 = rc \<and>
    (returning ds \<noteq> [] \<longrightarrow> starts ! 0 = b) \<and>
    fst (read_loop h tr name idx b ds rc) =
      map (\<lambda>j. read_line h (idx + j) (starts ! j + returning ds ! j) (res ! j)) [0..<length (returning ds)] \<and>
    (snd (read_loop h tr name idx b ds rc) = None \<longleftrightarrow> None \<in> set ds)"
  using assms
proof (induction ds arbitrary: idx b rc)
  case Nil
  show ?case by (intro exI [of _ "[]"] exI [of _ "[rc]"]) (simp add: reads_run_def)
next
  case (Cons d ds)
  show ?case
  proof (cases d)
    case None
    then show ?thesis by (intro exI [of _ "[]"] exI [of _ "[rc]"]) (simp add: reads_run_def)
  next
    case (Some n)
    obtain x rc1 where x: "rc_read_tag (quiet_env tr) (read_tag_op tr) name rc = Some (x, rc1)"
      "rc_max_retries rc1 = 5" using read_tool_returns [OF Cons.prems] by blast
    let ?b = "next_tick b (b + n)" and ?l = "read_loop h tr name (idx + 1) (next_tick b (b + n)) ds rc1"
    obtain starts res rcs where r: "reads_run tr name (returning ds) starts res rcs" "rcs ! 0 = rc1"
      "returning ds \<noteq> [] \<longrightarrow> starts ! 0 = ?b"
      "fst ?l = map (\<lambda>j. read_line h (idx + 1 + j) (starts ! j + returning ds ! j) (res ! j)) [0..<length (returning ds)]"
      "snd ?l = None \<longleftrightarrow> None \<in> set ds"
      using Cons.IH [OF x(2), where idx = "idx + 1" and b = ?b] by (elim exE conjE) (rule that)
    have "reads_run tr name (returning (d # ds)) (b # starts) (x # res) (rc # rcs)"
      using reads_run_Cons [OF r(1,3)] x(1) r(2) Some by simp
    moreover have "fst (read_loop h tr name idx b (d # ds) rc) =
        map (\<lambda>j. read_line h (idx + j) ((b # starts) ! j + returning (d # ds) ! j) ((x # res) ! j))
          [0..<length (returning (d # ds))]"
      using x(1) r(4) Some
      by (simp add: case_prod_beta upt_conv_Cons map_Suc_upt [symmetric] comp_def del: upt_Suc)
    moreover have "snd (read_loop h tr name idx b (d # ds) rc) = None \<longleftrightarrow> None \<in> set (d # ds)"
      using x(1) r(5) Some by (simp add: case_prod_beta)
    ultimately show ?thesis
      by (intro exI [of _ "b # starts"] exI [of _ "x # res"] exI [of _ "rc # rcs"]) simp
  qed
qed

text \<open>When the reads start: not before their tick, each after the one before, and soon after it.\<close>

lemma reads_run_times:
  assumes "reads_run tr name ds starts res rcs" and "\<forall>d \<in> set ds. 0 \<le> d" and "starts ! 0 = tick_period"
    and "j < length ds"
  shows "int (Suc j) * tick_period \<le> starts ! j"
    and "Suc j < length ds \<Longrightarrow> starts ! j + ds ! j \<le> starts ! Suc j \<and>
      starts ! Suc j \<le> starts ! j + ds ! j + tick_period \<and>
      (tick_period \<le> ds ! j \<longrightarrow> starts ! Suc j = starts ! j + ds ! j)"
    and "\<forall>d \<in> set ds. d < tick_period \<Longrightarrow> starts ! j = int (Suc j) * tick_period"
proof -
  have step: "starts ! Suc i = next_tick (starts ! i) (starts ! i + ds ! i)" if "Suc i < length ds" for i
    using assms(1) that by (simp add: reads_run_def)
  have pos: "0 \<le> ds ! i" if "i < length ds" for i using assms(2) that by simp
  show "Suc j < length ds \<Longrightarrow> starts ! j + ds ! j \<le> starts ! Suc j \<and>
      starts ! Suc j \<le> starts ! j + ds ! j + tick_period \<and>
      (tick_period \<le> ds ! j \<longrightarrow> starts ! Suc j = starts ! j + ds ! j)"
    using step [of j] pos [of j] next_tick_bounds next_tick_slow by simp
  show "int (Suc j) * tick_period \<le> starts ! j"
    using assms(4)
  proof (induction j)
    case (Suc j)
    then show ?case
      using step [of j] pos [of j] next_tick_count [of "int (Suc j)" "starts ! j" "starts ! j + ds ! j"]
      by simp
  qed (simp add: assms(3))
  show "starts ! j = int (Suc j) * tick_period" if "\<forall>d \<in> set ds. d < tick_period"
    using assms(4)
  proof (induction j)
    case (Suc j)
    then show ?case
      using step [of j] pos [of j] that next_tick_quick [of "ds ! j" "int (Suc j)"] by simp
  qed (simp add: assms(3))
qed

section \<open>Properties\<close>

text \<open>
  C22: the tool prints its heading and then, numbered from 1, one line for every read that returns,
  with the time it returned and its data or error, until it hangs in a read that never does: the
  retries of a read do not hang it.  Each read continues with the client the one before left.
  The j-th read starts no earlier than the j-th tick, after the read before it and at most a
  second after that; when all reads take less than a second each starts on its tick, and after
  one that takes a second or longer the next starts at once, and the ticks in between are lost
  but one.
\<close>

theorem reconnecting_tool_lines:
  assumes "tagName \<noteq> []" and "\<forall>d \<in> set (returning ds). 0 \<le> d"
  shows "\<exists>out rc starts res rcs. reconnecting_main h tr addr tagName ds w = Inr (out, rc) \<and>
    (rc = None \<longleftrightarrow> None \<in> set ds) \<and>
    drop 3 out = map (\<lambda>j. read_line h (1 + j) (starts ! j + returning ds ! j) (res ! j))
      [0..<length (returning ds)] \<and>
    (\<forall>j < length (returning ds).
       rc_read_tag (quiet_env tr) (read_tag_op tr) tagName (rcs ! j) = Some (res ! j, rcs ! Suc j)) \<and>
    rcs ! 0 = new_reconnecting_client client_factory w [WithMaxRetries 5, WithRetryDelay (500 * 1000000)] \<and>
    (\<forall>j < length (returning ds). int (Suc j) * tick_period \<le> starts ! j) \<and>
    (\<forall>j. Suc j < length (returning ds) \<longrightarrow> starts ! j + returning ds ! j \<le> starts ! Suc j \<and>
       starts ! Suc j \<le> starts ! j + returning ds ! j + tick_period \<and>
       (tick_period \<le> returning ds ! j \<longrightarrow> starts ! Suc j = starts ! j + returning ds ! j)) \<and>
    ((\<forall>d \<in> set (returning ds). d < tick_period) \<longrightarrow>
       (\<forall>j < length (returning ds). starts ! j = int (Suc j) * tick_period))"
proof -
  let ?rc = "new_reconnecting_client client_factory w [WithMaxRetries 5, WithRetryDelay (500 * 1000000)]"
  let ?l = "read_loop h tr tagName 1 tick_period ds ?rc"
  obtain starts res rcs where r: "reads_run tr tagName (returning ds) starts res rcs" "rcs ! 0 = ?rc"
    "returning ds \<noteq> [] \<longrightarrow> starts ! 0 = tick_period"
    "fst ?l = map (\<lambda>j. read_line h (1 + j) (starts ! j + returning ds ! j) (res ! j)) [0..<length (returning ds)]"
    "snd ?l = None \<longleftrightarrow> None \<in> set ds"
    using read_loop_lines [OF new_reconnecting_max, where ds = ds and idx = 1 and b = tick_period] by blast
  obtain out' rc where l: "?l = (out', rc)" by (cases ?l)
  obtain out where "reconnecting_main h tr addr tagName ds w = Inr (out, rc)" "drop 3 out = out'"
    using assms(1) l by (auto simp: reconnecting_main_def Let_def)
  moreover have "starts ! 0 = tick_period" if "j < length (returning ds)" for j using r(3) that by auto
  moreover note times = reads_run_times [OF r(1) assms(2)]
  ultimately show ?thesis
    using r l
    by (intro exI [of _ out] exI [of _ rc] exI [of _ starts] exI [of _ res] exI [of _ rcs])
      (auto simp: reads_run_def)
qed

theorem reconnecting_tool_lines_witness:
  "\<exists>out. reconnecting_main (device_host []) scripted ''plc'' [0x41]
       [Some 200000000, Some 1500000000, Some 100000000, None] demo_world = Inr (out, None) \<and>
     length (drop 3 out) = 3"
proof -
  let ?ds = "[Some 200000000, Some 1500000000, Some 100000000, None]"
  have len: "length (returning ?ds) = 3" by simp
  obtain out rc starts res where *: "reconnecting_main (device_host []) scripted ''plc'' [0x41] ?ds demo_world = Inr (out, rc)"
    "rc = None \<longleftrightarrow> None \<in> set ?ds" and
    "drop 3 out = map (\<lambda>j. read_line (device_host []) (1 + j) (starts ! j + returning ?ds ! j) (res ! j))
      [0..<length (returning ?ds)]"
    using reconnecting_tool_lines [of "[0x41]" ?ds "device_host []" scripted "''plc''" demo_world]
    by (auto simp del: length_drop)
  then have "length (drop 3 out) = 3" by (simp only: length_map length_upt len)
  with * show ?thesis by simp
qed

end
