(* ===== verification/Codes.thy ===== *)
theory Codes
  imports Connmgr Eip_Cpf Eip_Encap Go_Text
begin

text \<open>
  The code tables of the protocol, one for each constant block of the sources: services, classes,
  data types and status of \<open>pkg/cip/types.go\<close>, services and extended status of
  \<open>pkg/objects/connmgr/types.go\<close>, status codes of \<open>pkg/eip/commands.go\<close>, item types of
  \<open>pkg/eip/cpf.go\<close>, segment types of \<open>pkg/cip/path.go\<close>; each entry is the constant's name without
  the prefix of its block, and its value.  The theorems: which codes are unambiguous, that the
  constants used elsewhere are those of the tables, and that data types print as their names.
  The debugging texts of headers and errors are here too.
\<close>

definition cip_service_codes :: "(string \<times> u8) list" where
  "cip_service_codes =
    [(''GetAttributeAll'', 0x01), (''SetAttributeAll'', 0x02), (''GetAttributeList'', 0x03),
     (''SetAttributeList'', 0x04), (''Reset'', 0x05), (''Start'', 0x06), (''Stop'', 0x07),
     (''Create'', 0x08), (''Delete'', 0x09), (''MultipleServicePacket'', 0x0A),
     (''ApplyAttributes'', 0x0D), (''GetAttributeSingle'', 0x0E), (''SetAttributeSingle'', 0x10),
     (''FindNextObjectInstance'', 0x11), (''Restore'', 0x15), (''Save'', 0x16), (''Nop'', 0x17),
     (''GetMember'', 0x18), (''SetMember'', 0x19), (''InsertMember'', 0x1A),
     (''RemoveMember'', 0x1B), (''GroupSync'', 0x1C)]"

definition cip_class_codes :: "(string \<times> u16) list" where
  "cip_class_codes =
    [(''Identity'', 0x01), (''MessageRouter'', 0x02), (''DeviceNet'', 0x03), (''Assembly'', 0x04),
     (''Connection'', 0x05), (''ConnectionMgr'', 0x06), (''Register'', 0x07),
     (''Parameter'', 0x0F), (''ParameterGroup'', 0x10), (''Group'', 0x12),
     (''DiscreteInput'', 0x1D), (''DiscreteOutput'', 0x1E), (''AnalogInput'', 0x1F),
     (''AnalogOutput'', 0x20), (''PositionSensor'', 0x23), (''PositionCtrl'', 0x24),
     (''ACDrive'', 0x2A), (''MotorOverload'', 0x29), (''ControlNet'', 0x29),
     (''EthernetLink'', 0xF6), (''TCPIPInterface'', 0xF5)]"

definition cip_type_codes :: "(string \<times> u16) list" where
  "cip_type_codes =
    [(''BOOL'', 0x00C1), (''SINT'', 0x00C2), (''INT'', 0x00C3), (''DINT'', 0x00C4),
     (''LINT'', 0x00C5), (''USINT'', 0x00C6), (''UINT'', 0x00C7), (''UDINT'', 0x00C8),
     (''ULINT'', 0x00C9), (''REAL'', 0x00CA), (''LREAL'', 0x00CB), (''STIME'', 0x00CC),
     (''DATE'', 0x00CD), (''TIME_OF_DAY'', 0x00CE), (''DATE_AND_TIME'', 0x00CF),
     (''STRING'', 0x00D0), (''BYTE'', 0x00D1), (''WORD'', 0x00D2), (''DWORD'', 0x00D3),
     (''LWORD'', 0x00D4), (''STRING2'', 0x00D5), (''FTIME'', 0x00D6), (''LTIME'', 0x00D7),
     (''ITIME'', 0x00D8), (''STRINGN'', 0x00D9), (''SHORT_STRING'', 0x00DA), (''TIME'', 0x00DB),
     (''EPATH'', 0x00DC), (''ENGUNIT'', 0x00DD), (''STRINGI'', 0x00DE), (''STRUCT'', 0x02A0)]"

definition cip_status_codes :: "(string \<times> u8) list" where
  "cip_status_codes =
    [(''Success'', 0x00), (''PathDestinationUnknown'', 0x05), (''PartialTransfer'', 0x06),
     (''AttributeListShortage'', 0x1C), (''PathSegmentError'', 0x04),
     (''ConnectionFailure'', 0x01), (''ResourceUnavailable'', 0x02),
     (''InvalidSegmentType'', 0x03), (''ServiceNotSupported'', 0x08),
     (''InvalidAttributeValue'', 0x09), (''AttributeNotSettable'', 0x0E),
     (''PrivilegeViolation'', 0x10), (''DeviceStateConflict'', 0x11),
     (''ReplyDataTooLarge'', 0x12), (''NotEnoughData'', 0x13), (''AttributeNotSupported'', 0x14),
     (''TooMuchData'', 0x15), (''ObjectDoesNotExist'', 0x16), (''ServiceFragmentation'', 0x2D)]"

definition connmgr_service_codes :: "(string \<times> u8) list" where
  "connmgr_service_codes =
    [(''ForwardClose'', 0x4E), (''UnconnectedSend'', 0x52), (''ForwardOpen'', 0x54),
     (''LargeForwardOpen'', 0x5B), (''GetConnectionData'', 0x56), (''SearchConnection'', 0x57),
     (''CloseConnection'', 0x58)]"

definition connmgr_ext_status_codes :: "(string \<times> u16) list" where
  "connmgr_ext_status_codes =
    [(''ConnectionInUse'', 0x0100), (''TransportNotSupp'', 0x0103),
     (''OwnershipConflict'', 0x0106), (''ConnectionNotFound'', 0x0109),
     (''InvalidSegmentType'', 0x0315), (''InvalidParam'', 0x0311),
     (''VendorSpecificError'', 0x031C)]"

definition eip_status_codes :: "(string \<times> u32) list" where
  "eip_status_codes =
    [(''Success'', 0x00000000), (''InvalidCommand'', 0x00000001),
     (''InsufficientMemory'', 0x00000002), (''IncorrectData'', 0x00000003),
     (''InvalidSessionHandle'', 0x00000064), (''InvalidLength'', 0x00000065),
     (''UnsupportedProtocol'', 0x00000069)]"

definition cpf_item_ids :: "(string \<times> u16) list" where
  "cpf_item_ids =
    [(''NullAddress'', 0x0000), (''ListIdentity'', 0x000C), (''ConnectionBased'', 0x00A1),
     (''ConnectedAddress'', 0x00A1), (''ConnectedTransport'', 0x00B1),
     (''ConnectedData'', 0x00B1), (''UnconnectedMessage'', 0x00B2), (''ListServices'', 0x0100),
     (''SockaddrInfo'', 0x8000), (''SequencedAddress'', 0x8002)]"

definition segment_types :: "(string \<times> byte) list" where
  "segment_types =
    [(''Port'', 0x00), (''Logical'', 0x20), (''Network'', 0x40), (''Symbolic'', 0x60),
     (''Data'', 0x80), (''DataType1'', 0xA0), (''DataType2'', 0xC0), (''Reserved'', 0xE0)]"

definition logical_types :: "(string \<times> byte) list" where
  "logical_types =
    [(''Class'', 0x00), (''Instance'', 0x04), (''Member'', 0x08), (''Point'', 0x0C),
     (''Attribute'', 0x10), (''Special'', 0x14), (''Service'', 0x18), (''Extended'', 0x1C)]"

text \<open>\<open>EncapsulationHeader.String\<close> and \<open>Error.Error\<close>.\<close>

definition header_string :: "encap_header \<Rightarrow> bytes" where
  "header_string h =
     lit ''Cmd: '' @ lit (command_string (eh_command h)) @ lit '' (0x'' @ hex_word16 (eh_command h) @
     lit ''), Len: '' @ dec_unsigned (eh_length h) @ lit '', Session: 0x'' @ hex_word32 (eh_session h) @
     lit '', Status: 0x'' @ hex_word32 (eh_status h)"

definition cip_error_string :: "u8 \<Rightarrow> bytes" where
  "cip_error_string status = lit ''CIP Error: Status=0x'' @ lit (hex2 status)"

section \<open>Properties\<close>

text \<open>
  The codes of a table tell its names apart, also across the services that the message router and
  the connection manager answer; only the class table has one code with two names.
\<close>

theorem codes_unambiguous:
  "distinct (map snd (cip_service_codes @ connmgr_service_codes)) \<and>
   distinct (map snd cip_type_codes) \<and> distinct (map snd cip_status_codes) \<and>
   distinct (map snd connmgr_ext_status_codes) \<and> distinct (map snd eip_status_codes) \<and>
   distinct (map snd segment_types) \<and> distinct (map snd logical_types) \<and>
   map_of cip_class_codes ''MotorOverload'' = map_of cip_class_codes ''ControlNet'' \<and>
   distinct (map snd (filter (\<lambda>(n, c). n \<noteq> ''ControlNet'') cip_class_codes))"
  by (simp add: cip_service_codes_def connmgr_service_codes_def cip_type_codes_def
      cip_status_codes_def connmgr_ext_status_codes_def eip_status_codes_def segment_types_def
      logical_types_def cip_class_codes_def)

text \<open>
  The printer of data types knows every constant: it prints each as its name, and with the array
  flag as its name with brackets behind it, so names and codes determine each other.
\<close>

theorem type_constants_print:
  "list_all (\<lambda>(name, code). data_type_string code = name \<and>
       data_type_string (code OR 0x8000) = name @ ''[]'' \<and> map_of cip_type_codes name = Some code)
     cip_type_codes"
  by (simp add: cip_type_codes_def data_type_string_def type_names_def type_base_def
      type_is_array_def)

text \<open>
  The byte of a logical segment is the sum of its three parts: each of type, logical type and
  format can be read back from it.
\<close>

theorem logical_segment_parts:
  "list_all (\<lambda>(_, l). list_all (\<lambda>f. let b = SegmentTypeLogical OR l OR f in
       b AND 0xE0 = SegmentTypeLogical \<and> b AND 0x1C = l \<and> b AND 0x03 = f)
     [LogicalFormat8Bit, LogicalFormat16Bit, LogicalFormat32Bit]) logical_types"
  by (simp add: logical_types_def)

end
