(* ===== verification/Spec2Isabelle.thy ===== *)
theory Spec2Isabelle
  imports Adapter_Program Scheduler Monitor_Steps Monitor_Tool Reconnect_Tool Codes
begin

text \<open>
  A verification development for goeip, an EtherNet/IP library in Go: a client, which registers a
  session with a device over TCP and reads and writes its tags; a server, which answers explicit
  requests to the objects of an adapter; a runtime for implicit (cyclic) I/O over UDP; and the
  programs that use them.  The directories below are under \<open>src/\<close>.

  The parts and their theories, from the wire up:

  \<^item> \<open>Go_Prelude\<close>: Go's integers and byte slices, errors and panics as values, little-endian
    integers, \<open>bytes.Reader\<close> and \<open>io.ReadFull\<close>.  The interfaces of wire formats are the locales
    \<open>codec\<close> and \<open>fixed_codec\<close>.  \<open>Net_Conn\<close>: a TCP connection as the bytes still to come, the bytes
    written and the point where it breaks; the record \<open>net_conn\<close> is the interface of package \<open>net\<close>.
  \<^item> \<open>Go_Text\<close>: what package \<open>strconv\<close> and the verbs of \<open>fmt\<close> do to numbers, as far as the code uses
    them.  The contract of a printer and its parser is the locale \<open>printed\<close>.
  \<^item> \<open>Logger\<close> (\<open>internal/logger.go\<close>), \<open>Hexdump\<close> (\<open>pkg/utils\<close>): what is written, as a list of events,
    and hex dumps.
  \<^item> \<open>Eip_Encap\<close>, \<open>Eip_Cpf\<close>, \<open>Eip_Discovery\<close> (\<open>pkg/eip\<close>): the encapsulation header and commands, the
    common packet format, and the decoders of ListIdentity and ListServices.
  \<^item> \<open>Cip_Types\<close>, \<open>Cip_Path\<close>, \<open>Cip_Message\<close>, \<open>Cip_Logix\<close>, \<open>Cip_Symbol\<close>, \<open>Cip_Value\<close>, \<open>Cip_Router\<close>
    (\<open>pkg/cip\<close>): types, encoded paths, messages and services, timers and counters, the symbol
    object, Marshal and Unmarshal over a datatype of Go values, and the message router, whose
    objects are given by the locale \<open>cip_objects\<close>.  \<open>Codes\<close>: the tables of constants of \<open>pkg/cip\<close>,
    \<open>pkg/eip\<close> and \<open>pkg/objects/connmgr\<close>, and the texts of headers and errors.
  \<^item> \<open>Assembly\<close>, \<open>Connmgr\<close> (\<open>pkg/objects\<close>): the assembly object, with a store for the slices that
    instances share, and the connection manager.
  \<^item> \<open>Eip_Server\<close>, \<open>Server_Calls\<close>, \<open>Server_Steps\<close> (\<open>pkg/server\<close>): the loop over a connection, commands,
    explicit messages; the one call of an object that a packet makes; and the accept loop with the
    goroutines of all connections as a step relation.  Between receiving a packet and writing its
    response a goroutine enters and leaves the section of an object's lock, as steps of their own.
    The contract of objects behind locks is the locale \<open>locked_objects\<close>, interpreted on the
    objects of the adapter.
  \<^item> \<open>Transport\<close>, \<open>Session\<close>, \<open>Client\<close> (\<open>pkg/transport\<close>, \<open>pkg/session\<close>, \<open>pkg/client/client.go\<close> and
    \<open>discovery.go\<close>): what sends, receives, registers, and reads and writes tags.  The locale
    \<open>request_reply\<close> states what a client relies on; \<open>Loopback\<close> interprets it on the TCP transport
    against the server, so that requests of the client meet the server's code.
  \<^item> \<open>Reconnect\<close>, \<open>Reconnect_Client\<close> (\<open>pkg/client/reconnect.go\<close>): the retry loop over any factory
    and operation, and over the clients of the library.
  \<^item> \<open>Tag_Monitor\<close>, \<open>Monitor_Steps\<close> (\<open>pkg/client/tag_monitor.go\<close>): polls as functions, and the
    goroutines and channels as a step relation.
  \<^item> \<open>Io_Runtime\<close>, \<open>Io_Interleaving\<close>, \<open>Scheduler\<close> (\<open>pkg/runtime\<close>): listener, watchdog and scheduler as
    functions, their interleavings as a step relation, and the start and stop of a scheduler.
  \<^item> \<open>Runs\<close>: runs of a step relation and the locale \<open>step_invariant\<close>, interpreted on the step
    relations of runtime, monitor, server and programs.
  \<^item> \<open>Adapter\<close>, \<open>Adapter_Program\<close>, \<open>Scanner\<close> (\<open>cmd/adapter\<close>, \<open>cmd/scanner\<close>): the program that puts
    objects, router, server and runtime together, and the one that opens an I/O connection to it.
    A program is the list of the calls of its main function and runs beside the goroutines that
    these calls start; the adapter's list is \<open>adapter_calls\<close>.
  \<^item> \<open>Tools\<close>, \<open>Write_Tool\<close>, \<open>Read_Tools\<close>, \<open>Monitor_Tool\<close>, \<open>Reconnect_Tool\<close> (the other programs under
    \<open>cmd\<close>): each main function as what it prints, its exit code and the state of its connection.
    The reconnecting tool is modelled with its ticker and with reads that take their time or
    never return.

  How state corresponds: a struct is a record of the same fields, without its mutexes; a method
  is a function of the record that returns the changed record.  A method that holds the mutex
  of its object is one step, in \<open>Server_Steps\<close> two, with a lock in between; where goroutines share
  state without one mutex (\<open>Io_Interleaving\<close>, \<open>Monitor_Steps\<close>) a step is one critical section or
  channel operation.  Errors are values of
  \<open>go_error\<close> in a sum, panics values of \<open>go\<close>, integers words of their width.  Slices that are
  shared are addresses of a store.

  What the lemmas show: round trips of every wire format and exactness of decoders; the routing
  of requests and the assembly object as a map (refinement); that the server answers packet
  by packet and in order, whatever the bytes, and with many connections, thanks to the locks of
  the objects, as if their packets came one after another in some order (\<open>Server_Steps\<close>); that a request over TCP returns what the router
  returns, and so a written assembly is read back; invariants of objects under all inputs and
  of the runtime and the monitor under all interleavings; what the watchdog, the scheduler and
  the listener do; what the tools send and print, and that numbers survive from the command line
  to the device and back; termination and divergence of the retry loop; and where the code does not do
  what it or its documents say.

  Bounds: the server's loop recurs on the bytes still to come, of which every packet takes 24 or
  more, so no fuel is needed; the retry loop is a partial function, and that it returns is
  stated as such.  Items and messages are bounded by their 16-bit lengths, identifiers by their
  width, as the theorems say.

  Not modelled: the parsing of flags and the usage text; the lines that the functions of the library
  log (those of the programs are modelled) and the date in front of log lines; package \<open>net\<close>, whose
  answers to dialling, listening and accepting are parameters; \<open>ParseFloat\<close> and the texts of
  floats with \<open>%v\<close>, of errors, times and durations, which are parameters as well; signals and real
  time (a clock is a number given from outside); data races on unlocked fields; and the parts of
  reflection on Go values beyond the datatype of \<open>Cip_Value\<close>.
\<close>

end
